(* ===== verification/Prelude.thy ===== *)
theory Prelude
  imports Main "HOL-Library.Word" "HOL-Library.Code_Target_Nat"
begin

text \<open>
  Shared vocabulary of the development: the collections of simplification facts, Go's
  byte strings and 64-bit signed integers, error values, and generic lemmas on lists
  that the component theories use.

  Go's \<open>string\<close> and \<open>[]byte\<close> are both sequences of bytes; Isabelle's \<open>char\<close> is a byte,
  so both are \<open>char list\<close>. Go's \<open>int\<close> and \<open>int64\<close> are two's complement 64-bit integers
  on the platforms the worker builds for: they are mathematical integers with
  \<open>wrap64\<close> applied wherever an operation of the source can leave the range.
\<close>

named_theorems go_simps \<open>equations of the Go standard-library helpers\<close>
named_theorems frame_simps \<open>what an operation leaves unchanged\<close>

type_synonym bytes = string

section \<open>64-bit signed integers\<close>

definition wrap64 :: "int \<Rightarrow> int" where
  "wrap64 x = (x + 2 ^ 63) mod 2 ^ 64 - 2 ^ 63"

definition int64_range :: "int \<Rightarrow> bool" where
  "int64_range x \<longleftrightarrow> - (2 ^ 63) \<le> x \<and> x < 2 ^ 63"

text \<open>Go's integer division truncates towards zero.\<close>

definition quot :: "int \<Rightarrow> int \<Rightarrow> int" where
  "quot a b = sgn a * sgn b * (\<bar>a\<bar> div \<bar>b\<bar>)"

lemma wrap64_range: "int64_range (wrap64 x)"
proof -
  have "0 \<le> (x + 2 ^ 63) mod 2 ^ 64" and "(x + 2 ^ 63) mod 2 ^ 64 < (2 ^ 64 :: int)"
    by simp_all
  then show ?thesis by (simp add: int64_range_def wrap64_def)
qed

lemma wrap64_id [go_simps]: "int64_range x \<Longrightarrow> wrap64 x = x"
  by (simp add: int64_range_def wrap64_def)

lemma wrap64_idem [simp]: "wrap64 (wrap64 x) = wrap64 x"
  by (rule wrap64_id) (rule wrap64_range)

lemma wrap64_small [go_simps]: "0 \<le> x \<Longrightarrow> x < 2 ^ 63 \<Longrightarrow> wrap64 x = x"
  by (simp add: wrap64_id int64_range_def)

lemma wrap64_above: "2 ^ 63 \<le> x \<Longrightarrow> x < 3 * 2 ^ 63 \<Longrightarrow> wrap64 x = x - 2 ^ 64"
proof -
  assume "2 ^ 63 \<le> x" "x < 3 * 2 ^ 63"
  then have "(x + 2 ^ 63 - 2 ^ 64) mod 2 ^ 64 = x + 2 ^ 63 - 2 ^ 64" by (intro mod_pos_pos_trivial) simp_all
  then have "(x + 2 ^ 63) mod 2 ^ 64 = x + 2 ^ 63 - 2 ^ 64" by (simp only: minus_mod_self2)
  then show ?thesis by (simp add: wrap64_def)
qed

lemma wrap64_add [simp]: "wrap64 (wrap64 a + b) = wrap64 (a + b)"
  by (simp add: wrap64_def algebra_simps mod_simps)

lemma wrap64_mult [simp]: "wrap64 (wrap64 a * b) = wrap64 (a * b)"
proof -
  have "(wrap64 a * b) mod 2 ^ 64 = (a * b) mod 2 ^ 64"
    unfolding wrap64_def
    by (metis (no_types, opaque_lifting) add_diff_cancel_right' mod_diff_left_eq mod_mult_left_eq)
  then have "(wrap64 a * b + 2 ^ 63) mod 2 ^ 64 = (a * b + 2 ^ 63) mod 2 ^ 64"
    by (metis mod_add_left_eq)
  then show ?thesis by (simp add: wrap64_def)
qed

lemma quot_nonneg [go_simps]: "0 \<le> a \<Longrightarrow> 0 < b \<Longrightarrow> quot a b = a div b"
  by (cases "a = 0") (simp_all add: quot_def)

text \<open>Rounding a quotient up by adding the divisor minus one.\<close>

definition ceil_div :: "int \<Rightarrow> int \<Rightarrow> int" where
  "ceil_div a b = - ((- a) div b)"

lemma ceil_div_bounds:
  assumes "0 < b"
  shows "a \<le> ceil_div a b * b" and "ceil_div a b * b < a + b"
proof -
  have eq: "(- a) div b * b = - a - (- a) mod b" by (simp add: minus_mod_eq_div_mult)
  have "0 \<le> (- a) mod b" and "(- a) mod b < b" using assms by simp_all
  with eq show "a \<le> ceil_div a b * b" and "ceil_div a b * b < a + b"
    unfolding ceil_div_def mult_minus_left by linarith+
qed

lemma ceil_div_unique:
  assumes "0 < b" and "a \<le> q * b" and "q * b < a + b"
  shows "q = ceil_div a b"
proof -
  note c = ceil_div_bounds [OF assms(1), of a]
  have "q * b < (ceil_div a b + 1) * b" using assms c by (simp add: distrib_right)
  moreover have "ceil_div a b * b < (q + 1) * b" using assms c by (simp add: distrib_right)
  ultimately have "q < ceil_div a b + 1" and "ceil_div a b < q + 1"
    using assms(1) by (simp_all only: mult_less_cancel_right_pos)
  then show ?thesis by simp
qed

lemma ceil_div_alt: "0 < b \<Longrightarrow> (a + (b - 1)) div b = ceil_div a b" for a b :: int
proof (rule ceil_div_unique)
  assume b: "0 < b"
  have eq: "(a + (b - 1)) div b * b = a + (b - 1) - (a + (b - 1)) mod b"
    by (simp only: minus_mod_eq_div_mult)
  have m: "0 \<le> (a + (b - 1)) mod b" "(a + (b - 1)) mod b < b" using b by simp_all
  show "a \<le> (a + (b - 1)) div b * b" and "(a + (b - 1)) div b * b < a + b"
    using eq m by linarith+
qed

section \<open>Errors\<close>

text \<open>
  An error value carries its message (\<open>err.Error()\<close>), the sentinels that
  \<open>errors.Is\<close> finds along its chain and the gRPC status code that \<open>status.Code\<close>
  extracts from it; \<open>fmt.Errorf("prefix: %w", err)\<close> prepends to the message and keeps
  the chain.
\<close>

datatype Sentinel = Canceled | DeadlineExceeded | ServerClosed

datatype Code = CodeInvalidArgument | CodeUnavailable | CodeDeadlineExceeded | CodeOther nat

record Err =
  emsg :: string
  eis :: "Sentinel list"
  ecode :: Code

definition errorsNew :: "string \<Rightarrow> Err" where
  "errorsNew m = \<lparr>emsg = m, eis = [], ecode = CodeOther 2\<rparr>"

definition wrapf :: "string \<Rightarrow> Err \<Rightarrow> Err" where
  "wrapf p e = e\<lparr>emsg := p @ emsg e\<rparr>"

definition errorsIs :: "Err \<Rightarrow> Sentinel \<Rightarrow> bool" where
  "errorsIs e s \<longleftrightarrow> s \<in> set (eis e)"

lemma errorsIs_wrapf [simp]: "errorsIs (wrapf p e) s = errorsIs e s"
  by (simp add: errorsIs_def wrapf_def)

lemma ecode_wrapf [simp]: "ecode (wrapf p e) = ecode e"
  by (simp add: wrapf_def)

section \<open>Lists\<close>

definition hasPrefix :: "string \<Rightarrow> string \<Rightarrow> bool" where
  "hasPrefix p s \<longleftrightarrow> take (length p) s = p"

lemma hasPrefix_append [simp]: "hasPrefix p (p @ s)"
  by (simp add: hasPrefix_def)

lemma hasPrefix_iff: "hasPrefix p s \<longleftrightarrow> (\<exists>t. s = p @ t)"
  unfolding hasPrefix_def by (metis append_take_drop_id append_eq_conv_conj)

definition trimRight :: "string \<Rightarrow> string \<Rightarrow> string" where
  "trimRight cutset s = rev (dropWhile (\<lambda>c. c \<in> set cutset) (rev s))"

lemma trimRight_last: "trimRight cs s \<noteq> [] \<Longrightarrow> last (trimRight cs s) \<notin> set cs"
proof -
  assume "trimRight cs s \<noteq> []"
  then have ne: "dropWhile (\<lambda>c. c \<in> set cs) (rev s) \<noteq> []" by (simp add: trimRight_def)
  then have "hd (dropWhile (\<lambda>c. c \<in> set cs) (rev s)) \<notin> set cs" by (rule hd_dropWhile)
  with ne show ?thesis by (simp add: trimRight_def last_rev)
qed

lemma trimRight_id: "s = [] \<or> last s \<notin> set cs \<Longrightarrow> trimRight cs s = s"
  by (cases s rule: rev_cases) (auto simp: trimRight_def)

fun containsStr :: "string \<Rightarrow> string \<Rightarrow> bool" where
  "containsStr p [] = (p = [])"
| "containsStr p (c # cs) = (hasPrefix p (c # cs) \<or> containsStr p cs)"

text \<open>\<open>strings.Split\<close> on a one-byte separator.\<close>

fun splitOn :: "char \<Rightarrow> string \<Rightarrow> string list" where
  "splitOn d [] = [[]]"
| "splitOn d (c # cs) =
     (if c = d then [] # splitOn d cs
      else (case splitOn d cs of [] \<Rightarrow> [[c]] | w # ws \<Rightarrow> (c # w) # ws))"

lemma splitOn_nonempty [simp]: "splitOn d s \<noteq> []"
  by (cases s) (auto split: list.splits)

lemma splitOn_no_sep: "d \<notin> set s \<Longrightarrow> splitOn d s = [s]"
  by (induction s) auto

lemma splitOn_append: "d \<notin> set a \<Longrightarrow> splitOn d (a @ d # b) = a # splitOn d b"
  by (induction a) auto

text \<open>A check that is followed by another one passes when both pass.\<close>

lemma first_error_None [simp]: "(case x of None \<Rightarrow> y | Some e \<Rightarrow> Some e) = None \<longleftrightarrow> x = None \<and> y = None"
  by (cases x) simp_all

lemma filter_map_option_Nil:
  "(\<forall>x\<in>set xs. f x = None) \<Longrightarrow> List.map_filter f xs = []"
  by (induction xs) (auto simp: List.map_filter_simps)

end
