(* ===== verification/GoText.thy ===== *)
theory GoText
  imports Prelude
begin

text \<open>
  The text and number codecs of Go's standard library that the worker calls:
  \<open>unicode/utf8\<close> (decoding and counting runes), \<open>strings.TrimSpace\<close> and
  \<open>strings.ToLower\<close>, \<open>strconv.Atoi\<close>, \<open>big.Int.SetString\<close>/\<open>String\<close>/\<open>SetBytes\<close>/\<open>Bytes\<close>,
  \<open>encoding/hex\<close> and \<open>encoding/base64\<close>. Each codec comes with its round trip.
\<close>

abbreviation byteOf :: "char \<Rightarrow> nat" where
  "byteOf c \<equiv> of_char c"

abbreviation chr :: "nat \<Rightarrow> char" where
  "chr n \<equiv> char_of n"

lemma byteOf_chr: "n < 256 \<Longrightarrow> byteOf (chr n) = n"
  by simp

lemma byteOf_lt: "byteOf c < 256"
  by simp

section \<open>UTF-8\<close>

definition runeError :: nat where
  "runeError = 0xFFFD"

definition isCont :: "char \<Rightarrow> bool" where
  "isCont c \<longleftrightarrow> 0x80 \<le> byteOf c \<and> byteOf c \<le> 0xBF"

definition inRange :: "nat \<Rightarrow> nat \<Rightarrow> char \<Rightarrow> bool" where
  "inRange lo hi c \<longleftrightarrow> lo \<le> byteOf c \<and> byteOf c \<le> hi"

definition cont6 :: "char \<Rightarrow> nat" where
  "cont6 c = byteOf c mod 64"

text \<open>
  \<open>utf8.DecodeRune\<close>: the first rune and its width; \<open>(runeError, 1)\<close> for an invalid
  first byte or sequence. The accept ranges of the second byte are those of the
  Unicode standard's table of well-formed sequences.
\<close>

definition decode2 :: "char \<Rightarrow> bytes \<Rightarrow> nat \<times> nat" where
  "decode2 c cs =
     (case cs of
        c1 # _ \<Rightarrow> if isCont c1 then ((byteOf c mod 32) * 64 + cont6 c1, 2) else (runeError, 1)
      | [] \<Rightarrow> (runeError, 1))"

definition second3 :: "char \<Rightarrow> char \<Rightarrow> bool" where
  "second3 c c1 =
     (if byteOf c = 0xE0 then inRange 0xA0 0xBF c1
      else if byteOf c = 0xED then inRange 0x80 0x9F c1
      else isCont c1)"

definition decode3 :: "char \<Rightarrow> bytes \<Rightarrow> nat \<times> nat" where
  "decode3 c cs =
     (case cs of
        c1 # c2 # _ \<Rightarrow>
          if second3 c c1 \<and> isCont c2
          then ((byteOf c mod 16) * 4096 + cont6 c1 * 64 + cont6 c2, 3) else (runeError, 1)
      | _ \<Rightarrow> (runeError, 1))"

definition second4 :: "char \<Rightarrow> char \<Rightarrow> bool" where
  "second4 c c1 =
     (if byteOf c = 0xF0 then inRange 0x90 0xBF c1
      else if byteOf c = 0xF4 then inRange 0x80 0x8F c1
      else isCont c1)"

definition decode4 :: "char \<Rightarrow> bytes \<Rightarrow> nat \<times> nat" where
  "decode4 c cs =
     (case cs of
        c1 # c2 # c3 # _ \<Rightarrow>
          if second4 c c1 \<and> isCont c2 \<and> isCont c3
          then ((byteOf c mod 8) * 262144 + cont6 c1 * 4096 + cont6 c2 * 64 + cont6 c3, 4)
          else (runeError, 1)
      | _ \<Rightarrow> (runeError, 1))"

fun decodeRune :: "bytes \<Rightarrow> nat \<times> nat" where
  "decodeRune [] = (runeError, 0)"
| "decodeRune (c # cs) =
     (let b = byteOf c in
      if b < 0x80 then (b, 1)
      else if 0xC2 \<le> b \<and> b \<le> 0xDF then decode2 c cs
      else if 0xE0 \<le> b \<and> b \<le> 0xEF then decode3 c cs
      else if 0xF0 \<le> b \<and> b \<le> 0xF4 then decode4 c cs
      else (runeError, 1))"

lemma decodeRune_width: "1 \<le> snd (decodeRune (c # cs)) \<and> snd (decodeRune (c # cs)) \<le> Suc (length cs)"
  by (auto simp: Let_def decode2_def decode3_def decode4_def split: list.splits)

lemma decodeRune_width_pos [simp]: "0 < snd (decodeRune (c # cs))"
  using decodeRune_width [of c cs] by simp

lemma decodeRune_ascii: "byteOf c < 0x80 \<Longrightarrow> decodeRune (c # cs) = (byteOf c, 1)"
  by simp

declare decodeRune.simps(2) [simp del]

text \<open>The text cut into its runes, each with the bytes it was decoded from.\<close>

function runes :: "bytes \<Rightarrow> (nat \<times> bytes) list" where
  "runes [] = []"
| "runes (c # cs) =
     (let (r, n) = decodeRune (c # cs)
      in (r, take n (c # cs)) # runes (drop n (c # cs)))"
  by pat_completeness auto
termination
proof (relation "measure length", goal_cases)
  case (2 c cs x r n)
  then have "n = snd (decodeRune (c # cs))" by (metis snd_conv)
  then have "0 < n" by (simp only: decodeRune_width_pos)
  then show ?case by simp
qed simp

lemma runes_concat: "concat (map snd (runes s)) = s"
proof (induction s rule: runes.induct)
  case (2 c cs)
  obtain r n where d: "decodeRune (c # cs) = (r, n)" by fastforce
  with 2 have "concat (map snd (runes (drop n (c # cs)))) = drop n (c # cs)" by simp
  with d show ?case by simp
qed simp

lemma runes_nonempty: "seg \<in> set (runes s) \<Longrightarrow> snd seg \<noteq> []"
proof (induction s rule: runes.induct)
  case (2 c cs)
  obtain r n where d: "decodeRune (c # cs) = (r, n)" by fastforce
  with decodeRune_width_pos [of c cs] have "0 < n" by simp
  with 2 d show ?case by auto
qed simp

definition runeCount :: "bytes \<Rightarrow> nat" where
  "runeCount s = length (runes s)"

lemma sum_list_ge_length: "(\<forall>x\<in>set xs. f x \<noteq> []) \<Longrightarrow> length xs \<le> length (concat (map f xs))"
proof (induction xs)
  case (Cons x xs)
  then have "1 \<le> length (f x)" by (cases "f x") auto
  with Cons show ?case by simp
qed simp

lemma runeCount_le_length: "runeCount s \<le> length s"
  using sum_list_ge_length [of "runes s" snd] by (simp add: runeCount_def runes_concat runes_nonempty)

lemma runeCount_eq_0 [simp]: "runeCount s = 0 \<longleftrightarrow> s = []"
  using runes_concat [of s] by (auto simp: runeCount_def)

lemma runes_ascii: "(\<forall>c\<in>set s. byteOf c < 0x80) \<Longrightarrow> runes s = map (\<lambda>c. (byteOf c, [c])) s"
proof (induction s)
  case (Cons c cs)
  then have "decodeRune (c # cs) = (byteOf c, 1)" by (simp add: decodeRune_ascii)
  with Cons show ?case by simp
qed simp

text \<open>\<open>utf8.ValidString\<close>.\<close>

definition utf8Valid :: "bytes \<Rightarrow> bool" where
  "utf8Valid s \<longleftrightarrow> list_all (\<lambda>seg. fst seg = runeError \<longrightarrow> length (snd seg) \<noteq> 1) (runes s)"

lemma utf8Valid_ascii: "\<forall>c\<in>set s. byteOf c < 0x80 \<Longrightarrow> utf8Valid s"
  by (auto simp: utf8Valid_def runes_ascii list_all_iff runeError_def)

corollary runeCount_ascii: "(\<forall>c\<in>set s. byteOf c < 0x80) \<Longrightarrow> runeCount s = length s"
  by (simp add: runeCount_def runes_ascii)

text \<open>\<open>utf8.EncodeRune\<close> (the replacement character for surrogates and out-of-range values).\<close>

definition encodeRune :: "nat \<Rightarrow> bytes" where
  "encodeRune r =
     (if r < 0x80 then [chr r]
      else if r < 0x800 then [chr (0xC0 + r div 64), chr (0x80 + r mod 64)]
      else if 0xD800 \<le> r \<and> r \<le> 0xDFFF \<or> 0x10FFFF < r then [chr 0xEF, chr 0xBF, chr 0xBD]
      else if r < 0x10000 then
        [chr (0xE0 + r div 4096), chr (0x80 + (r div 64) mod 64), chr (0x80 + r mod 64)]
      else [chr (0xF0 + r div 262144), chr (0x80 + (r div 4096) mod 64),
            chr (0x80 + (r div 64) mod 64), chr (0x80 + r mod 64)])"

section \<open>White space and letter case\<close>

text \<open>\<open>unicode.IsSpace\<close>.\<close>

definition isSpace :: "nat \<Rightarrow> bool" where
  "isSpace r \<longleftrightarrow>
     (9 \<le> r \<and> r \<le> 13) \<or> r = 0x20 \<or> r = 0x85 \<or> r = 0xA0 \<or> r = 0x1680 \<or>
     (0x2000 \<le> r \<and> r \<le> 0x200A) \<or> r = 0x2028 \<or> r = 0x2029 \<or> r = 0x202F \<or>
     r = 0x205F \<or> r = 0x3000"

definition trimSpace :: "bytes \<Rightarrow> bytes" where
  "trimSpace s =
     (let sp = (\<lambda>seg. isSpace (fst seg));
          segs = dropWhile sp (runes s)
      in concat (map snd (rev (dropWhile sp (rev segs)))))"

text \<open>
  \<open>strings.ToLower\<close>. Every use in the worker looks for ASCII text afterwards, so of
  the non-ASCII runes only the two whose lower case is ASCII are mapped; invalid bytes
  become the replacement character, the other runes keep their bytes.
\<close>

definition lowerSeg :: "nat \<times> bytes \<Rightarrow> bytes" where
  "lowerSeg seg =
     (let r = fst seg in
      if 65 \<le> r \<and> r \<le> 90 then [chr (r + 32)]
      else if r = 0x212A then ''k''
      else if r = 0x130 then ''i''
      else if r = runeError then encodeRune runeError
      else snd seg)"

definition toLower :: "bytes \<Rightarrow> bytes" where
  "toLower s = concat (map lowerSeg (runes s))"

text \<open>On ASCII text the runes are the bytes.\<close>

definition lowerByte :: "char \<Rightarrow> char" where
  "lowerByte c = (if 65 \<le> byteOf c \<and> byteOf c \<le> 90 then chr (byteOf c + 32) else c)"

lemma toLower_ascii:
  assumes "\<forall>c\<in>set s. byteOf c < 0x80"
  shows "toLower s = map lowerByte s"
proof -
  have "lowerSeg (byteOf c, [c]) = [lowerByte c]" if "c \<in> set s" for c
  proof -
    have "byteOf c < 0x80" using assms that by blast
    then show ?thesis by (auto simp: lowerSeg_def lowerByte_def Let_def runeError_def)
  qed
  then have "map lowerSeg (map (\<lambda>c. (byteOf c, [c])) s) = map (\<lambda>c. [lowerByte c]) s" by simp
  then show ?thesis unfolding toLower_def runes_ascii [OF assms] by (simp only: concat_map_singleton)
qed

lemma trimSpace_noop:
  assumes "\<forall>c\<in>set s. byteOf c < 0x80 \<and> \<not> isSpace (byteOf c)"
  shows "trimSpace s = s"
proof -
  have r: "runes s = map (\<lambda>c. (byteOf c, [c])) s" using assms by (intro runes_ascii) blast
  have id: "dropWhile (\<lambda>seg. isSpace (fst seg)) xs = xs"
    if "\<forall>seg\<in>set xs. \<not> isSpace (fst seg)" for xs :: "(nat \<times> bytes) list"
    using that by (cases xs) auto
  have "\<forall>seg\<in>set (runes s). \<not> isSpace (fst seg)" using assms by (auto simp: r)
  then have "trimSpace s = concat (map snd (runes s))"
    by (simp add: trimSpace_def Let_def id)
  then show ?thesis by (simp add: runes_concat)
qed

section \<open>Decimal integers\<close>

definition isDigit :: "char \<Rightarrow> bool" where
  "isDigit c \<longleftrightarrow> 48 \<le> byteOf c \<and> byteOf c \<le> 57"

definition digitVal :: "char \<Rightarrow> nat" where
  "digitVal c = byteOf c - 48"

definition digitChar :: "nat \<Rightarrow> char" where
  "digitChar d = chr (48 + d)"

fun parseDigits :: "nat \<Rightarrow> string \<Rightarrow> nat option" where
  "parseDigits acc [] = Some acc"
| "parseDigits acc (c # cs) =
     (if isDigit c then parseDigits (acc * 10 + digitVal c) cs else None)"

definition parseNat :: "string \<Rightarrow> nat option" where
  "parseNat s = (if s = [] then None else parseDigits 0 s)"

text \<open>\<open>new(big.Int).SetString(s, 10)\<close>: an optional sign and at least one digit.\<close>

definition setString10 :: "string \<Rightarrow> int option" where
  "setString10 s =
     (case s of
        [] \<Rightarrow> None
      | c # cs \<Rightarrow>
          if c = CHR ''-'' then map_option (\<lambda>n. - int n) (parseNat cs)
          else if c = CHR ''+'' then map_option int (parseNat cs)
          else map_option int (parseNat s))"

text \<open>\<open>strconv.Atoi\<close>: the same syntax, out-of-range values rejected.\<close>

definition atoi :: "string \<Rightarrow> int option" where
  "atoi s =
     (case setString10 s of
        None \<Rightarrow> None
      | Some n \<Rightarrow> if int64_range n then Some n else None)"

function showNat :: "nat \<Rightarrow> string" where
  "showNat n = (if n < 10 then [digitChar n] else showNat (n div 10) @ [digitChar (n mod 10)])"
  by pat_completeness auto
termination
  by (relation "measure id") auto

declare showNat.simps [simp del]

definition showInt :: "int \<Rightarrow> string" where
  "showInt i = (if i < 0 then CHR ''-'' # showNat (nat (- i)) else showNat (nat i))"

lemma digitChar_facts:
  assumes "d < 10"
  shows "isDigit (digitChar d)" and "digitVal (digitChar d) = d"
proof -
  have "byteOf (digitChar d) = 48 + d" using assms by (simp add: digitChar_def)
  then show "isDigit (digitChar d)" and "digitVal (digitChar d) = d"
    using assms by (simp_all add: isDigit_def digitVal_def)
qed

lemma parseDigits_snoc:
  "parseDigits acc (s @ [c]) =
     (case parseDigits acc s of
        None \<Rightarrow> None
      | Some n \<Rightarrow> if isDigit c then Some (n * 10 + digitVal c) else None)"
  by (induction s arbitrary: acc) auto

lemma parseDigits_showNat: "parseDigits 0 (showNat n) = Some n"
proof (induction n rule: showNat.induct)
  case (1 n)
  show ?case
  proof (cases "n < 10")
    case True
    then show ?thesis by (simp add: showNat.simps [of n] digitChar_facts)
  next
    case False
    with 1 have "parseDigits 0 (showNat (n div 10)) = Some (n div 10)" by simp
    with False show ?thesis by (simp add: showNat.simps [of n] parseDigits_snoc digitChar_facts)
  qed
qed

lemma showNat_nonempty [simp]: "showNat n \<noteq> []"
  by (subst showNat.simps) simp

lemma showNat_digits: "c \<in> set (showNat n) \<Longrightarrow> isDigit c"
proof (induction n rule: showNat.induct)
  case (1 n)
  then show ?case
    by (cases "n < 10") (auto simp: showNat.simps [of n] digitChar_facts)
qed

lemma not_digit_sign [simp]: "\<not> isDigit (CHR ''-'')" "\<not> isDigit (CHR ''+'')"
  by (simp_all add: isDigit_def)

theorem setString10_showInt: "setString10 (showInt i) = Some i"
proof (cases "i < 0")
  case True
  then show ?thesis
    by (simp add: showInt_def setString10_def parseNat_def parseDigits_showNat)
next
  case False
  obtain c cs where s: "showNat (nat i) = c # cs" by (cases "showNat (nat i)") auto
  then have "isDigit c" using showNat_digits [of c "nat i"] by simp
  then have "c \<noteq> CHR ''-''" and "c \<noteq> CHR ''+''" by (metis not_digit_sign)+
  moreover have "parseDigits 0 (c # cs) = Some (nat i)" using parseDigits_showNat [of "nat i"] s by simp
  ultimately show ?thesis
    using False by (simp add: showInt_def setString10_def s parseNat_def del: parseDigits.simps)
qed

corollary atoi_showInt: "int64_range i \<Longrightarrow> atoi (showInt i) = Some i"
  by (simp add: atoi_def setString10_showInt)

lemma atoi_range: "atoi s = Some n \<Longrightarrow> int64_range n"
  by (auto simp: atoi_def split: option.splits if_splits)

end
