(* ===== verification/GoCodec.thy ===== *)
theory GoCodec
  imports GoText
begin

text \<open>
  Byte codecs of Go's standard library: \<open>encoding/hex\<close>, \<open>encoding/base64\<close>
  (\<open>StdEncoding\<close>), the big-endian bytes of \<open>math/big\<close>, and \<open>crypto/sha256\<close>. The
  encoders are here because the worker uses them and because the decoders are
  characterised by their round trips.
\<close>

unbundle bit_operations_syntax

section \<open>Hexadecimal\<close>

definition hexDigit :: "nat \<Rightarrow> char" where
  "hexDigit n = (if n < 10 then chr (48 + n) else chr (87 + n))"

definition unhex :: "char \<Rightarrow> nat option" where
  "unhex c =
     (let b = byteOf c in
      if 48 \<le> b \<and> b \<le> 57 then Some (b - 48)
      else if 97 \<le> b \<and> b \<le> 102 then Some (b - 87)
      else if 65 \<le> b \<and> b \<le> 70 then Some (b - 55)
      else None)"

definition hexEncode :: "bytes \<Rightarrow> string" where
  "hexEncode bs = concat (map (\<lambda>b. [hexDigit (byteOf b div 16), hexDigit (byteOf b mod 16)]) bs)"

fun hexDecode :: "string \<Rightarrow> bytes option" where
  "hexDecode [] = Some []"
| "hexDecode [c] = None"
| "hexDecode (a # b # cs) =
     (case (unhex a, unhex b) of
        (Some x, Some y) \<Rightarrow> map_option (\<lambda>r. chr (16 * x + y) # r) (hexDecode cs)
      | _ \<Rightarrow> None)"

lemma unhex_hexDigit: "n < 16 \<Longrightarrow> unhex (hexDigit n) = Some n"
proof -
  assume n: "n < 16"
  show ?thesis
  proof (cases "n < 10")
    case True
    then have "byteOf (hexDigit n) = 48 + n" by (simp add: hexDigit_def)
    with True show ?thesis by (simp add: unhex_def)
  next
    case False
    with n have "byteOf (hexDigit n) = 87 + n" by (simp add: hexDigit_def)
    with False n show ?thesis by (simp add: unhex_def)
  qed
qed

lemma hexEncode_Nil [simp]: "hexEncode [] = []"
  by (simp add: hexEncode_def)

lemma hexEncode_Cons:
  "hexEncode (b # bs) = hexDigit (byteOf b div 16) # hexDigit (byteOf b mod 16) # hexEncode bs"
  by (simp add: hexEncode_def)

lemma length_hexEncode [simp]: "length (hexEncode bs) = 2 * length bs"
  by (induction bs) (simp_all add: hexEncode_Cons)

theorem hexDecode_hexEncode: "hexDecode (hexEncode bs) = Some bs"
proof (induction bs)
  case (Cons b bs)
  have "byteOf b div 16 < 16" using byteOf_lt [of b] by (simp add: less_mult_imp_div_less)
  then have "unhex (hexDigit (byteOf b div 16)) = Some (byteOf b div 16)" by (rule unhex_hexDigit)
  moreover have "unhex (hexDigit (byteOf b mod 16)) = Some (byteOf b mod 16)"
    by (simp add: unhex_hexDigit)
  ultimately show ?case using Cons by (simp add: hexEncode_Cons)
qed simp

lemma hexDecode_length: "hexDecode s = Some bs \<Longrightarrow> length s = 2 * length bs"
  by (induction s arbitrary: bs rule: hexDecode.induct) (auto split: option.splits)

section \<open>Base64\<close>

definition b64Char :: "nat \<Rightarrow> char" where
  "b64Char n =
     (if n < 26 then chr (65 + n)
      else if n < 52 then chr (71 + n)
      else if n < 62 then chr (n - 4)
      else if n = 62 then CHR ''+'' else CHR ''/'')"

definition unb64 :: "char \<Rightarrow> nat option" where
  "unb64 c =
     (let b = byteOf c in
      if 65 \<le> b \<and> b \<le> 90 then Some (b - 65)
      else if 97 \<le> b \<and> b \<le> 122 then Some (b - 71)
      else if 48 \<le> b \<and> b \<le> 57 then Some (b + 4)
      else if b = 43 then Some 62 else if b = 47 then Some 63 else None)"

fun b64Encode :: "bytes \<Rightarrow> string" where
  "b64Encode [] = []"
| "b64Encode [a] =
     [b64Char (byteOf a div 4), b64Char ((byteOf a mod 4) * 16), CHR ''='', CHR ''='']"
| "b64Encode [a, b] =
     [b64Char (byteOf a div 4), b64Char ((byteOf a mod 4) * 16 + byteOf b div 16),
      b64Char ((byteOf b mod 16) * 4), CHR ''='']"
| "b64Encode (a # b # c # cs) =
     [b64Char (byteOf a div 4), b64Char ((byteOf a mod 4) * 16 + byteOf b div 16),
      b64Char ((byteOf b mod 16) * 4 + byteOf c div 64), b64Char (byteOf c mod 64)]
     @ b64Encode cs"

text \<open>
  \<open>StdEncoding.DecodeString\<close>: line breaks are skipped, then groups of four symbols;
  padding may only end the text, and the unused bits of a padded group are ignored.
\<close>

fun b64Quads :: "string \<Rightarrow> bytes option" where
  "b64Quads [] = Some []"
| "b64Quads (a # b # c # d # cs) =
     (case (unb64 a, unb64 b) of
        (Some x, Some y) \<Rightarrow>
          if c = CHR ''='' then
            (if d = CHR ''='' \<and> cs = [] then Some [chr (4 * x + y div 16)] else None)
          else
            (case unb64 c of
               None \<Rightarrow> None
             | Some z \<Rightarrow>
                 if d = CHR ''='' then
                   (if cs = [] then Some [chr (4 * x + y div 16), chr ((y mod 16) * 16 + z div 4)]
                    else None)
                 else
                   (case unb64 d of
                      None \<Rightarrow> None
                    | Some t \<Rightarrow>
                        map_option
                          (\<lambda>r. [chr (4 * x + y div 16), chr ((y mod 16) * 16 + z div 4),
                                chr ((z mod 4) * 64 + t)] @ r)
                          (b64Quads cs)))
      | _ \<Rightarrow> None)"
| "b64Quads s = None"

definition b64Decode :: "string \<Rightarrow> bytes option" where
  "b64Decode s = b64Quads (filter (\<lambda>c. c \<noteq> chr 10 \<and> c \<noteq> chr 13) s)"

lemma unb64_b64Char: "n < 64 \<Longrightarrow> unb64 (b64Char n) = Some n"
proof -
  assume n: "n < 64"
  consider "n < 26" | "26 \<le> n" "n < 52" | "52 \<le> n" "n < 62" | "n = 62" | "n = 63"
    using n by linarith
  then show ?thesis
  proof cases
    case 1
    then have "byteOf (b64Char n) = 65 + n" by (simp add: b64Char_def)
    with 1 show ?thesis by (simp add: unb64_def)
  next
    case 2
    then have "byteOf (b64Char n) = 71 + n" by (simp add: b64Char_def)
    with 2 show ?thesis by (simp add: unb64_def)
  next
    case 3
    then have "byteOf (b64Char n) = n - 4" by (simp add: b64Char_def)
    with 3 show ?thesis by (auto simp: unb64_def Let_def)
  qed (simp_all add: b64Char_def unb64_def)
qed

lemma b64Char_ordinary:
  assumes "n < 64"
  shows "b64Char n \<noteq> CHR ''=''" and "b64Char n \<noteq> chr 10" and "b64Char n \<noteq> chr 13"
proof -
  have "unb64 (CHR ''='') = None" "unb64 (chr 10) = None" "unb64 (chr 13) = None"
    by (simp_all add: unb64_def)
  with unb64_b64Char [OF assms]
  show "b64Char n \<noteq> CHR ''=''" and "b64Char n \<noteq> chr 10" and "b64Char n \<noteq> chr 13"
    by (metis option.distinct(1))+
qed

text \<open>A group of two neighbouring bytes cut at a bit boundary.\<close>

lemma split_lt:
  assumes "x < 256"
  shows "x div 4 < (64::nat)" and "x div 16 < 16" and "x div 64 < 4"
  using assms by (simp_all add: less_mult_imp_div_less)

lemma join_hi:
  assumes "b < 256"
  shows "a mod 4 * 16 + b div 16 < (64::nat)"
    and "(a mod 4 * 16 + b div 16) div 16 = a mod 4"
    and "(a mod 4 * 16 + b div 16) mod 16 = b div 16"
proof -
  have "a mod 4 < 4" and lt: "b div 16 < 16" using assms by (simp_all add: less_mult_imp_div_less)
  then show "a mod 4 * 16 + b div 16 < 64" by simp
  show "(a mod 4 * 16 + b div 16) div 16 = a mod 4" and "(a mod 4 * 16 + b div 16) mod 16 = b div 16"
    using lt by simp_all
qed

lemma join_lo:
  assumes "c < 256"
  shows "b mod 16 * 4 + c div 64 < (64::nat)"
    and "(b mod 16 * 4 + c div 64) div 4 = b mod 16"
    and "(b mod 16 * 4 + c div 64) mod 4 = c div 64"
proof -
  have "b mod 16 < 16" and lt: "c div 64 < 4" using assms by (simp_all add: less_mult_imp_div_less)
  then show "b mod 16 * 4 + c div 64 < 64" by simp
  show "(b mod 16 * 4 + c div 64) div 4 = b mod 16" and "(b mod 16 * 4 + c div 64) mod 4 = c div 64"
    using lt by simp_all
qed

lemma join_hi0: "a mod 4 * 16 < (64::nat)" and join_lo0: "b mod 16 * 4 < (64::nat)"
  using mod_less_divisor [of 4 a] mod_less_divisor [of 16 b] by simp_all

lemmas b64_join = split_lt [OF byteOf_lt] join_hi [OF byteOf_lt] join_lo [OF byteOf_lt] join_hi0 join_lo0

lemma b64Char_symbol: "n < 64 \<Longrightarrow> \<exists>m<64. b64Char n = b64Char m"
  by blast

lemma b64Encode_symbols:
  "c \<in> set (b64Encode s) \<Longrightarrow> c = CHR ''='' \<or> (\<exists>n<64. c = b64Char n)"
proof (induction s rule: b64Encode.induct)
  case (2 a)
  then show ?case
    using b64Char_symbol [OF split_lt(1) [OF byteOf_lt [of a]]] b64Char_symbol [OF join_hi0 [of "byteOf a"]]
    by auto
next
  case (3 a b)
  then show ?case
    using b64Char_symbol [OF split_lt(1) [OF byteOf_lt [of a]]] b64Char_symbol [OF join_lo0 [of "byteOf b"]]
      b64Char_symbol [OF join_hi(1) [OF byteOf_lt [of b], of "byteOf a"]]
    by auto
next
  case (4 a b c' cs)
  then show ?case
    using b64Char_symbol [OF split_lt(1) [OF byteOf_lt [of a]]] b64Char_symbol [of "byteOf c' mod 64"]
      b64Char_symbol [OF join_hi(1) [OF byteOf_lt [of b], of "byteOf a"]]
      b64Char_symbol [OF join_lo(1) [OF byteOf_lt [of c'], of "byteOf b"]]
    by auto
qed simp

lemma b64Encode_no_breaks:
  "filter (\<lambda>c. c \<noteq> chr 10 \<and> c \<noteq> chr 13) (b64Encode s) = b64Encode s"
proof (rule filter_True, rule ballI)
  fix c
  assume "c \<in> set (b64Encode s)"
  then consider "c = CHR ''=''" | n where "n < 64" "c = b64Char n"
    using b64Encode_symbols by blast
  then show "c \<noteq> chr 10 \<and> c \<noteq> chr 13"
  proof cases
    case 1
    then have "byteOf c = 61" by simp
    then show ?thesis by auto
  qed (simp add: b64Char_ordinary)
qed

lemma b64Quads_b64Encode: "b64Quads (b64Encode s) = Some s"
proof (induction s rule: b64Encode.induct)
  case (4 a b c cs)
  have "byteOf c mod 64 < 64" by simp
  with 4 show ?case
    by (simp add: unb64_b64Char b64Char_ordinary b64_join)
qed (simp_all add: unb64_b64Char b64Char_ordinary b64_join)

theorem b64Decode_b64Encode: "b64Decode (b64Encode s) = Some s"
  by (simp add: b64Decode_def b64Encode_no_breaks b64Quads_b64Encode)

section \<open>Big-endian bytes\<close>

text \<open>\<open>big.Int.SetBytes\<close> reads an unsigned big-endian number; \<open>big.Int.Bytes\<close> writes the
  absolute value with no leading zero byte.\<close>

definition setBytes :: "bytes \<Rightarrow> int" where
  "setBytes bs = int (fold (\<lambda>b acc. acc * 256 + byteOf b) bs 0)"

function natBytes :: "nat \<Rightarrow> bytes" where
  "natBytes n = (if n = 0 then [] else natBytes (n div 256) @ [chr (n mod 256)])"
  by pat_completeness auto
termination
  by (relation "measure id") auto

declare natBytes.simps [simp del]

definition bigBytes :: "int \<Rightarrow> bytes" where
  "bigBytes i = natBytes (nat \<bar>i\<bar>)"

lemma setBytes_nonneg: "0 \<le> setBytes bs"
  by (simp add: setBytes_def)

lemma fold_natBytes: "fold (\<lambda>b acc. acc * 256 + byteOf b) (natBytes n) 0 = n"
proof (induction n rule: natBytes.induct)
  case (1 n)
  then show ?case by (cases "n = 0") (simp_all add: natBytes.simps [of n] natBytes.simps [of 0])
qed

theorem setBytes_bigBytes: "setBytes (bigBytes i) = \<bar>i\<bar>"
  by (simp add: setBytes_def bigBytes_def fold_natBytes)

section \<open>SHA-256\<close>

type_synonym u32 = "32 word"

definition rotr :: "nat \<Rightarrow> u32 \<Rightarrow> u32" where
  "rotr n x = drop_bit n x OR push_bit (32 - n) x"

fun wordsOf :: "bytes \<Rightarrow> u32 list" where
  "wordsOf (a # b # c # d # cs) =
     of_nat (((byteOf a * 256 + byteOf b) * 256 + byteOf c) * 256 + byteOf d) # wordsOf cs"
| "wordsOf _ = []"

text \<open>The round constants, as the 256 bytes of the standard's table.\<close>

definition sha256K :: "u32 list" where
  "sha256K = wordsOf (the (hexDecode (concat
    [''428a2f9871374491b5c0fbcfe9b5dba53956c25b59f111f1923f82a4ab1c5ed5'',
     ''d807aa9812835b01243185be550c7dc372be5d7480deb1fe9bdc06a7c19bf174'',
     ''e49b69c1efbe47860fc19dc6240ca1cc2de92c6f4a7484aa5cb0a9dc76f988da'',
     ''983e5152a831c66db00327c8bf597fc7c6e00bf3d5a7914706ca635114292967'',
     ''27b70a852e1b21384d2c6dfc53380d13650a7354766a0abb81c2c92e92722c85'',
     ''a2bfe8a1a81a664bc24b8b70c76c51a3d192e819d6990624f40e3585106aa070'',
     ''19a4c1161e376c082748774c34b0bcb5391c0cb34ed8aa4a5b9cca4f682e6ff3'',
     ''748f82ee78a5636f84c878148cc7020890befffaa4506cebbef9a3f7c67178f2''])))"

definition sha256Init :: "u32 list" where
  "sha256Init =
    [0x6a09e667, 0xbb67ae85, 0x3c6ef372, 0xa54ff53a, 0x510e527f, 0x9b05688c, 0x1f83d9ab, 0x5be0cd19]"

definition beBytes :: "nat \<Rightarrow> nat \<Rightarrow> bytes" where
  "beBytes k n = map (\<lambda>i. chr ((n div 256 ^ i) mod 256)) (rev [0..<k])"

definition sha256Pad :: "bytes \<Rightarrow> bytes" where
  "sha256Pad m =
     (let l = length m; z = (119 - l mod 64) mod 64
      in m @ [chr 0x80] @ replicate z (chr 0) @ beBytes 8 (8 * l mod 2 ^ 64))"

fun schedule :: "nat \<Rightarrow> u32 list \<Rightarrow> u32 list" where
  "schedule 0 ws = ws"
| "schedule (Suc n) ws =
     (let i = length ws; w15 = ws ! (i - 15); w2 = ws ! (i - 2);
          s0 = rotr 7 w15 XOR rotr 18 w15 XOR drop_bit 3 w15;
          s1 = rotr 17 w2 XOR rotr 19 w2 XOR drop_bit 10 w2
      in schedule n (ws @ [ws ! (i - 16) + s0 + ws ! (i - 7) + s1]))"

fun sha256Round :: "u32 list \<Rightarrow> u32 \<times> u32 \<Rightarrow> u32 list" where
  "sha256Round [a, b, c, d, e, f, g, h] (k, w) =
     (let S1 = rotr 6 e XOR rotr 11 e XOR rotr 25 e;
          ch = (e AND f) XOR (NOT e AND g);
          t1 = h + S1 + ch + k + w;
          S0 = rotr 2 a XOR rotr 13 a XOR rotr 22 a;
          maj = (a AND b) XOR (a AND c) XOR (b AND c);
          t2 = S0 + maj
      in [t1 + t2, a, b, c, d + t1, e, f, g])"
| "sha256Round s _ = s"

definition sha256Block :: "u32 list \<Rightarrow> bytes \<Rightarrow> u32 list" where
  "sha256Block hs blk =
     map2 (+) hs (foldl sha256Round hs (zip sha256K (schedule 48 (wordsOf blk))))"

fun sha256Blocks :: "nat \<Rightarrow> u32 list \<Rightarrow> bytes \<Rightarrow> u32 list" where
  "sha256Blocks 0 hs m = hs"
| "sha256Blocks (Suc n) hs m = sha256Blocks n (sha256Block hs (take 64 m)) (drop 64 m)"

definition sha256 :: "bytes \<Rightarrow> bytes" where
  "sha256 m =
     (let p = sha256Pad m
      in concat (map (\<lambda>w. beBytes 4 (unat w)) (sha256Blocks (length p div 64) sha256Init p)))"

lemma length_beBytes [simp]: "length (beBytes k n) = k"
  by (simp add: beBytes_def)

lemma length_sha256Round [simp]: "length (sha256Round s kw) = length s"
  by (induction s kw rule: sha256Round.induct) (auto simp: Let_def)

lemma length_foldl_sha256Round [simp]: "length (foldl sha256Round s kws) = length s"
  by (induction kws arbitrary: s) auto

lemma length_sha256Blocks [simp]: "length (sha256Blocks n hs m) = length hs"
  by (induction n arbitrary: hs m) (auto simp: sha256Block_def)

theorem length_sha256: "length (sha256 m) = 32"
proof -
  have "length (concat (map (\<lambda>w. beBytes 4 (unat w)) ws)) = 4 * length ws" for ws :: "u32 list"
    by (induction ws) auto
  then show ?thesis by (simp add: sha256_def Let_def sha256Init_def)
qed

text \<open>The padded message is a whole number of 64-byte blocks, so no input is dropped.\<close>

lemma sha256Pad_blocks: "length (sha256Pad m) mod 64 = 0"
proof -
  define r where "r = length m mod 64"
  define q where "q = (119 - r) mod 64"
  define t where "t = (119 - r) div 64"
  have "r < 64" by (simp add: r_def)
  have "64 * t + q = 119 - r" unfolding t_def q_def by (rule mult_div_mod_eq)
  with \<open>r < 64\<close> have "(r + (9 + q)) + 64 * t = 128" by linarith
  then have "(r + (9 + q)) mod 64 = 0" by presburger
  moreover have "(length m + (9 + q)) mod 64 = (r + (9 + q)) mod 64"
    unfolding r_def by (rule mod_add_left_eq [symmetric])
  ultimately show ?thesis by (simp add: sha256Pad_def Let_def r_def [symmetric] q_def [symmetric])
qed

end
