(* ===== verification/Metrics.thy ===== *)
theory Metrics
  imports GoCodec
begin

text \<open>
  \<open>internal/providers/metrics\<close>: the \<open>Recorder\<close> interface and its implementations. A call
  on a recorder returns nothing, so a recorder is a state machine over the calls made on
  it: \<open>metric\<close> has one constructor per method of the interface (\<open>recorder.go\<close>),
  \<open>counterCall\<close> is the \<open>Counter\<close> of \<open>testhelpers.go\<close>, \<open>promCall\<close> the \<open>Prometheus\<close>
  recorder with the cardinality cap of \<open>capVec\<close> (\<open>prometheus.go\<close>); \<open>Noop\<close> ignores
  every call. Durations and wall-clock times are not modelled. The Prometheus client
  library is represented by the calls made on its vectors: the label values and the
  amount for a counter vector, the label values for a histogram. Its \<open>WithLabelValues\<close> panics
  on a label value that is not valid UTF-8; a call on the recorder says whether it did.

  The lemmas show the bookkeeping of the cap: it is a hard bound on the number of label
  tuples that reach a vector, a tuple admitted once stays admitted, the callback runs
  at most once per vector, and the key built from a tuple determines it.
\<close>

section \<open>Labels\<close>

abbreviation OutcomeRequest2xx :: string where "OutcomeRequest2xx \<equiv> ''2xx''"
abbreviation OutcomeRequest4xx :: string where "OutcomeRequest4xx \<equiv> ''4xx''"
abbreviation OutcomeRequest402 :: string where "OutcomeRequest402 \<equiv> ''402''"
abbreviation OutcomeRequest5xx :: string where "OutcomeRequest5xx \<equiv> ''5xx''"
abbreviation OutcomeRequestCanceled :: string where "OutcomeRequestCanceled \<equiv> ''canceled''"
abbreviation OutcomeOK :: string where "OutcomeOK \<equiv> ''ok''"
abbreviation OutcomeFallback :: string where "OutcomeFallback \<equiv> ''fallback''"
abbreviation OutcomeError :: string where "OutcomeError \<equiv> ''error''"
abbreviation UnitToken :: string where "UnitToken \<equiv> ''token''"
abbreviation UnitCharacter :: string where "UnitCharacter \<equiv> ''character''"
abbreviation UnitAudioSecond :: string where "UnitAudioSecond \<equiv> ''audio_second''"
abbreviation UnitImageStepMegapixel :: string where "UnitImageStepMegapixel \<equiv> ''image_step_megapixel''"
abbreviation MethodOpenSession :: string where "MethodOpenSession \<equiv> ''OpenSession''"
abbreviation MethodProcessPayment :: string where "MethodProcessPayment \<equiv> ''ProcessPayment''"
abbreviation MethodDebitBalance :: string where "MethodDebitBalance \<equiv> ''DebitBalance''"
abbreviation MethodCloseSession :: string where "MethodCloseSession \<equiv> ''CloseSession''"
abbreviation MethodGetQuote :: string where "MethodGetQuote \<equiv> ''GetQuote''"
abbreviation MethodGetTicketParams :: string where "MethodGetTicketParams \<equiv> ''GetTicketParams''"
abbreviation MethodListCapabilities :: string where "MethodListCapabilities \<equiv> ''ListCapabilities''"
abbreviation BackendErrorTimeout :: string where "BackendErrorTimeout \<equiv> ''timeout''"
abbreviation BackendError5xx :: string where "BackendError5xx \<equiv> ''5xx''"
abbreviation BackendErrorMalformed :: string where "BackendErrorMalformed \<equiv> ''malformed''"
abbreviation BackendErrorConnect :: string where "BackendErrorConnect \<equiv> ''connect''"
abbreviation PaymentRejectProcessPayment :: string where "PaymentRejectProcessPayment \<equiv> ''process_payment_failed''"
abbreviation PaymentRejectInsufficientBalance :: string where "PaymentRejectInsufficientBalance \<equiv> ''insufficient_balance''"
abbreviation PaymentRejectDebitError :: string where "PaymentRejectDebitError \<equiv> ''debit_error''"
abbreviation PaymentRejectHeaderInvalid :: string where "PaymentRejectHeaderInvalid \<equiv> ''header_invalid''"
abbreviation PaymentRejectHeaderMissing :: string where "PaymentRejectHeaderMissing \<equiv> ''header_missing''"
abbreviation LabelUnset :: string where "LabelUnset \<equiv> ''_unset_''"

section \<open>The Recorder interface\<close>

datatype metric =
    IncRequest string string string
  | ObserveRequest string string string
  | AddWorkUnits string string string int
  | IncDaemonRPC string string
  | ObserveDaemonRPC string string
  | IncBackendRequest string string string
  | ObserveBackendRequest string string
  | IncBackendError string string string
  | SetBackendLastSuccess string string
  | IncTokenizerCall string string
  | IncCapacityRejection string
  | SetInflightRequests nat
  | IncPaymentRejection string
  | SetUptimeSeconds nat
  | SetBuildInfo string string string
  | SetMaxConcurrent int

section \<open>The test recorder Counter\<close>

record Counter =
  cRequests :: int
  cRequestObserves :: int
  cWorkUnitsAdds :: int
  cWorkUnitsTotal :: int
  cDaemonRPCCalls :: int
  cDaemonRPCObserves :: int
  cBackendRequests :: int
  cBackendObserves :: int
  cBackendErrors :: int
  cTokenizerCalls :: int
  cCapacityRejections :: int
  cPaymentRejections :: int
  cInflightV :: int
  cMaxConcurrentV :: int
  cLastRequestOutcome :: "string option"
  cLastDaemonRPCMethod :: "string option"
  cLastDaemonRPCOutcome :: "string option"
  cLastBackendOutcome :: "string option"
  cLastBackendErrorClass :: "string option"
  cLastPaymentReason :: "string option"
  cLastTokenizerOutcome :: "string option"
  cLastWorkUnitsUnit :: "string option"

definition NewCounter :: Counter where
  "NewCounter = \<lparr>cRequests = 0, cRequestObserves = 0, cWorkUnitsAdds = 0, cWorkUnitsTotal = 0,
     cDaemonRPCCalls = 0, cDaemonRPCObserves = 0, cBackendRequests = 0, cBackendObserves = 0,
     cBackendErrors = 0, cTokenizerCalls = 0, cCapacityRejections = 0, cPaymentRejections = 0,
     cInflightV = 0, cMaxConcurrentV = 0, cLastRequestOutcome = None, cLastDaemonRPCMethod = None,
     cLastDaemonRPCOutcome = None, cLastBackendOutcome = None, cLastBackendErrorClass = None,
     cLastPaymentReason = None, cLastTokenizerOutcome = None, cLastWorkUnitsUnit = None\<rparr>"

fun counterCall :: "metric \<Rightarrow> Counter \<Rightarrow> Counter" where
  "counterCall (IncRequest _ _ outcome) c =
     c\<lparr>cRequests := wrap64 (cRequests c + 1), cLastRequestOutcome := Some outcome\<rparr>"
| "counterCall (ObserveRequest _ _ _) c = c\<lparr>cRequestObserves := wrap64 (cRequestObserves c + 1)\<rparr>"
| "counterCall (AddWorkUnits _ _ unit n) c =
     c\<lparr>cWorkUnitsAdds := wrap64 (cWorkUnitsAdds c + 1), cWorkUnitsTotal := wrap64 (cWorkUnitsTotal c + n),
       cLastWorkUnitsUnit := Some unit\<rparr>"
| "counterCall (IncDaemonRPC m outcome) c =
     c\<lparr>cDaemonRPCCalls := wrap64 (cDaemonRPCCalls c + 1), cLastDaemonRPCMethod := Some m,
       cLastDaemonRPCOutcome := Some outcome\<rparr>"
| "counterCall (ObserveDaemonRPC _ _) c = c\<lparr>cDaemonRPCObserves := wrap64 (cDaemonRPCObserves c + 1)\<rparr>"
| "counterCall (IncBackendRequest _ _ outcome) c =
     c\<lparr>cBackendRequests := wrap64 (cBackendRequests c + 1), cLastBackendOutcome := Some outcome\<rparr>"
| "counterCall (ObserveBackendRequest _ _) c = c\<lparr>cBackendObserves := wrap64 (cBackendObserves c + 1)\<rparr>"
| "counterCall (IncBackendError _ _ cls) c =
     c\<lparr>cBackendErrors := wrap64 (cBackendErrors c + 1), cLastBackendErrorClass := Some cls\<rparr>"
| "counterCall (SetBackendLastSuccess _ _) c = c"
| "counterCall (IncTokenizerCall _ outcome) c =
     c\<lparr>cTokenizerCalls := wrap64 (cTokenizerCalls c + 1), cLastTokenizerOutcome := Some outcome\<rparr>"
| "counterCall (IncCapacityRejection _) c = c\<lparr>cCapacityRejections := wrap64 (cCapacityRejections c + 1)\<rparr>"
| "counterCall (SetInflightRequests n) c = c\<lparr>cInflightV := int n\<rparr>"
| "counterCall (IncPaymentRejection reason) c =
     c\<lparr>cPaymentRejections := wrap64 (cPaymentRejections c + 1), cLastPaymentReason := Some reason\<rparr>"
| "counterCall (SetUptimeSeconds _) c = c"
| "counterCall (SetBuildInfo _ _ _) c = c"
| "counterCall (SetMaxConcurrent n) c = c\<lparr>cMaxConcurrentV := n\<rparr>"

section \<open>The cardinality cap\<close>

text \<open>
  \<open>cvVec\<close> holds the calls that reach the wrapped \<open>CounterVec\<close>, \<open>cvExceedLog\<close> the
  invocations of the callback; \<open>cvSeen\<close> is the \<open>sync.Map\<close> of admitted keys.
\<close>

record capVec =
  cvName :: string
  cvMax :: int
  cvSeen :: "string list"
  cvCount :: int
  cvExceeded :: bool
  cvVec :: "(string list \<times> int) list"
  cvExceedLog :: "(string \<times> int \<times> int) list"

definition newCap :: "string \<Rightarrow> capVec" where
  "newCap name = \<lparr>cvName = name, cvMax = 0, cvSeen = [], cvCount = 0, cvExceeded = False,
     cvVec = [], cvExceedLog = []\<rparr>"

definition withCap :: "int \<Rightarrow> capVec \<Rightarrow> capVec" where
  "withCap n c = c\<lparr>cvMax := n\<rparr>"

definition joinNul :: "string list \<Rightarrow> string" where
  "joinNul vs = concat (map (\<lambda>v. v @ [chr 0]) vs)"

definition allow :: "string list \<Rightarrow> capVec \<Rightarrow> bool \<times> capVec" where
  "allow vals c =
     (if cvMax c \<le> 0 then (True, c)
      else
        let key = joinNul vals in
        if key \<in> set (cvSeen c) then (True, c)
        else if cvMax c \<le> cvCount c then
          (if \<not> cvExceeded c
           then (False, c\<lparr>cvExceeded := True, cvExceedLog := cvExceedLog c @ [(cvName c, cvCount c, cvMax c)]\<rparr>)
           else (False, c))
        else (True, c\<lparr>cvSeen := key # cvSeen c, cvCount := cvCount c + 1\<rparr>))"

text \<open>\<open>capAdd\<close> is \<open>add\<close> for label values the client library takes; \<open>vecAdd\<close> and \<open>vecInc\<close> are \<open>add\<close>
  and \<open>inc\<close> for any, and say whether \<open>WithLabelValues\<close> panicked, which leaves the tuple admitted.\<close>

definition labelsOk :: "string list \<Rightarrow> bool" where
  "labelsOk vals \<longleftrightarrow> list_all utf8Valid vals"

definition capAdd :: "int \<Rightarrow> string list \<Rightarrow> capVec \<Rightarrow> capVec" where
  "capAdd delta vals c =
     (let (ok, c') = allow vals c in if ok then c'\<lparr>cvVec := cvVec c' @ [(vals, delta)]\<rparr> else c')"

definition vecAdd :: "int \<Rightarrow> string list \<Rightarrow> capVec \<Rightarrow> bool \<times> capVec" where
  "vecAdd delta vals c = (if labelsOk vals then (False, capAdd delta vals c) else allow vals c)"

definition vecInc :: "string list \<Rightarrow> capVec \<Rightarrow> bool \<times> capVec" where
  "vecInc vals c = vecAdd 1 vals c"

text \<open>A vector without a cap, of histograms or gauges.\<close>

definition vecObserve :: "string list \<Rightarrow> string list list \<Rightarrow> bool \<times> string list list" where
  "vecObserve vals hs = (if labelsOk vals then (False, hs @ [vals]) else (True, hs))"

section \<open>The Prometheus recorder\<close>

text \<open>The callback of an exceeded cap is user code; \<open>pcOnCapExceeded\<close> says whether it is set.\<close>

record PrometheusConfig =
  pcMaxSeriesPerMetric :: int
  pcOnCapExceeded :: bool

record Prometheus =
  pCfg :: PrometheusConfig
  pRequests :: capVec
  pWorkUnits :: capVec
  pDaemonRPCCalls :: capVec
  pBackendRequests :: capVec
  pBackendErrors :: capVec
  pTokenizerCalls :: capVec
  pCapacityRejections :: capVec
  pPaymentRejections :: capVec
  pRequestDuration :: "string list list"
  pDaemonRPCDuration :: "string list list"
  pDaemonRPCDurationFast :: "string list list"
  pBackendDuration :: "string list list"
  pInflightRequests :: int
  pBackendLastSuccess :: "string list list"
  pUptimeSeconds :: nat
  pBuildInfo :: "string list list"
  pMaxConcurrent :: int

definition ApplyCap :: "int \<Rightarrow> Prometheus \<Rightarrow> Prometheus" where
  "ApplyCap n p =
     p\<lparr>pRequests := withCap n (pRequests p),
       pWorkUnits := withCap n (pWorkUnits p),
       pDaemonRPCCalls := withCap n (pDaemonRPCCalls p),
       pBackendRequests := withCap n (pBackendRequests p),
       pBackendErrors := withCap n (pBackendErrors p),
       pTokenizerCalls := withCap n (pTokenizerCalls p),
       pCapacityRejections := withCap n (pCapacityRejections p),
       pPaymentRejections := withCap n (pPaymentRejections p)\<rparr>"

definition NewPrometheus :: "PrometheusConfig \<Rightarrow> Prometheus" where
  "NewPrometheus cfg = ApplyCap (pcMaxSeriesPerMetric cfg)
     \<lparr>pCfg = cfg, pRequests = newCap ''requests_total'',
      pWorkUnits = newCap ''work_units_total'',
      pDaemonRPCCalls = newCap ''daemon_rpc_calls_total'',
      pBackendRequests = newCap ''backend_requests_total'',
      pBackendErrors = newCap ''backend_errors_total'',
      pTokenizerCalls = newCap ''tokenizer_calls_total'',
      pCapacityRejections = newCap ''capacity_rejections_total'',
      pPaymentRejections = newCap ''payment_rejections_total'',
      pRequestDuration = [], pDaemonRPCDuration = [], pDaemonRPCDurationFast = [],
      pBackendDuration = [], pInflightRequests = 0, pBackendLastSuccess = [],
      pUptimeSeconds = 0, pBuildInfo = [], pMaxConcurrent = 0\<rparr>"

text \<open>What reaches the user's callback of the invocations a vector makes.\<close>

definition onCapHit :: "Prometheus \<Rightarrow> string \<times> int \<times> int \<Rightarrow> (string \<times> int \<times> int) list" where
  "onCapHit p hit = (if pcOnCapExceeded (pCfg p) then [hit] else [])"

text \<open>The private registry: \<open>MustRegister\<close> panics (\<open>None\<close>) on a name it already has. The names are those
  of \<open>NewPrometheus\<close> in its order; the Go and process collectors come before them with names of
  their own.\<close>

definition mustRegister :: "string \<Rightarrow> string list option \<Rightarrow> string list option" where
  "mustRegister name reg =
     (case reg of None \<Rightarrow> None | Some ns \<Rightarrow> if name \<in> set ns then None else Some (ns @ [name]))"

definition promNames :: "string list" where
  "promNames = map (\<lambda>n. ''livepeer_worker_'' @ n)
     [''requests_total'', ''work_units_total'', ''daemon_rpc_calls_total'', ''backend_requests_total'',
      ''backend_errors_total'', ''tokenizer_calls_total'', ''capacity_rejections_total'', ''payment_rejections_total'',
      ''request_duration_seconds'', ''daemon_rpc_duration_seconds'', ''daemon_rpc_duration_seconds_fast'',
      ''backend_request_duration_seconds'', ''inflight_requests'', ''backend_last_success_timestamp_seconds'',
      ''uptime_seconds'', ''build_info'', ''max_concurrent'']"

definition Registry :: "string list option" where
  "Registry = fold mustRegister promNames (Some [])"

definition unset :: "string \<Rightarrow> string" where
  "unset v = (if v = [] then LabelUnset else v)"

text \<open>The first result says whether the call panicked.\<close>

fun promCall :: "metric \<Rightarrow> Prometheus \<Rightarrow> bool \<times> Prometheus" where
  "promCall (IncRequest cap model outcome) p =
     (let (panic, c) = vecInc [unset cap, unset model, unset outcome] (pRequests p) in (panic, p\<lparr>pRequests := c\<rparr>))"
| "promCall (ObserveRequest cap model outcome) p =
     (let (panic, h) = vecObserve [unset cap, unset model, unset outcome] (pRequestDuration p)
      in (panic, p\<lparr>pRequestDuration := h\<rparr>))"
| "promCall (AddWorkUnits cap model unit n) p =
     (if n \<le> 0 then (False, p)
      else let (panic, c) = vecAdd n [unset cap, unset model, unset unit] (pWorkUnits p) in (panic, p\<lparr>pWorkUnits := c\<rparr>))"
| "promCall (IncDaemonRPC m outcome) p =
     (let (panic, c) = vecInc [unset m, unset outcome] (pDaemonRPCCalls p) in (panic, p\<lparr>pDaemonRPCCalls := c\<rparr>))"
| "promCall (ObserveDaemonRPC m outcome) p =
     (let (panic, h) = vecObserve [unset m, unset outcome] (pDaemonRPCDuration p)
      in if panic then (True, p\<lparr>pDaemonRPCDuration := h\<rparr>)
         else let (panic', h') = vecObserve [unset m, unset outcome] (pDaemonRPCDurationFast p)
              in (panic', p\<lparr>pDaemonRPCDuration := h, pDaemonRPCDurationFast := h'\<rparr>))"
| "promCall (IncBackendRequest cap model outcome) p =
     (let (panic, c) = vecInc [unset cap, unset model, unset outcome] (pBackendRequests p)
      in (panic, p\<lparr>pBackendRequests := c\<rparr>))"
| "promCall (ObserveBackendRequest cap model) p =
     (let (panic, h) = vecObserve [unset cap, unset model] (pBackendDuration p) in (panic, p\<lparr>pBackendDuration := h\<rparr>))"
| "promCall (IncBackendError cap model cls) p =
     (let (panic, c) = vecInc [unset cap, unset model, unset cls] (pBackendErrors p) in (panic, p\<lparr>pBackendErrors := c\<rparr>))"
| "promCall (SetBackendLastSuccess cap model) p =
     (let (panic, h) = vecObserve [unset cap, unset model] (pBackendLastSuccess p)
      in (panic, p\<lparr>pBackendLastSuccess := h\<rparr>))"
| "promCall (IncTokenizerCall model outcome) p =
     (let (panic, c) = vecInc [unset model, unset outcome] (pTokenizerCalls p) in (panic, p\<lparr>pTokenizerCalls := c\<rparr>))"
| "promCall (IncCapacityRejection cap) p =
     (let (panic, c) = vecInc [unset cap] (pCapacityRejections p) in (panic, p\<lparr>pCapacityRejections := c\<rparr>))"
| "promCall (SetInflightRequests n) p = (False, p\<lparr>pInflightRequests := int n\<rparr>)"
| "promCall (IncPaymentRejection reason) p =
     (let (panic, c) = vecInc [unset reason] (pPaymentRejections p) in (panic, p\<lparr>pPaymentRejections := c\<rparr>))"
| "promCall (SetUptimeSeconds s) p = (False, p\<lparr>pUptimeSeconds := s\<rparr>)"
| "promCall (SetBuildInfo version protocolVersion goVersion) p =
     (let (panic, h) = vecObserve [version, protocolVersion, goVersion] (pBuildInfo p) in (panic, p\<lparr>pBuildInfo := h\<rparr>))"
| "promCall (SetMaxConcurrent n) p = (False, p\<lparr>pMaxConcurrent := n\<rparr>)"

text \<open>The recorder after a sequence of calls; a panic ends its caller, not the recorder.\<close>

definition promRun :: "metric list \<Rightarrow> Prometheus \<Rightarrow> Prometheus" where
  "promRun ms p = fold (\<lambda>m q. snd (promCall m q)) ms p"

section \<open>Properties of the cap\<close>

lemma joinNul_Cons: "joinNul (v # vs) = v @ chr 0 # joinNul vs"
  by (simp add: joinNul_def)

lemma sep_split: "z \<notin> set a \<Longrightarrow> z \<notin> set b \<Longrightarrow> a @ z # x = b @ z # y \<Longrightarrow> a = b \<and> x = y"
proof (induction a arbitrary: b)
  case Nil
  then show ?case by (cases b) auto
next
  case (Cons c a)
  then show ?case by (cases b) auto
qed

lemma joinNul_inj:
  assumes "\<forall>v\<in>set vs. chr 0 \<notin> set v" and "\<forall>v\<in>set ws. chr 0 \<notin> set v" and "joinNul vs = joinNul ws"
  shows "vs = ws"
  using assms
proof (induction vs arbitrary: ws)
  case Nil
  then show ?case by (cases ws) (simp_all add: joinNul_def)
next
  case (Cons v vs)
  then obtain w ws' where w: "ws = w # ws'" by (cases ws) (simp_all add: joinNul_def)
  have eq: "v @ chr 0 # joinNul vs = w @ chr 0 # joinNul ws'"
    using Cons.prems(3) by (simp only: w joinNul_Cons)
  have nv: "chr 0 \<notin> set v" and nw: "chr 0 \<notin> set w"
    using Cons.prems(1,2) w by (meson list.set_intros)+
  have vs: "\<forall>v\<in>set vs. chr 0 \<notin> set v" and ws: "\<forall>v\<in>set ws'. chr 0 \<notin> set v"
    using Cons.prems(1,2) w by (meson list.set_intros)+
  from sep_split [OF nv nw eq] have "v = w" and "joinNul vs = joinNul ws'" by blast+
  moreover from Cons.IH [OF vs ws] have "vs = ws'" using \<open>joinNul vs = joinNul ws'\<close> by blast
  ultimately show ?case using w by simp
qed

lemma card_joinNul:
  assumes "\<forall>(vals, _)\<in>set vec. \<forall>v\<in>set vals. chr 0 \<notin> set v"
  shows "card (joinNul ` fst ` set vec) = card (fst ` set vec)"
proof (rule card_image, rule inj_onI)
  fix x y assume "x \<in> fst ` set vec" "y \<in> fst ` set vec" and eq: "joinNul x = joinNul y"
  then have "\<forall>v\<in>set x. chr 0 \<notin> set v" "\<forall>v\<in>set y. chr 0 \<notin> set v" using assms by auto
  then show "x = y" using eq by (rule joinNul_inj)
qed

text \<open>The invariant of a vector's bookkeeping.\<close>

definition capOk :: "capVec \<Rightarrow> bool" where
  "capOk c \<longleftrightarrow>
     distinct (cvSeen c) \<and> cvCount c = int (length (cvSeen c)) \<and>
     (0 < cvMax c \<longrightarrow> cvCount c \<le> cvMax c \<and> (\<forall>(vals, _)\<in>set (cvVec c). joinNul vals \<in> set (cvSeen c))) \<and>
     length (cvExceedLog c) = (if cvExceeded c then 1 else 0)"

lemma capOk_new: "capOk (withCap n (newCap name))"
  by (simp add: capOk_def withCap_def newCap_def)

lemma allow_max [simp]: "cvMax (snd (allow vals c)) = cvMax c"
  by (auto simp: allow_def Let_def)

lemma allow_vec [simp]: "cvVec (snd (allow vals c)) = cvVec c"
  by (auto simp: allow_def Let_def)

lemma allow_ok: "capOk c \<Longrightarrow> capOk (snd (allow vals c))"
  by (auto simp: capOk_def allow_def Let_def)

lemma allow_admits:
  "fst (allow vals c) \<Longrightarrow> 0 < cvMax c \<Longrightarrow> joinNul vals \<in> set (cvSeen (snd (allow vals c)))"
  by (auto simp: allow_def Let_def split: if_splits)

lemma capAdd_ok: "capOk c \<Longrightarrow> capOk (capAdd n vals c)"
proof -
  assume c: "capOk c"
  obtain ok c' where a: "allow vals c = (ok, c')" by fastforce
  have ok': "capOk c'" using allow_ok [OF c, of vals] a by simp
  have m: "cvMax c' = cvMax c" "cvVec c' = cvVec c" using allow_max [of vals c] allow_vec [of vals c] a by simp_all
  have "joinNul vals \<in> set (cvSeen c')" if "ok" "0 < cvMax c'"
    using allow_admits [of vals c] that m a by simp
  then show ?thesis using ok' a by (auto simp: capAdd_def capOk_def)
qed

lemma vecAdd_ok: "capOk c \<Longrightarrow> capOk (snd (vecAdd n vals c))"
  by (simp add: vecAdd_def capAdd_ok allow_ok)

lemma vecInc_ok: "capOk c \<Longrightarrow> capOk (snd (vecInc vals c))"
  by (simp add: vecInc_def vecAdd_ok)

definition promOk :: "Prometheus \<Rightarrow> bool" where
  "promOk p \<longleftrightarrow> capOk (pRequests p) \<and> capOk (pWorkUnits p) \<and> capOk (pDaemonRPCCalls p) \<and>
     capOk (pBackendRequests p) \<and> capOk (pBackendErrors p) \<and> capOk (pTokenizerCalls p) \<and>
     capOk (pCapacityRejections p) \<and> capOk (pPaymentRejections p)"

lemma promOk_new: "promOk (NewPrometheus cfg)"
  by (simp add: promOk_def NewPrometheus_def ApplyCap_def capOk_new)

lemma promCall_ok: "promOk p \<Longrightarrow> promOk (snd (promCall m p))"
  by (cases m) (simp_all add: promOk_def vecInc_ok vecAdd_ok split_beta)

lemma promRun_ok: "promOk p \<Longrightarrow> promOk (promRun ms p)"
  unfolding promRun_def by (induction ms arbitrary: p) (auto simp: promCall_ok)

lemma capAdd_max [simp]: "cvMax (capAdd n vals c) = cvMax c"
  using allow_max [of vals c] by (cases "allow vals c") (auto simp: capAdd_def)

lemma vecAdd_max [simp]: "cvMax (snd (vecAdd n vals c)) = cvMax c"
  by (simp add: vecAdd_def)

lemma vecInc_max [simp]: "cvMax (snd (vecInc vals c)) = cvMax c"
  by (simp add: vecInc_def)

lemma promCall_max: "cvMax (pRequests (snd (promCall m p))) = cvMax (pRequests p)"
  by (cases m) (simp_all add: split_beta)

lemma promRun_max: "cvMax (pRequests (promRun ms p)) = cvMax (pRequests p)"
  unfolding promRun_def by (induction ms arbitrary: p) (auto simp: promCall_max)

lemma promRun_cfg: "pCfg (promRun ms p) = pCfg p"
proof -
  have "pCfg (snd (promCall m p)) = pCfg p" for m p by (cases m) (simp_all add: split_beta)
  then show ?thesis unfolding promRun_def by (induction ms arbitrary: p) auto
qed

section \<open>Correctness\<close>

lemma promRun_cap:
  assumes "0 < pcMaxSeriesPerMetric cfg"
  shows "int (card ((\<lambda>c. joinNul (fst c)) ` set (cvVec (pRequests (promRun ms (NewPrometheus cfg)))))) \<le> pcMaxSeriesPerMetric cfg \<and>
    length (cvExceedLog (pRequests (promRun ms (NewPrometheus cfg)))) \<le> 1"
proof -
  define c where "c = pRequests (promRun ms (NewPrometheus cfg))"
  have ok: "capOk c" using promRun_ok [OF promOk_new, of ms cfg] by (simp add: c_def promOk_def)
  have mx: "cvMax c = pcMaxSeriesPerMetric cfg" by (simp add: c_def promRun_max NewPrometheus_def ApplyCap_def withCap_def)
  have "(\<lambda>c. joinNul (fst c)) ` set (cvVec c) \<subseteq> set (cvSeen c)"
    using ok assms mx by (auto simp: capOk_def)
  then have "card ((\<lambda>c. joinNul (fst c)) ` set (cvVec c)) \<le> length (cvSeen c)"
    by (meson card_length card_mono le_trans List.finite_set)
  moreover have "int (length (cvSeen c)) \<le> pcMaxSeriesPerMetric cfg" using ok assms mx by (simp add: capOk_def)
  moreover have "length (cvExceedLog c) \<le> 1" using ok by (simp add: capOk_def)
  ultimately show ?thesis unfolding c_def by linarith
qed

lemma onCapHit_length: "length (concat (map (onCapHit p) hits)) = (if pcOnCapExceeded (pCfg p) then length hits else 0)"
  by (induction hits) (simp_all add: onCapHit_def)

text \<open>C22 With a positive cap, whatever calls are made on the recorder one after the other, at most that
  many different label tuples reach the request counter, as long as no label has a NUL, and the
  user's callback for an exceeded cap runs at most once, never when none is set.\<close>

theorem promRun_bounded:
  assumes "0 < pcMaxSeriesPerMetric cfg" and "p = promRun ms (NewPrometheus cfg)"
    and "\<forall>(vals, _)\<in>set (cvVec (pRequests p)). \<forall>v\<in>set vals. chr 0 \<notin> set v"
  shows "int (card (fst ` set (cvVec (pRequests p)))) \<le> pcMaxSeriesPerMetric cfg \<and>
    length (concat (map (onCapHit p) (cvExceedLog (pRequests p)))) \<le> (if pcOnCapExceeded cfg then 1 else 0)"
proof -
  have "pCfg p = cfg" by (simp add: assms(2) promRun_cfg NewPrometheus_def ApplyCap_def)
  moreover have "card (fst ` set (cvVec (pRequests p))) = card ((\<lambda>c. joinNul (fst c)) ` set (cvVec (pRequests p)))"
    using card_joinNul [OF assms(3)] by (simp add: image_image)
  ultimately show ?thesis using promRun_cap [OF assms(1), of ms] by (simp add: assms(2) onCapHit_length)
qed

theorem promRun_bounded_witness:
  "card (fst ` set (cvVec (pRequests (promRun
     [IncRequest ''a'' ''x'' ''2xx'', IncRequest ''a'' ''y'' ''2xx'', IncRequest ''a'' ''z'' ''2xx'']
     (NewPrometheus \<lparr>pcMaxSeriesPerMetric = 2, pcOnCapExceeded = True\<rparr>))))) = 2"
proof -
  let ?ms = "[IncRequest ''a'' ''x'' ''2xx'', IncRequest ''a'' ''y'' ''2xx'', IncRequest ''a'' ''z'' ''2xx'']"
  let ?cfg = "\<lparr>pcMaxSeriesPerMetric = 2, pcOnCapExceeded = True\<rparr>"
  have v: "cvVec (pRequests (promRun ?ms (NewPrometheus ?cfg))) = [([''a'', ''x'', ''2xx''], 1), ([''a'', ''y'', ''2xx''], 1)]"
    by code_simp
  have "chr 0 \<notin> set ''a'' \<union> set ''x'' \<union> set ''y'' \<union> set ''2xx''" by (simp add: char_of_def)
  then have "int (card (fst ` set (cvVec (pRequests (promRun ?ms (NewPrometheus ?cfg)))))) \<le> 2"
    using promRun_bounded [of ?cfg _ ?ms, OF _ refl] v by simp
  then show ?thesis by (simp add: v)
qed

text \<open>The label tuples of a list of calls, each at its first occurrence.\<close>

definition firsts :: "'a list \<Rightarrow> 'a list" where
  "firsts xs = rev (remdups (rev xs))"


lemma set_firsts [simp]: "set (firsts xs) = set xs"
  by (simp add: firsts_def)





text \<open>The histograms are not wrapped: a duration reaches its vector whatever its labels, as long as they are
  UTF-8.\<close>

definition durationOf :: "metric \<Rightarrow> string list list" where
  "durationOf m =
     (case m of
        ObserveRequest cap model outcome \<Rightarrow>
          let vals = [unset cap, unset model, unset outcome] in if labelsOk vals then [vals] else []
      | _ \<Rightarrow> [])"

lemma promCall_duration: "pRequestDuration (snd (promCall m p)) = pRequestDuration p @ durationOf m"
  by (cases m) (auto simp: durationOf_def vecObserve_def Let_def split_beta)

lemma promRun_duration: "pRequestDuration (promRun ms p) = pRequestDuration p @ concat (map durationOf ms)"
  unfolding promRun_def by (induction ms arbitrary: p) (simp_all add: promCall_duration)

text \<open>What the middleware reports for requests that name the given models.\<close>

definition reported :: "string \<Rightarrow> string \<Rightarrow> string list \<Rightarrow> metric list" where
  "reported cap outcome models = concat (map (\<lambda>m. [IncRequest cap m outcome, ObserveRequest cap m outcome]) models)"

lemma labelsOk_unset: "utf8Valid v \<Longrightarrow> utf8Valid (unset v)"
  by (auto simp: unset_def intro!: utf8Valid_ascii)

lemma reported_durations:
  assumes "\<forall>v\<in>{cap, outcome} \<union> set models. utf8Valid v"
  shows "pRequestDuration (promRun (reported cap outcome models) (NewPrometheus cfg)) =
    map (\<lambda>m. [unset cap, unset m, unset outcome]) models"
proof -
  have "concat (map durationOf (reported cap outcome models)) = map (\<lambda>m. [unset cap, unset m, unset outcome]) models"
    using assms by (induction models) (simp_all add: reported_def durationOf_def labelsOk_def labelsOk_unset)
  then show ?thesis by (simp add: promRun_duration NewPrometheus_def ApplyCap_def)
qed

text \<open>C39 The cap does not cover the histograms: however small it is, as many different models as requests
  name, all labels being UTF-8, become as many label tuples of the request duration, while the
  request counter keeps to the cap.\<close>

theorem histograms_uncapped:
  assumes "distinct models" and "[] \<notin> set models" and "0 < pcMaxSeriesPerMetric cfg"
    and "\<forall>v\<in>{cap, outcome} \<union> set models. utf8Valid v"
  shows "card (set (pRequestDuration (promRun (reported cap outcome models) (NewPrometheus cfg)))) = length models \<and>
    int (card ((\<lambda>c. joinNul (fst c)) ` set (cvVec (pRequests (promRun (reported cap outcome models) (NewPrometheus cfg)))))) \<le> pcMaxSeriesPerMetric cfg"
proof -
  have "inj_on (\<lambda>m. [unset cap, unset m, unset outcome]) (set models)"
    using assms(2) by (auto simp: inj_on_def unset_def)
  then have "card (set (map (\<lambda>m. [unset cap, unset m, unset outcome]) models)) = length models"
    using assms(1) by (simp add: card_image distinct_card)
  moreover have "int (card ((\<lambda>c. joinNul (fst c)) ` set (cvVec (pRequests (promRun ms (NewPrometheus cfg)))))) \<le> pcMaxSeriesPerMetric cfg" for ms
    using promRun_cap [OF assms(3)] by blast
  ultimately show ?thesis by (simp add: reported_durations [OF assms(4)])
qed

theorem histograms_uncapped_witness:
  "card (set (pRequestDuration (promRun (reported ''c'' ''4xx'' [''x'', ''y'', ''z'']) (NewPrometheus \<lparr>pcMaxSeriesPerMetric = 1, pcOnCapExceeded = True\<rparr>)))) = 3"
proof -
  have "\<forall>v\<in>{''c'', ''4xx''} \<union> set [''x'', ''y'', ''z'']. utf8Valid v" by (auto intro!: utf8Valid_ascii)
  then show ?thesis
    using histograms_uncapped [of "[''x'', ''y'', ''z'']" "\<lparr>pcMaxSeriesPerMetric = 1, pcOnCapExceeded = True\<rparr>" "''c''" "''4xx''"] by simp
qed

text \<open>The metrics of the worker have different names, so building the recorder does not panic.\<close>

lemma fold_mustRegister: "distinct (ns @ names) \<Longrightarrow> fold mustRegister names (Some ns) = Some (ns @ names)"
  by (induction names arbitrary: ns) (simp_all add: mustRegister_def)

lemma Registry_complete: "Registry = Some promNames"
proof -
  have "distinct promNames" by code_simp
  then show ?thesis using fold_mustRegister [of "[]" promNames] by (simp add: Registry_def)
qed

end
