(* ===== verification/GoJson.thy ===== *)
theory GoJson
  imports GoCodec "HOL-Library.List_Lexorder" "HOL-Library.Char_ord"
begin

text \<open>
  The part of \<open>encoding/json\<close> the worker uses. \<open>jsonValue\<close> is the scanner and the
  string decoder (escapes, surrogate pairs, invalid UTF-8 replaced), \<open>jsonUnmarshal\<close> the
  whole-document check of \<open>json.Unmarshal\<close>, the \<open>dec_*\<close> functions the conversion of a
  value into a Go variable that already holds something (\<open>null\<close> keeps it, a wrong
  shape is an error), \<open>decodeFields\<close> the case-insensitive matching of object keys to
  struct fields in document order, and \<open>jsonEnc\<close> the encoder with its HTML-safe string
  quoting. A number keeps its literal: the target decides how it is read.

  The parser takes fuel; \<open>json_fuel_irrelevant\<close> shows that \<open>2 * length s + 2\<close> is enough
  for every text, so no document is refused for lack of it.
\<close>

datatype json =
    JNull
  | JBool bool
  | JNum string
  | JStr bytes
  | JArr "json list"
  | JObj "(bytes \<times> json) list"

section \<open>Scanning\<close>

definition isWs :: "char \<Rightarrow> bool" where
  "isWs c \<longleftrightarrow> c = CHR '' '' \<or> c = chr 9 \<or> c = chr 10 \<or> c = chr 13"

definition skipWs :: "bytes \<Rightarrow> bytes" where
  "skipWs s = dropWhile isWs s"

definition hex4 :: "bytes \<Rightarrow> (nat \<times> bytes) option" where
  "hex4 s =
     (case s of
        a # b # c # d # cs \<Rightarrow>
          (case (unhex a, unhex b, unhex c, unhex d) of
             (Some w, Some x, Some y, Some z) \<Rightarrow> Some (((w * 16 + x) * 16 + y) * 16 + z, cs)
           | _ \<Rightarrow> None)
      | _ \<Rightarrow> None)"

definition isSurrogate :: "nat \<Rightarrow> bool" where
  "isSurrogate r \<longleftrightarrow> 0xD800 \<le> r \<and> r \<le> 0xDFFF"

text \<open>The escape after a backslash: its bytes and the rest of the text.\<close>

definition jsonUEscape :: "bytes \<Rightarrow> (bytes \<times> bytes) option" where
  "jsonUEscape s =
     (case hex4 s of
        None \<Rightarrow> None
      | Some (r, cs) \<Rightarrow>
          if \<not> isSurrogate r then Some (encodeRune r, cs)
          else
            (case cs of
               a # b # ds \<Rightarrow>
                 if a = CHR 0x5C \<and> b = CHR ''u'' then
                   (case hex4 ds of
                      None \<Rightarrow> None
                    | Some (r2, es) \<Rightarrow>
                        if r < 0xDC00 \<and> 0xDC00 \<le> r2 \<and> r2 \<le> 0xDFFF
                        then Some (encodeRune ((r - 0xD800) * 0x400 + (r2 - 0xDC00) + 0x10000), es)
                        else Some (encodeRune runeError, cs))
                 else Some (encodeRune runeError, cs)
             | _ \<Rightarrow> Some (encodeRune runeError, cs)))"

definition jsonEscape :: "bytes \<Rightarrow> (bytes \<times> bytes) option" where
  "jsonEscape s =
     (case s of
        [] \<Rightarrow> None
      | c # cs \<Rightarrow>
          if c = CHR 0x22 \<or> c = CHR 0x5C \<or> c = CHR ''/'' then Some ([c], cs)
          else if c = CHR ''b'' then Some ([chr 8], cs)
          else if c = CHR ''f'' then Some ([chr 12], cs)
          else if c = CHR ''n'' then Some ([chr 10], cs)
          else if c = CHR ''r'' then Some ([chr 13], cs)
          else if c = CHR ''t'' then Some ([chr 9], cs)
          else if c = CHR ''u'' then jsonUEscape cs
          else None)"

lemma hex4_length: "hex4 s = Some (r, t) \<Longrightarrow> length t < length s"
  by (auto simp: hex4_def split: list.splits option.splits)

lemma jsonUEscape_length: "jsonUEscape s = Some (r, t) \<Longrightarrow> length t < length s"
  by (auto simp: jsonUEscape_def dest!: hex4_length split: option.splits if_splits list.splits)

lemma jsonEscape_length: "jsonEscape s = Some (r, t) \<Longrightarrow> length t < length s"
  by (auto simp: jsonEscape_def dest!: jsonUEscape_length split: list.splits if_splits)

text \<open>A string after its opening quote: the decoded bytes and the rest of the text.\<close>

function jsonString :: "bytes \<Rightarrow> (bytes \<times> bytes) option" where
  "jsonString [] = None"
| "jsonString (c # cs) =
     (if c = CHR 0x22 then Some ([], cs)
      else if c = CHR 0x5C then
        (case jsonEscape cs of
           None \<Rightarrow> None
         | Some (out, rest) \<Rightarrow> map_option (\<lambda>(o2, r2). (out @ o2, r2)) (jsonString rest))
      else if byteOf c < 32 then None
      else
        map_option (\<lambda>(o2, r2). (encodeRune (fst (decodeRune (c # cs))) @ o2, r2))
          (jsonString (drop (snd (decodeRune (c # cs))) (c # cs))))"
  by pat_completeness auto
termination
proof (relation "measure length", goal_cases)
  case (2 c cs a x y)
  then show ?case by (auto dest: jsonEscape_length)
next
  case (3 c cs)
  show ?case using decodeRune_width_pos [of c cs] by simp
qed simp

definition digits :: "bytes \<Rightarrow> bytes" where
  "digits s = takeWhile isDigit s"

definition scanInt :: "bytes \<Rightarrow> (bytes \<times> bytes) option" where
  "scanInt s =
     (case s of
        [] \<Rightarrow> None
      | c # cs \<Rightarrow>
          if c = CHR ''0'' then Some ([c], cs)
          else if isDigit c then Some (digits s, drop (length (digits s)) s)
          else None)"

definition scanFrac :: "bytes \<Rightarrow> (bytes \<times> bytes) option" where
  "scanFrac s =
     (case s of
        c # cs \<Rightarrow>
          if c = CHR ''.'' then
            (if digits cs = [] then None
             else Some (c # digits cs, drop (length (digits cs)) cs))
          else Some ([], s)
      | [] \<Rightarrow> Some ([], s))"

definition scanSign :: "bytes \<Rightarrow> bytes \<times> bytes" where
  "scanSign s =
     (case s of c # cs \<Rightarrow> if c = CHR ''+'' \<or> c = CHR ''-'' then ([c], cs) else ([], s) | [] \<Rightarrow> ([], s))"

definition scanExp :: "bytes \<Rightarrow> (bytes \<times> bytes) option" where
  "scanExp s =
     (case s of
        c # cs \<Rightarrow>
          if c = CHR ''e'' \<or> c = CHR ''E'' then
            (let (sg, t) = scanSign cs in
             if digits t = [] then None
             else Some (c # sg @ digits t, drop (length (digits t)) t))
          else Some ([], s)
      | [] \<Rightarrow> Some ([], s))"

definition jsonNumber :: "bytes \<Rightarrow> (bytes \<times> bytes) option" where
  "jsonNumber s =
     (let (sg, t) = (case s of c # cs \<Rightarrow> if c = CHR ''-'' then ([c], cs) else ([], s) | [] \<Rightarrow> ([], s)) in
      case scanInt t of
        None \<Rightarrow> None
      | Some (i, t1) \<Rightarrow>
          (case scanFrac t1 of
             None \<Rightarrow> None
           | Some (f, t2) \<Rightarrow>
               (case scanExp t2 of
                  None \<Rightarrow> None
                | Some (e, t3) \<Rightarrow> Some (sg @ i @ f @ e, t3))))"

definition maxNestingDepth :: nat where
  "maxNestingDepth = 10000"

fun jsonValue :: "nat \<Rightarrow> nat \<Rightarrow> bytes \<Rightarrow> (json \<times> bytes) option"
  and jsonElems :: "nat \<Rightarrow> nat \<Rightarrow> bytes \<Rightarrow> (json list \<times> bytes) option"
  and jsonMembers :: "nat \<Rightarrow> nat \<Rightarrow> bytes \<Rightarrow> ((bytes \<times> json) list \<times> bytes) option"
where
  "jsonValue 0 d s = None"
| "jsonValue (Suc f) d s =
     (case s of
        [] \<Rightarrow> None
      | c # cs \<Rightarrow>
          if c = CHR 0x22 then map_option (\<lambda>(b, r). (JStr b, r)) (jsonString cs)
          else if c = CHR ''['' then
            (if maxNestingDepth \<le> d then None
             else
               (case skipWs cs of
                  e # r \<Rightarrow>
                    if e = CHR '']'' then Some (JArr [], r)
                    else map_option (\<lambda>(vs, r2). (JArr vs, r2)) (jsonElems f (Suc d) (e # r))
                | [] \<Rightarrow> None))
          else if c = CHR ''{'' then
            (if maxNestingDepth \<le> d then None
             else
               (case skipWs cs of
                  e # r \<Rightarrow>
                    if e = CHR ''}'' then Some (JObj [], r)
                    else map_option (\<lambda>(ms, r2). (JObj ms, r2)) (jsonMembers f (Suc d) (e # r))
                | [] \<Rightarrow> None))
          else if hasPrefix ''true'' s then Some (JBool True, drop 4 s)
          else if hasPrefix ''false'' s then Some (JBool False, drop 5 s)
          else if hasPrefix ''null'' s then Some (JNull, drop 4 s)
          else map_option (\<lambda>(n, r). (JNum n, r)) (jsonNumber s))"
| "jsonElems 0 d s = None"
| "jsonElems (Suc f) d s =
     (case jsonValue f d s of
        None \<Rightarrow> None
      | Some (v, r) \<Rightarrow>
          (case skipWs r of
             [] \<Rightarrow> None
           | c # cs \<Rightarrow>
               if c = CHR '']'' then Some ([v], cs)
               else if c = CHR '','' then
                 map_option (\<lambda>(vs, r2). (v # vs, r2)) (jsonElems f d (skipWs cs))
               else None))"
| "jsonMembers 0 d s = None"
| "jsonMembers (Suc f) d s =
     (case s of
        [] \<Rightarrow> None
      | q # t \<Rightarrow>
          if q \<noteq> CHR 0x22 then None
          else
            (case jsonString t of
               None \<Rightarrow> None
             | Some (k, r) \<Rightarrow>
                 (case skipWs r of
                    [] \<Rightarrow> None
                  | c # cs \<Rightarrow>
                      if c \<noteq> CHR '':'' then None
                      else
                        (case jsonValue f d (skipWs cs) of
                           None \<Rightarrow> None
                         | Some (v, r2) \<Rightarrow>
                             (case skipWs r2 of
                                [] \<Rightarrow> None
                              | e # es \<Rightarrow>
                                  if e = CHR ''}'' then Some ([(k, v)], es)
                                  else if e = CHR '','' then
                                    map_option (\<lambda>(ms, r3). ((k, v) # ms, r3)) (jsonMembers f d (skipWs es))
                                  else None)))))"

definition jsonFuel :: "bytes \<Rightarrow> nat" where
  "jsonFuel s = 2 * length s + 2"

text \<open>One value from the front of a text (\<open>Decoder.Decode\<close>), and a whole document.\<close>

definition jsonNext :: "bytes \<Rightarrow> (json \<times> bytes) option" where
  "jsonNext s = jsonValue (jsonFuel s) 0 (skipWs s)"

definition jsonUnmarshal :: "bytes \<Rightarrow> json option" where
  "jsonUnmarshal s =
     (case jsonNext s of
        None \<Rightarrow> None
      | Some (v, r) \<Rightarrow> if skipWs r = [] then Some v else None)"

section \<open>Reading a value into a Go variable\<close>

text \<open>
  Each \<open>dec_*\<close> takes what the variable holds. \<open>None\<close> is a type error; the decoder
  goes on after one and reports it at the end, so the caller sees the error either way.
\<close>

fun dec_string :: "bytes \<Rightarrow> json \<Rightarrow> bytes option" where
  "dec_string old (JStr s) = Some s"
| "dec_string old JNull = Some old"
| "dec_string old _ = None"

fun dec_bool :: "bool \<Rightarrow> json \<Rightarrow> bool option" where
  "dec_bool old (JBool b) = Some b"
| "dec_bool old JNull = Some old"
| "dec_bool old _ = None"

fun dec_int :: "int \<Rightarrow> json \<Rightarrow> int option" where
  "dec_int old (JNum n) = atoi n"
| "dec_int old JNull = Some old"
| "dec_int old _ = None"

fun dec_int_ptr :: "int option \<Rightarrow> json \<Rightarrow> int option option" where
  "dec_int_ptr old (JNum n) = map_option Some (atoi n)"
| "dec_int_ptr old JNull = Some None"
| "dec_int_ptr old _ = None"

text \<open>
  The value of a number literal as mantissa and decimal exponent, and whether it is in
  the range of \<open>float64\<close>: below \<open>(2^54 - 1) * 2^970\<close>, from where on rounding to the
  nearest double gives infinity and \<open>strconv.ParseFloat\<close> reports a range error.
\<close>

definition numParts :: "string \<Rightarrow> int \<times> int" where
  "numParts lit =
     (let neg = hasPrefix ''-'' lit;
          t = (if neg then drop 1 lit else lit);
          ip = digits t;
          t1 = drop (length ip) t;
          fp = (if hasPrefix ''.'' t1 then digits (drop 1 t1) else []);
          t2 = (if hasPrefix ''.'' t1 then drop (Suc (length fp)) t1 else t1);
          ex = (if t2 = [] then 0
                else (let (sg, es) = scanSign (drop 1 t2);
                          e = (case parseNat es of None \<Rightarrow> 0 | Some k \<Rightarrow> int k)
                      in if sg = ''-'' then - e else e));
          m = (case parseNat (ip @ fp) of None \<Rightarrow> 0 | Some k \<Rightarrow> int k)
      in (if neg then - m else m, ex - int (length fp)))"

definition float64_ok :: "string \<Rightarrow> bool" where
  "float64_ok lit =
     (let (m, e) = numParts lit; bound = (2 ^ 54 - 1) * 2 ^ 970 in
      if 0 \<le> e then \<bar>m\<bar> * 10 ^ nat e < bound else \<bar>m\<bar> < bound * 10 ^ nat (- e))"

text \<open>A value read into an \<open>any\<close>: every number in it must be a \<open>float64\<close>.\<close>

fun any_ok :: "json \<Rightarrow> bool" where
  "any_ok (JNum n) = float64_ok n"
| "any_ok (JArr vs) = list_all any_ok vs"
| "any_ok (JObj ms) = list_all (\<lambda>m. any_ok (snd m)) ms"
| "any_ok _ = True"

definition dec_any :: "json \<Rightarrow> json option" where
  "dec_any v = (if any_ok v then Some v else None)"

text \<open>
  Keys match a field when they agree up to simple case folding; for the ASCII field
  names of the worker that is ASCII case plus the two runes that fold to s and k.
\<close>

definition foldSeg :: "nat \<times> bytes \<Rightarrow> bytes" where
  "foldSeg seg =
     (let r = fst seg in
      if 65 \<le> r \<and> r \<le> 90 then [chr (r + 32)]
      else if r = 0x17F then ''s''
      else if r = 0x212A then ''k''
      else snd seg)"

definition foldKey :: "bytes \<Rightarrow> bytes" where
  "foldKey k = concat (map foldSeg (runes k))"

fun decodeFields :: "(bytes \<Rightarrow> json \<Rightarrow> 'a \<Rightarrow> 'a option) \<Rightarrow> (bytes \<times> json) list \<Rightarrow> 'a \<Rightarrow> 'a option" where
  "decodeFields f [] acc = Some acc"
| "decodeFields f ((k, v) # ms) acc =
     (case f (foldKey k) v acc of None \<Rightarrow> None | Some acc' \<Rightarrow> decodeFields f ms acc')"

definition decodeStruct :: "(bytes \<Rightarrow> json \<Rightarrow> 'a \<Rightarrow> 'a option) \<Rightarrow> json \<Rightarrow> 'a \<Rightarrow> 'a option" where
  "decodeStruct f v acc =
     (case v of
        JObj ms \<Rightarrow> decodeFields f ms acc
      | JNull \<Rightarrow> Some acc
      | _ \<Rightarrow> None)"

text \<open>What every field decoder keeps, the whole decoding keeps.\<close>

lemma decodeFields_inv:
  assumes "\<And>k v a b. P a \<Longrightarrow> f k v a = Some b \<Longrightarrow> P b" and "P acc" and "decodeFields f ms acc = Some b"
  shows "P b"
  using assms(2,3)
proof (induction ms arbitrary: acc)
  case (Cons m ms)
  obtain k v where m: "m = (k, v)" by fastforce
  from Cons.prems obtain a where a: "f (foldKey k) v acc = Some a" "decodeFields f ms a = Some b"
    by (auto simp: m split: option.splits)
  from assms(1) [OF Cons.prems(1) a(1)] a(2) show ?case by (rule Cons.IH)
qed simp

lemma decodeStruct_inv:
  assumes "\<And>k v a b. P a \<Longrightarrow> f k v a = Some b \<Longrightarrow> P b" and "P acc" and "decodeStruct f v acc = Some b"
  shows "P b"
  using assms decodeFields_inv [of P f acc _ b] by (cases v) (auto simp: decodeStruct_def)

text \<open>The last binding of a key in an object, as a Go map holds it.\<close>

definition objGet :: "(bytes \<times> json) list \<Rightarrow> bytes \<Rightarrow> json option" where
  "objGet ms k = map_of (rev ms) k"

section \<open>Encoding\<close>

definition quoteSeg :: "nat \<times> bytes \<Rightarrow> string" where
  "quoteSeg seg =
     (let r = fst seg in
      if r = 0x22 \<or> r = 0x5C then [CHR 0x5C, chr r]
      else if r = 8 then [CHR 0x5C, CHR ''b'']
      else if r = 12 then [CHR 0x5C, CHR ''f'']
      else if r = 10 then [CHR 0x5C, CHR ''n'']
      else if r = 13 then [CHR 0x5C, CHR ''r'']
      else if r = 9 then [CHR 0x5C, CHR ''t'']
      else if r < 32 \<or> r = 0x3C \<or> r = 0x3E \<or> r = 0x26 then
        [CHR 0x5C, CHR ''u'', CHR ''0'', CHR ''0'', hexDigit (r div 16), hexDigit (r mod 16)]
      else if seg = (runeError, snd seg) \<and> length (snd seg) = 1 then CHR 0x5C # ''ufffd''
      else if r = 0x2028 then CHR 0x5C # ''u2028''
      else if r = 0x2029 then CHR 0x5C # ''u2029''
      else snd seg)"

definition jsonQuote :: "bytes \<Rightarrow> string" where
  "jsonQuote s = CHR 0x22 # concat (map quoteSeg (runes s)) @ [CHR 0x22]"

definition commaSep :: "string list \<Rightarrow> string" where
  "commaSep ss = (case ss of [] \<Rightarrow> [] | x # xs \<Rightarrow> x @ concat (map (\<lambda>y. CHR '','' # y) xs))"

text \<open>
  \<open>json.Marshal\<close> with members in the order given (a struct's fields). \<open>num\<close> renders a
  number: for a value read through \<open>any\<close> that is the shortest text of its \<open>float64\<close>.
\<close>

fun jsonEnc :: "(string \<Rightarrow> string) \<Rightarrow> json \<Rightarrow> string" where
  "jsonEnc num JNull = ''null''"
| "jsonEnc num (JBool b) = (if b then ''true'' else ''false'')"
| "jsonEnc num (JNum n) = num n"
| "jsonEnc num (JStr s) = jsonQuote s"
| "jsonEnc num (JArr vs) = CHR ''['' # commaSep (map (jsonEnc num) vs) @ '']''"
| "jsonEnc num (JObj ms) =
     CHR ''{'' # commaSep (map (\<lambda>m. jsonQuote (fst m) @ CHR '':'' # jsonEnc num (snd m)) ms) @ ''}''"

text \<open>A Go map: one member per key (the last one read), sorted by key, at every depth.\<close>

definition dedupKeys :: "(bytes \<times> json) list \<Rightarrow> (bytes \<times> json) list" where
  "dedupKeys ms = map (\<lambda>k. (k, the (objGet ms k))) (sort (remdups (map fst ms)))"

fun jsonSort :: "json \<Rightarrow> json" where
  "jsonSort (JArr vs) = JArr (map jsonSort vs)"
| "jsonSort (JObj ms) = JObj (dedupKeys (map (\<lambda>m. (fst m, jsonSort (snd m))) ms))"
| "jsonSort v = v"

definition jsonMarshalAny :: "(string \<Rightarrow> string) \<Rightarrow> json \<Rightarrow> string" where
  "jsonMarshalAny num v = jsonEnc num (jsonSort v)"

section \<open>The parser consumes its input and has fuel enough\<close>

lemma skipWs_length: "length (skipWs s) \<le> length s"
  by (simp add: skipWs_def length_dropWhile_le)

lemma skipWs_Cons_length: "skipWs s = c # cs \<Longrightarrow> length cs < length s"
  using skipWs_length [of s] by simp

lemma jsonString_length: "jsonString s = Some (b, r) \<Longrightarrow> length r < length s"
proof (induction s arbitrary: b r rule: jsonString.induct)
  case (2 c cs)
  show ?case
  proof (cases "c = CHR 0x22 \<or> byteOf c < 32 \<and> c \<noteq> CHR 0x5C")
    case True
    with 2 show ?thesis by (auto split: if_splits)
  next
    case plain: False
    show ?thesis
    proof (cases "c = CHR 0x5C")
      case True
      with 2 show ?thesis
        by (fastforce split: option.splits dest!: jsonEscape_length)
    next
      case False
      with plain 2 have "length r < length (drop (snd (decodeRune (c # cs))) (c # cs))"
        by auto
      then show ?thesis by simp
    qed
  qed
qed simp

lemma scanInt_length: "scanInt s = Some (i, r) \<Longrightarrow> length r < length s"
  by (auto simp: scanInt_def digits_def split: list.splits if_splits)

lemma scanFrac_length: "scanFrac s = Some (i, r) \<Longrightarrow> length r \<le> length s"
  by (auto simp: scanFrac_def split: list.splits if_splits)

lemma scanExp_length: "scanExp s = Some (i, r) \<Longrightarrow> length r \<le> length s"
  by (auto simp: scanExp_def scanSign_def split: list.splits if_splits)

lemma jsonNumber_length: "jsonNumber s = Some (n, r) \<Longrightarrow> length r < length s"
proof -
  assume a: "jsonNumber s = Some (n, r)"
  obtain sg t where st: "(case s of c # cs \<Rightarrow> if c = CHR ''-'' then ([c], cs) else ([], s) | [] \<Rightarrow> ([], s)) = (sg, t)"
    by fastforce
  then have "length t \<le> length s" by (auto split: list.splits if_splits)
  from a st obtain i t1 f t2 e where i: "scanInt t = Some (i, t1)" and f: "scanFrac t1 = Some (f, t2)"
    and e: "scanExp t2 = Some (e, r)"
    by (auto simp: jsonNumber_def split: option.splits)
  from scanInt_length [OF i] scanFrac_length [OF f] scanExp_length [OF e] \<open>length t \<le> length s\<close>
  show ?thesis by linarith
qed

lemma jsonValue_other_length:
  assumes "jsonValue (Suc f) d (c # cs) = Some (v, r)"
    and "c \<noteq> CHR ''[''" and "c \<noteq> CHR ''{''"
  shows "length r < length (c # cs)"
proof (cases "c = CHR 0x22")
  case True
  with assms(1) show ?thesis by (auto dest!: jsonString_length)
next
  case False
  with assms consider n where "jsonNumber (c # cs) = Some (n, r)"
    | "r = drop 4 (c # cs)" | "r = drop 5 (c # cs)"
    by (auto split: if_splits)
  then show ?thesis
    by cases (auto dest!: jsonNumber_length)
qed

text \<open>A value that is not a literal is an opening bracket and a non-empty body.\<close>

lemma jsonValue_nested:
  assumes "jsonValue (Suc f) d (c # cs) = Some (v, r)" and "c = CHR ''['' \<or> c = CHR ''{''"
  obtains e t where "skipWs cs = e # t" and "r = t"
  | e t vs where "skipWs cs = e # t" and "jsonElems f (Suc d) (e # t) = Some (vs, r)"
  | e t ms where "skipWs cs = e # t" and "jsonMembers f (Suc d) (e # t) = Some (ms, r)"
  using assms by (cases "skipWs cs") (auto split: if_splits)

lemma jsonElems_step:
  assumes "jsonElems (Suc f) d s = Some (vs, r)"
  obtains v t c cs where "jsonValue f d s = Some (v, t)" and "skipWs t = c # cs"
    and "r = cs \<or> (\<exists>us. jsonElems f d (skipWs cs) = Some (us, r))"
  using assms by (auto split: option.splits list.splits if_splits)

lemma jsonMembers_step:
  assumes "jsonMembers (Suc f) d s = Some (ms, r)"
  obtains q t k t1 c t2 v t3 e t4 where "s = q # t" and "jsonString t = Some (k, t1)"
    and "skipWs t1 = c # t2" and "jsonValue f d (skipWs t2) = Some (v, t3)" and "skipWs t3 = e # t4"
    and "r = t4 \<or> (\<exists>us. jsonMembers f d (skipWs t4) = Some (us, r))"
  using assms by (auto split: option.splits list.splits if_splits)

lemma json_length:
  shows jsonValue_length: "jsonValue f d s = Some (v, r) \<Longrightarrow> length r < length s"
    and jsonElems_length: "jsonElems f d s = Some (vs, r) \<Longrightarrow> length r < length s"
    and jsonMembers_length: "jsonMembers f d s = Some (ms, r) \<Longrightarrow> length r < length s"
proof (induction f arbitrary: d s v vs ms r)
  case (Suc f)
  {
    case 1
    then obtain c cs where s: "s = c # cs" by (cases s) auto
    show ?case
    proof (cases "c = CHR ''['' \<or> c = CHR ''{''")
      case True
      with 1 s have "length r < length (skipWs cs)"
        by (auto elim!: jsonValue_nested dest: Suc simp del: jsonValue.simps)
      then show ?thesis using skipWs_length [of cs] s by simp
    next
      case False
      with 1 s show ?thesis using jsonValue_other_length [of f d c cs v r] by simp
    qed
  next
    case 2
    then obtain v t c cs where v: "jsonValue f d s = Some (v, t)" "skipWs t = c # cs"
      "r = cs \<or> (\<exists>us. jsonElems f d (skipWs cs) = Some (us, r))"
      by (rule jsonElems_step)
    then have "length r \<le> length cs" using Suc(2) skipWs_length [of cs] by fastforce
    then show ?case using Suc(1) [OF v(1)] skipWs_Cons_length [OF v(2)] by linarith
  next
    case 3
    then obtain q t k t1 c t2 v t3 e t4 where m: "s = q # t" "jsonString t = Some (k, t1)"
      "skipWs t1 = c # t2" "jsonValue f d (skipWs t2) = Some (v, t3)" "skipWs t3 = e # t4"
      "r = t4 \<or> (\<exists>us. jsonMembers f d (skipWs t4) = Some (us, r))"
      by (rule jsonMembers_step)
    then have "length r \<le> length t4" using Suc(3) skipWs_length [of t4] by fastforce
    then show ?case
      using Suc(1) [OF m(4)] skipWs_Cons_length [OF m(5)] skipWs_Cons_length [OF m(3)] skipWs_length [of t2]
        jsonString_length [OF m(2)] m(1)
      by simp
  }
qed simp_all

text \<open>
  With fuel beyond twice the length of the text the result does not depend on the fuel:
  a document is refused for its syntax or its depth only.
\<close>

lemma json_fuel:
  shows jsonValue_fuel: "2 * length s + 1 \<le> f \<Longrightarrow> 2 * length s + 1 \<le> g \<Longrightarrow> jsonValue f d s = jsonValue g d s"
    and jsonElems_fuel: "2 * length s + 2 \<le> f \<Longrightarrow> 2 * length s + 2 \<le> g \<Longrightarrow> jsonElems f d s = jsonElems g d s"
    and jsonMembers_fuel: "2 * length s + 2 \<le> f \<Longrightarrow> 2 * length s + 2 \<le> g \<Longrightarrow> jsonMembers f d s = jsonMembers g d s"
proof (induction f arbitrary: g d s)
  case (Suc f)
  {
    case 1
    then obtain g' where g: "g = Suc g'" by (cases g) auto
    show ?case
    proof (cases s)
      case (Cons c cs)
      have "jsonElems f (Suc d) (e # t) = jsonElems g' (Suc d) (e # t)"
        and "jsonMembers f (Suc d) (e # t) = jsonMembers g' (Suc d) (e # t)"
        if "skipWs cs = e # t" for e t
        using that 1 g Cons skipWs_length [of cs] Suc(2) [of "e # t" g' "Suc d"] Suc(3) [of "e # t" g' "Suc d"]
        by auto
      then show ?thesis by (cases "skipWs cs") (simp_all add: g Cons)
    qed (simp add: g)
  next
    case 2
    then obtain g' where g: "g = Suc g'" by (cases g) auto
    have v: "jsonValue f d s = jsonValue g' d s" using Suc(1) [of s g' d] 2 g by simp
    have "jsonElems f d (skipWs cs) = jsonElems g' d (skipWs cs)"
      if "jsonValue g' d s = Some (v, t)" "skipWs t = c # cs" for v t c cs
      using Suc(2) [of "skipWs cs" g' d] 2 g skipWs_length [of cs] skipWs_Cons_length [OF that(2)]
        jsonValue_length [OF that(1)]
      by simp
    then show ?case by (auto simp: g v split: option.splits list.splits)
  next
    case 3
    then obtain g' where g: "g = Suc g'" by (cases g) auto
    have v: "jsonValue f d (skipWs t2) = jsonValue g' d (skipWs t2)"
      if "s = q # t" "jsonString t = Some (k, t1)" "skipWs t1 = c # t2" for q t k t1 c t2
      using Suc(1) [of "skipWs t2" g' d] 3 g that(1) skipWs_length [of t2] skipWs_Cons_length [OF that(3)]
        jsonString_length [OF that(2)]
      by simp
    have m: "jsonMembers f d (skipWs t4) = jsonMembers g' d (skipWs t4)"
      if "s = q # t" "jsonString t = Some (k, t1)" "skipWs t1 = c # t2"
        "jsonValue g' d (skipWs t2) = Some (v, t3)" "skipWs t3 = e # t4" for q t k t1 c t2 v t3 e t4
      using Suc(3) [of "skipWs t4" g' d] 3 g that(1) skipWs_length [of t4] skipWs_length [of t2]
        skipWs_Cons_length [OF that(5)] skipWs_Cons_length [OF that(3)] jsonString_length [OF that(2)]
        jsonValue_length [OF that(4)]
      by simp
    show ?case by (auto simp: g v m split: option.splits list.splits)
  }
qed simp_all

corollary json_fuel_irrelevant: "jsonFuel s \<le> f \<Longrightarrow> jsonValue f 0 (skipWs s) = jsonValue (jsonFuel s) 0 (skipWs s)"
  by (rule jsonValue_fuel) (use skipWs_length [of s] in \<open>simp_all add: jsonFuel_def\<close>)

end
