(* ===== verification/World.thy ===== *)
theory World
  imports Metrics GoJson
begin

text \<open>
  The data shared by the worker's layers and the world its objects live in.

  \<open>internal/types\<close> and \<open>internal/providers/payeedaemon/types.go\<close> are the records below.
  Go's interface values hold references to shared objects; here an operation of an
  interface is a function that takes the world and returns its result and the world
  after it. The world has the state behind the payment daemon's client (\<open>'d\<close>), the
  state behind the backend client (\<open>'b\<close>), the tokenizer's cache, the number of taken
  slots of the paid-route semaphore, and the log of calls in program order: the calls
  on the metrics recorder, and, as ghost entries, the calls the HTTP layer makes on the
  payment daemon with the daemon's replies, and its dispatches to a module.
\<close>

section \<open>Types\<close>

type_synonym CapabilityID = string
type_synonym ModelID = string
type_synonym WorkUnit = string
type_synonym WorkID = string

abbreviation WorkUnitToken :: WorkUnit where "WorkUnitToken \<equiv> ''token''"
abbreviation WorkUnitCharacter :: WorkUnit where "WorkUnitCharacter \<equiv> ''character''"
abbreviation WorkUnitAudioSecond :: WorkUnit where "WorkUnitAudioSecond \<equiv> ''audio_second''"
abbreviation WorkUnitImageStepMegapixel :: WorkUnit where "WorkUnitImageStepMegapixel \<equiv> ''image_step_megapixel''"
abbreviation WorkUnitVideoFrameMegapixel :: WorkUnit where "WorkUnitVideoFrameMegapixel \<equiv> ''video_frame_megapixel''"

abbreviation PaymentHeaderName :: string where "PaymentHeaderName \<equiv> ''livepeer-payment''"

record OpenSessionRequest =
  os_WorkID :: string
  os_Capability :: string
  os_Offering :: string
  os_PricePerWorkUnitWei :: int
  os_WorkUnit :: string

record OpenSessionResult =
  or_Opened :: bool
  or_AlreadyOpen :: bool

record ProcessPaymentResult =
  pp_Sender :: bytes
  pp_CreditedEVWei :: int
  pp_BalanceWei :: int
  pp_WinnersQueued :: int

record DebitBalanceResult =
  db_BalanceWei :: int

record CloseSessionResult =
  cs_Closed :: bool
  cs_AlreadyClosed :: bool

record OfferingPrice =
  op_ID :: string
  op_PricePerWorkUnitWei :: string

record DaemonCapability =
  dc_Capability :: string
  dc_WorkUnit :: string
  dc_Offerings :: "OfferingPrice list"

record ListCapabilitiesResult =
  lc_Capabilities :: "DaemonCapability list"

record TicketExpirationParams =
  te_CreationRound :: int
  te_CreationRoundBlockHash :: bytes

record TicketParams =
  tp_Recipient :: bytes
  tp_FaceValueWei :: bytes
  tp_WinProb :: bytes
  tp_RecipientRandHash :: bytes
  tp_Seed :: bytes
  tp_ExpirationBlock :: bytes
  tp_ExpirationParams :: TicketExpirationParams

record GetQuoteResult =
  gq_TicketParams :: TicketParams
  gq_OfferingPrices :: "OfferingPrice list"

record GetTicketParamsRequest =
  gt_Sender :: bytes
  gt_Recipient :: bytes
  gt_FaceValue :: int
  gt_Capability :: string
  gt_Offering :: string

section \<open>The world\<close>

datatype rpc =
    RpcOpenSession OpenSessionRequest
  | RpcProcessPayment bytes string
  | RpcDebitBalance bytes string int
  | RpcCloseSession bytes string
  | RpcGetTicketParams GetTicketParamsRequest

datatype reply =
    ReplyErr Err
  | ReplyOpened OpenSessionResult
  | ReplyProcessed ProcessPaymentResult
  | ReplyBalance int
  | ReplyClosed CloseSessionResult
  | ReplyTicketParams TicketParams

text \<open>
  An entry of the log: a call on the recorder, a call on the daemon with its reply, or
  the dispatch of a request to a module (the capability and the backend URL).
\<close>

datatype call =
    Metric metric
  | Rpc rpc reply
  | Dispatch string string

record ('d, 'b) World =
  w_daemon :: 'd
  w_backend :: 'b
  w_modelEnc :: "string \<rightharpoonup> string option"
  w_sem :: nat
  w_calls :: "call list"

definition emit :: "metric \<Rightarrow> ('d, 'b) World \<Rightarrow> ('d, 'b) World" where
  "emit m w = w\<lparr>w_calls := w_calls w @ [Metric m]\<rparr>"

definition note_call :: "call \<Rightarrow> ('d, 'b) World \<Rightarrow> ('d, 'b) World" where
  "note_call c w = w\<lparr>w_calls := w_calls w @ [c]\<rparr>"

text \<open>The recorder calls the middleware alone makes.\<close>

fun mw_metric :: "metric \<Rightarrow> bool" where
  "mw_metric (IncRequest _ _ _) = True"
| "mw_metric (ObserveRequest _ _ _) = True"
| "mw_metric (AddWorkUnits _ _ _ _) = True"
| "mw_metric (IncCapacityRejection _) = True"
| "mw_metric (SetInflightRequests _) = True"
| "mw_metric (IncPaymentRejection _) = True"
| "mw_metric _ = False"

text \<open>The two projections of the log: its calls on the daemon and its dispatches, and the
  middleware's own metrics.\<close>

fun is_metric :: "call \<Rightarrow> bool" where
  "is_metric (Metric _) = True"
| "is_metric _ = False"

fun is_mw :: "call \<Rightarrow> bool" where
  "is_mw (Metric m) = mw_metric m"
| "is_mw _ = False"

definition effects :: "call list \<Rightarrow> call list" where
  "effects cs = filter (\<lambda>c. \<not> is_metric c) cs"

definition mwMetrics :: "call list \<Rightarrow> call list" where
  "mwMetrics cs = filter is_mw cs"

text \<open>
  An operation is quiet when, on the log, it only adds recorder calls that are not the
  middleware's, and it leaves the semaphore alone. Every provider and every module of
  the worker is quiet; the middleware alone takes slots and notes effects.
\<close>

definition extends :: "('d, 'b) World \<Rightarrow> ('d, 'b) World \<Rightarrow> bool" where
  "extends w w' \<longleftrightarrow>
     w_sem w' = w_sem w \<and>
     (\<exists>ms. w_calls w' = w_calls w @ map Metric ms \<and> list_all (\<lambda>m. \<not> mw_metric m) ms)"

lemma extendsI:
  "w_sem w' = w_sem w \<Longrightarrow> w_calls w' = w_calls w @ map Metric ms \<Longrightarrow> list_all (\<lambda>m. \<not> mw_metric m) ms \<Longrightarrow>
     extends w w'"
  unfolding extends_def by blast

lemma extends_refl [simp, intro]: "extends w w"
  by (rule extendsI [where ms = "[]"]) simp_all

lemma extends_trans [trans]:
  assumes "extends w w'" and "extends w' w''"
  shows "extends w w''"
proof -
  obtain ms1 where 1: "w_calls w' = w_calls w @ map Metric ms1" "list_all (\<lambda>m. \<not> mw_metric m) ms1"
    using assms(1) extends_def by blast
  obtain ms2 where 2: "w_calls w'' = w_calls w' @ map Metric ms2" "list_all (\<lambda>m. \<not> mw_metric m) ms2"
    using assms(2) extends_def by blast
  show ?thesis
    using assms 1 2 by (intro extendsI [where ms = "ms1 @ ms2"]) (simp_all add: extends_def)
qed

lemma extends_emit [simp]: "\<not> mw_metric m \<Longrightarrow> extends w (emit m w)"
  by (rule extendsI [where ms = "[m]"]) (simp_all add: emit_def)

lemma extends_emit_right: "extends w w' \<Longrightarrow> \<not> mw_metric m \<Longrightarrow> extends w (emit m w')"
  by (rule extends_trans [OF _ extends_emit])

lemma extends_daemon [simp]: "extends w (w\<lparr>w_daemon := d\<rparr>)"
  by (rule extendsI [where ms = "[]"]) simp_all

lemma extends_backend [simp]: "extends w (w\<lparr>w_backend := b\<rparr>)"
  by (rule extendsI [where ms = "[]"]) simp_all

lemma extends_modelEnc [simp]: "extends w (w\<lparr>w_modelEnc := e\<rparr>)"
  by (rule extendsI [where ms = "[]"]) simp_all

lemma effects_append [simp]: "effects (xs @ ys) = effects xs @ effects ys"
  by (simp add: effects_def)

lemma effects_Cons [simp]: "effects (c # cs) = (if is_metric c then effects cs else c # effects cs)"
  by (simp add: effects_def)

lemma effects_Nil [simp]: "effects [] = []"
  by (simp add: effects_def)

lemma effects_metrics [simp]: "effects (map Metric ms) = []"
  by (induction ms) simp_all

lemma mwMetrics_append [simp]: "mwMetrics (xs @ ys) = mwMetrics xs @ mwMetrics ys"
  by (simp add: mwMetrics_def)

lemma mwMetrics_Cons [simp]: "mwMetrics (c # cs) = (if is_mw c then c # mwMetrics cs else mwMetrics cs)"
  by (simp add: mwMetrics_def)

lemma mwMetrics_Nil [simp]: "mwMetrics [] = []"
  by (simp add: mwMetrics_def)

lemma extends_effects: "extends w w' \<Longrightarrow> effects (w_calls w') = effects (w_calls w)"
  by (auto simp: extends_def)

lemma extends_mwMetrics: "extends w w' \<Longrightarrow> mwMetrics (w_calls w') = mwMetrics (w_calls w)"
proof -
  have "list_all (\<lambda>m. \<not> mw_metric m) ms \<Longrightarrow> mwMetrics (map Metric ms) = []" for ms
    by (induction ms) simp_all
  then show "extends w w' \<Longrightarrow> mwMetrics (w_calls w') = mwMetrics (w_calls w)"
    by (auto simp: extends_def)
qed

lemma extends_sem: "extends w w' \<Longrightarrow> w_sem w' = w_sem w"
  by (simp add: extends_def)

lemma emit_frame [simp, frame_simps]:
  "w_daemon (emit m w) = w_daemon w" "w_backend (emit m w) = w_backend w" "w_sem (emit m w) = w_sem w"
  "w_modelEnc (emit m w) = w_modelEnc w" "w_calls (emit m w) = w_calls w @ [Metric m]"
  by (simp_all add: emit_def)

lemma note_call_frame [simp, frame_simps]:
  "w_daemon (note_call c w) = w_daemon w" "w_backend (note_call c w) = w_backend w"
  "w_sem (note_call c w) = w_sem w" "w_modelEnc (note_call c w) = w_modelEnc w"
  "w_calls (note_call c w) = w_calls w @ [c]"
  by (simp_all add: note_call_def)

text \<open>A world for concrete instances.\<close>

abbreviation sampleWorld :: "(unit, unit) World" where
  "sampleWorld \<equiv> \<lparr>w_daemon = (), w_backend = (), w_modelEnc = Map.empty, w_sem = 0, w_calls = []\<rparr>"

end
