(* ===== verification/JsonTrip.thy ===== *)
theory JsonTrip
  imports GoJson
begin

text \<open>
  What \<open>encoding/json\<close> writes, it reads back. The encoder quotes a string rune by rune and
  replaces invalid UTF-8; the decoder undoes the quoting. So a document made by \<open>jsonEnc\<close>
  is read as the value it was made from, up to that replacement (\<open>validJson\<close>), and the rest
  of the text is left alone. The theorem is \<open>jsonUnmarshal_jsonEnc\<close>; the handlers use it for
  the answers they send.
\<close>

section \<open>Runes\<close>

text \<open>\<open>strings.ToValidUTF8\<close> with the replacement character.\<close>

definition toValidUTF8 :: "bytes \<Rightarrow> bytes" where
  "toValidUTF8 s = concat (map (\<lambda>seg. encodeRune (fst seg)) (runes s))"

lemma toValidUTF8_Nil [simp]: "toValidUTF8 [] = []"
  by (simp add: toValidUTF8_def)

lemma toValidUTF8_ascii: "\<forall>c\<in>set s. byteOf c < 0x80 \<Longrightarrow> toValidUTF8 s = s"
proof -
  assume a: "\<forall>c\<in>set s. byteOf c < 0x80"
  then have "map (\<lambda>seg. encodeRune (fst seg)) (runes s) = map (\<lambda>c. [c]) s"
    by (simp add: runes_ascii encodeRune_def)
  then show ?thesis by (simp add: toValidUTF8_def)
qed

text \<open>A first rune is an ASCII byte, an error of one byte, or a sequence of its own length.\<close>

lemma decodeRune_cases:
  assumes "decodeRune (c # cs) = (r, n)"
  obtains (ascii) "byteOf c < 0x80" and "r = byteOf c" and "n = 1"
  | (bad) "0x80 \<le> byteOf c" and "r = runeError" and "n = 1"
  | (two) c1 ds where "0xC2 \<le> byteOf c" and "byteOf c \<le> 0xDF" and "cs = c1 # ds" and "isCont c1"
      and "r = byteOf c mod 32 * 64 + cont6 c1" and "n = 2"
  | (three) c1 c2 ds where "0xE0 \<le> byteOf c" and "byteOf c \<le> 0xEF" and "cs = c1 # c2 # ds" and "second3 c c1"
      and "isCont c2" and "r = byteOf c mod 16 * 4096 + cont6 c1 * 64 + cont6 c2" and "n = 3"
  | (four) c1 c2 c3 ds where "0xF0 \<le> byteOf c" and "byteOf c \<le> 0xF4" and "cs = c1 # c2 # c3 # ds" and "second4 c c1"
      and "isCont c2" and "isCont c3"
      and "r = byteOf c mod 8 * 262144 + cont6 c1 * 4096 + cont6 c2 * 64 + cont6 c3" and "n = 4"
  using assms
  by (auto simp: decodeRune.simps(2) Let_def decode2_def decode3_def decode4_def split: if_splits list.splits)

text \<open>The bytes of a rune decode to it whatever follows them.\<close>

lemma decodeRune_prefix:
  assumes "decodeRune (c # cs) = (r, n)" and "\<not> (r = runeError \<and> n = 1)"
  shows "decodeRune (take n (c # cs) @ t) = (r, n)"
  using assms(1)
proof (cases rule: decodeRune_cases)
  case bad
  with assms(2) show ?thesis by simp
qed (simp_all add: decodeRune.simps(2) decode2_def decode3_def decode4_def)

text \<open>The payload bits of the leading and of the continuation bytes.\<close>

lemma mod_block: "q * m \<le> b \<Longrightarrow> b < q * m + m \<Longrightarrow> b mod m = b - q * (m :: nat)"
proof -
  assume "q * m \<le> b" and "b < q * m + m"
  then have "b - q * m < m" and "b = b - q * m + q * m" by simp_all
  then show ?thesis by (metis mod_less mod_mult_self1)
qed

lemma lead_bits:
  "0xC2 \<le> b \<Longrightarrow> b \<le> 0xDF \<Longrightarrow> b mod 32 = b - (192 :: nat)"
  "0xE0 \<le> b \<Longrightarrow> b \<le> 0xEF \<Longrightarrow> b mod 16 = b - (224 :: nat)"
  "0xF0 \<le> b \<Longrightarrow> b \<le> 0xF4 \<Longrightarrow> b mod 8 = b - (240 :: nat)"
  using mod_block [of 6 32 b] mod_block [of 14 16 b] mod_block [of 30 8 b] by simp_all

lemma isCont_bits: "isCont c \<Longrightarrow> byteOf c = 128 + cont6 c \<and> cont6 c < 64"
  using mod_block [of 2 64 "byteOf c"] by (auto simp: isCont_def cont6_def)

lemma digit64:
  assumes "y < (64 :: nat)"
  shows "(k * 64 + y) div 64 = k" and "(k * 64 + y) mod 64 = y"
  using assms by simp_all

lemma div64_twice: "r div 4096 = r div 64 div (64 :: nat)" and div64_thrice: "r div 262144 = r div 64 div 64 div (64 :: nat)"
  by (simp_all add: div_mult2_eq [symmetric])

lemma second3_bits:
  assumes "second3 c c1"
  shows "byteOf c1 = 128 + cont6 c1 \<and> cont6 c1 < 64 \<and> (byteOf c = 0xE0 \<longrightarrow> 32 \<le> cont6 c1) \<and>
    (byteOf c = 0xED \<longrightarrow> cont6 c1 < 32)"
proof -
  have "isCont c1" using assms by (auto simp: second3_def inRange_def isCont_def split: if_splits)
  then show ?thesis using isCont_bits [of c1] assms by (auto simp: second3_def inRange_def split: if_splits)
qed

lemma second4_bits:
  assumes "second4 c c1"
  shows "byteOf c1 = 128 + cont6 c1 \<and> cont6 c1 < 64 \<and> (byteOf c = 0xF0 \<longrightarrow> 16 \<le> cont6 c1) \<and>
    (byteOf c = 0xF4 \<longrightarrow> cont6 c1 < 16)"
proof -
  have "isCont c1" using assms by (auto simp: second4_def inRange_def isCont_def split: if_splits)
  then show ?thesis using isCont_bits [of c1] assms by (auto simp: second4_def inRange_def split: if_splits)
qed

lemma decodeRune_ascii_only:
  assumes "decodeRune (c # cs) = (r, n)" and "r < 0x80"
  shows "byteOf c = r \<and> n = 1"
  using assms(1)
proof (cases rule: decodeRune_cases)
  case (two c1 ds)
  with assms(2) show ?thesis by (simp add: lead_bits)
next
  case (three c1 c2 ds)
  have "32 \<le> cont6 c1 \<or> 1 \<le> byteOf c - 224" using three second3_bits [of c c1] by (cases "byteOf c = 224") auto
  with three assms(2) show ?thesis by (auto simp: lead_bits)
next
  case (four c1 c2 c3 ds)
  have "16 \<le> cont6 c1 \<or> 1 \<le> byteOf c - 240" using four second4_bits [of c c1] by (cases "byteOf c = 240") auto
  with four assms(2) show ?thesis by (auto simp: lead_bits)
qed (use assms(2) in \<open>simp_all add: runeError_def\<close>)

text \<open>Encoding is the inverse of decoding on well-formed sequences.\<close>

lemma chr_byteOf: "n = byteOf c \<Longrightarrow> chr n = c"
  by simp

lemma encodeRune_decodeRune:
  assumes "decodeRune (c # cs) = (r, n)" and "\<not> (r = runeError \<and> n = 1)"
  shows "encodeRune r = take n (c # cs)"
  using assms(1)
proof (cases rule: decodeRune_cases)
  case (two c1 ds)
  define a where "a = byteOf c - 192"
  have c: "byteOf c = 192 + a" "2 \<le> a" "a < 32" using two by (auto simp: a_def)
  have c1: "byteOf c1 = 128 + cont6 c1" "cont6 c1 < 64" using isCont_bits two by blast+
  have r: "r = a * 64 + cont6 c1" using two by (simp add: lead_bits a_def)
  then have "r div 64 = a" "r mod 64 = cont6 c1" "128 \<le> r" "r < 0x800" using c c1 by auto
  then show ?thesis using two(3,6) c c1 by (simp add: encodeRune_def chr_byteOf)
next
  case (three c1 c2 ds)
  define a where "a = byteOf c - 224"
  have c: "byteOf c = 224 + a" "a < 16" using three by (auto simp: a_def)
  have c1: "byteOf c1 = 128 + cont6 c1" "cont6 c1 < 64" "a = 0 \<longrightarrow> 32 \<le> cont6 c1" "a = 13 \<longrightarrow> cont6 c1 < 32"
    using second3_bits [of c c1] three c by auto
  have c2: "byteOf c2 = 128 + cont6 c2" "cont6 c2 < 64" using isCont_bits three by blast+
  have r: "r = a * 4096 + cont6 c1 * 64 + cont6 c2" using three by (simp add: lead_bits a_def)
  have "r div 64 = a * 64 + cont6 c1" "r mod 64 = cont6 c2" using digit64 [OF c2(2), of "a * 64 + cont6 c1"] r by (simp_all add: algebra_simps)
  then have d: "r div 4096 = a" "r div 64 mod 64 = cont6 c1" "r mod 64 = cont6 c2"
    using digit64 [OF c1(2), of a] by (simp_all add: div64_twice)
  have "0x800 \<le> r" "r < 0x10000" "\<not> (0xD800 \<le> r \<and> r \<le> 0xDFFF)" using r c c1 c2 by (cases "a = 0"; cases "a = 13"; auto)+
  then show ?thesis using three(3,7) c c1 c2 d by (auto simp add: encodeRune_def chr_byteOf)
next
  case (four c1 c2 c3 ds)
  define a where "a = byteOf c - 240"
  have c: "byteOf c = 240 + a" "a < 5" using four by (auto simp: a_def)
  have c1: "byteOf c1 = 128 + cont6 c1" "cont6 c1 < 64" "a = 0 \<longrightarrow> 16 \<le> cont6 c1" "a = 4 \<longrightarrow> cont6 c1 < 16"
    using second4_bits [of c c1] four c by auto
  have c2: "byteOf c2 = 128 + cont6 c2" "cont6 c2 < 64" using isCont_bits four by blast+
  have c3: "byteOf c3 = 128 + cont6 c3" "cont6 c3 < 64" using isCont_bits four by blast+
  have r: "r = a * 262144 + cont6 c1 * 4096 + cont6 c2 * 64 + cont6 c3" using four by (simp add: lead_bits a_def)
  have "r div 64 = (a * 64 + cont6 c1) * 64 + cont6 c2" "r mod 64 = cont6 c3"
    using digit64 [OF c3(2), of "(a * 64 + cont6 c1) * 64 + cont6 c2"] r by (simp_all add: algebra_simps)
  then have d: "r div 262144 = a" "r div 4096 mod 64 = cont6 c1" "r div 64 mod 64 = cont6 c2" "r mod 64 = cont6 c3"
    using digit64 [OF c1(2), of a] digit64 [OF c2(2), of "a * 64 + cont6 c1"] by (simp_all add: div64_twice div64_thrice)
  have "0x10000 \<le> r" "r \<le> 0x10FFFF" using r c c1 c2 c3 by (cases "a = 0"; cases "a = 4"; auto)+
  then show ?thesis using four(3,8) c c1 c2 c3 d by (simp add: encodeRune_def chr_byteOf)
qed (use assms(2) in \<open>simp_all add: encodeRune_def\<close>)

theorem toValidUTF8_valid: "utf8Valid s \<Longrightarrow> toValidUTF8 s = s"
proof (induction s rule: runes.induct)
  case (2 c cs)
  obtain r n where d: "decodeRune (c # cs) = (r, n)" by fastforce
  have n: "0 < n" "n \<le> length (c # cs)" using decodeRune_width [of c cs] d by auto
  with 2(2) d have "\<not> (r = runeError \<and> n = 1)" and "utf8Valid (drop n (c # cs))"
    by (auto simp: utf8Valid_def)
  with 2(1) [OF d [symmetric] refl] encodeRune_decodeRune [OF d] have
    "toValidUTF8 (drop n (c # cs)) = drop n (c # cs)" "encodeRune r = take n (c # cs)" by auto
  then show ?case using d by (simp add: toValidUTF8_def)
qed simp

section \<open>Strings\<close>

lemma unhex_zero: "unhex (CHR ''0'') = Some 0"
  by (simp add: unhex_def)

lemma hex4_00:
  assumes "r < 256"
  shows "hex4 (CHR ''0'' # CHR ''0'' # hexDigit (r div 16) # hexDigit (r mod 16) # t) = Some (r, t)"
proof -
  have "r div 16 < 16" using assms by simp
  then show ?thesis by (simp add: hex4_def unhex_zero unhex_hexDigit)
qed

lemma hex4_special:
  "hex4 (''fffd'' @ t) = Some (runeError, t)"
  "hex4 (''2028'' @ t) = Some (0x2028, t)"
  "hex4 (''2029'' @ t) = Some (0x2029, t)"
  by (simp_all add: hex4_def unhex_def runeError_def)

text \<open>One quoted rune is read as the rune.\<close>

abbreviation (input) addRune :: "nat \<Rightarrow> (bytes \<times> bytes) option \<Rightarrow> (bytes \<times> bytes) option" where
  "addRune r \<equiv> map_option (\<lambda>(o2, r2). (encodeRune r @ o2, r2))"

lemma jsonString_backslash:
  "jsonEscape cs = Some (out, rest) \<Longrightarrow>
     jsonString (CHR 0x5C # cs) = map_option (\<lambda>(o2, r2). (out @ o2, r2)) (jsonString rest)"
  by simp

lemma jsonEscape_u:
  assumes "hex4 cs = Some (r, t)" and "\<not> isSurrogate r"
  shows "jsonEscape (CHR ''u'' # cs) = Some (encodeRune r, t)"
  using assms by (simp add: jsonEscape_def jsonUEscape_def)

lemma jsonString_plain:
  assumes "decodeRune (c # cs) = (r, n)" and "32 \<le> byteOf c" and "c \<noteq> CHR 0x22" and "c \<noteq> CHR 0x5C"
    and "\<not> (r = runeError \<and> n = 1)"
  shows "jsonString (take n (c # cs) @ t) = addRune r (jsonString t)"
proof -
  have n: "0 < n" "n \<le> length (c # cs)" using decodeRune_width [of c cs] assms(1) by auto
  then obtain u where u: "take n (c # cs) = c # u" by (cases n) auto
  then have l: "length (c # u) = n" using n by (metis length_take min.absorb2)
  have d: "decodeRune (c # u @ t) = (r, n)" using decodeRune_prefix [OF assms(1,5), of t] u by simp
  have "drop n (c # u @ t) = t" using l by (metis append_Cons append_eq_conv_conj)
  then show ?thesis using assms d u by simp
qed

lemma quoteSeg_short:
  assumes "r \<in> {0x22, 0x5C, 8, 12, 10, 13, 9}"
  obtains x where "quoteSeg (r, bs) = [CHR 0x5C, x]" and "jsonEscape (x # t) = Some ([chr r], t)"
proof -
  have q: "chr 0x22 = CHR 0x22" "chr 0x5C = CHR 0x5C" by code_simp+
  consider "r = 0x22" | "r = 0x5C" | "r = 8" | "r = 12" | "r = 10" | "r = 13" | "r = 9" using assms by auto
  then show ?thesis
    using that [of "CHR 0x22"] that [of "CHR 0x5C"] that [of "CHR ''b''"] that [of "CHR ''f''"]
      that [of "CHR ''n''"] that [of "CHR ''r''"] that [of "CHR ''t''"]
    by cases (simp_all add: quoteSeg_def jsonEscape_def q)
qed

lemma jsonString_quoteSeg:
  assumes "decodeRune (c # cs) = (r, n)"
  shows "jsonString (quoteSeg (r, take n (c # cs)) @ t) = addRune r (jsonString t)"
proof -
  have n: "0 < n" "n \<le> length (c # cs)" using decodeRune_width [of c cs] assms by auto
  consider (short) "r \<in> {0x22, 0x5C, 8, 12, 10, 13, 9}"
    | (u) "r \<notin> {0x22, 0x5C, 8, 12, 10, 13, 9}" "r < 32 \<or> r = 0x3C \<or> r = 0x3E \<or> r = 0x26"
    | (bad) "r = runeError" "n = 1"
    | (sep) "r = 0x2028 \<or> r = 0x2029"
    | (plain) "32 \<le> r" "r \<notin> {0x22, 0x5C, 0x3C, 0x3E, 0x26, 0x2028, 0x2029}" "\<not> (r = runeError \<and> n = 1)"
    by (cases "r \<in> {0x22, 0x5C, 8, 12, 10, 13, 9}"; cases "32 \<le> r"; auto)
  then show ?thesis
  proof cases
    case short
    then obtain x where x: "quoteSeg (r, take n (c # cs)) = [CHR 0x5C, x]" "jsonEscape (x # t) = Some ([chr r], t)"
      by (rule quoteSeg_short)
    have "encodeRune r = [chr r]" using short by (auto simp: encodeRune_def)
    with x show ?thesis using jsonString_backslash [OF x(2)] by simp
  next
    case u
    then have r: "r < 256" "\<not> isSurrogate r" by (auto simp: isSurrogate_def)
    have q: "quoteSeg (r, take n (c # cs)) @ t =
        CHR 0x5C # CHR ''u'' # CHR ''0'' # CHR ''0'' # hexDigit (r div 16) # hexDigit (r mod 16) # t"
      using u by (simp add: quoteSeg_def Let_def)
    show ?thesis unfolding q by (rule jsonString_backslash [OF jsonEscape_u [OF hex4_00 [OF r(1)] r(2)]])
  next
    case bad
    have q: "quoteSeg (runeError, take n (c # cs)) @ t = CHR 0x5C # CHR ''u'' # ''fffd'' @ t"
      using bad by (simp add: quoteSeg_def Let_def runeError_def)
    have s: "\<not> isSurrogate runeError" by (simp add: isSurrogate_def runeError_def)
    show ?thesis unfolding bad(1) q by (rule jsonString_backslash [OF jsonEscape_u [OF hex4_special(1) s]])
  next
    case sep
    then have s: "\<not> isSurrogate r" and r: "r \<noteq> runeError" by (auto simp: isSurrogate_def runeError_def)
    have "\<exists>h. quoteSeg (r, take n (c # cs)) @ t = CHR 0x5C # CHR ''u'' # h @ t \<and> hex4 (h @ t) = Some (r, t)"
      using sep r hex4_special [of t] by (auto simp: quoteSeg_def Let_def runeError_def)
    then obtain h where q: "quoteSeg (r, take n (c # cs)) @ t = CHR 0x5C # CHR ''u'' # h @ t" "hex4 (h @ t) = Some (r, t)"
      by blast
    show ?thesis unfolding q(1) by (rule jsonString_backslash [OF jsonEscape_u [OF q(2) s]])
  next
    case plain
    have q: "quoteSeg (r, take n (c # cs)) = take n (c # cs)"
      using plain n by (auto simp: quoteSeg_def Let_def)
    have c: "32 \<le> byteOf c \<and> c \<noteq> CHR 0x22 \<and> c \<noteq> CHR 0x5C"
    proof (cases "byteOf c < 0x80")
      case True
      then have "r = byteOf c" using assms by (simp add: decodeRune_ascii)
      then show ?thesis using plain by auto
    qed auto
    show ?thesis unfolding q using assms c plain(3) by (intro jsonString_plain) auto
  qed
qed

lemma jsonString_quoted:
  "jsonString (concat (map quoteSeg (runes s)) @ CHR 0x22 # rest) = Some (toValidUTF8 s, rest)"
proof (induction s rule: runes.induct)
  case (2 c cs)
  obtain r n where d: "decodeRune (c # cs) = (r, n)" by fastforce
  from 2 [OF d [symmetric] refl] have
    ih: "jsonString (concat (map quoteSeg (runes (drop n (c # cs)))) @ CHR 0x22 # rest) =
      Some (toValidUTF8 (drop n (c # cs)), rest)" .
  have "concat (map quoteSeg (runes (c # cs))) =
      quoteSeg (r, take n (c # cs)) @ concat (map quoteSeg (runes (drop n (c # cs))))"
    using d by simp
  moreover have "toValidUTF8 (c # cs) = encodeRune r @ toValidUTF8 (drop n (c # cs))"
    using d by (simp add: toValidUTF8_def)
  ultimately show ?case using jsonString_quoteSeg [OF d] ih by simp
qed simp

section \<open>Numbers\<close>

text \<open>What may follow a number without being read as a part of it.\<close>

definition numEnd :: "bytes \<Rightarrow> bool" where
  "numEnd s \<longleftrightarrow> (case s of [] \<Rightarrow> True | c # _ \<Rightarrow> \<not> isDigit c \<and> c \<noteq> CHR ''.'' \<and> c \<noteq> CHR ''e'' \<and> c \<noteq> CHR ''E'')"

definition numLit :: "string \<Rightarrow> bool" where
  "numLit n \<longleftrightarrow> jsonNumber n = Some (n, [])"

lemma numEnd_simps [simp]: "numEnd []" "numEnd (CHR '','' # s)" "numEnd (CHR '']'' # s)" "numEnd (CHR ''}'' # s)"
  "numEnd (CHR 0x0A # s)"
  by (simp_all add: numEnd_def isDigit_def)

lemma digits_append:
  assumes "numEnd rest"
  shows "digits (s @ rest) = digits s" and "drop (length (digits s)) (s @ rest) = drop (length (digits s)) s @ rest"
proof -
  have "takeWhile isDigit rest = []" using assms by (auto simp: numEnd_def split: list.splits)
  then show d: "digits (s @ rest) = digits s"
    by (cases "\<forall>c\<in>set s. isDigit c") (auto simp: digits_def takeWhile_append takeWhile_eq_all_conv [THEN iffD2])
  have "length (digits s) \<le> length s" by (simp add: digits_def length_takeWhile_le)
  then show "drop (length (digits s)) (s @ rest) = drop (length (digits s)) s @ rest" by simp
qed

lemma scan_append:
  assumes "numEnd rest"
  shows scanInt_append: "scanInt s = Some (i, t) \<Longrightarrow> scanInt (s @ rest) = Some (i, t @ rest)"
    and scanFrac_append: "scanFrac s = Some (i, t) \<Longrightarrow> scanFrac (s @ rest) = Some (i, t @ rest)"
    and scanExp_append: "scanExp s = Some (i, t) \<Longrightarrow> scanExp (s @ rest) = Some (i, t @ rest)"
proof -
  note dg = digits_append [OF assms]
  have "scanInt (c # cs @ rest) = map_option (\<lambda>(i, t). (i, t @ rest)) (scanInt (c # cs))" for c cs
    by (simp add: scanInt_def dg [of "c # cs", simplified append_Cons] del: drop_append)
  then show "scanInt (s @ rest) = Some (i, t @ rest)" if "scanInt s = Some (i, t)"
    using that by (cases s) (auto simp: scanInt_def)
  show "scanFrac (s @ rest) = Some (i, t @ rest)" if "scanFrac s = Some (i, t)"
    using that dg [of "tl s"] assms
    by (cases s) (auto simp: scanFrac_def numEnd_def split: list.splits if_splits)
  have sg: "scanSign (u @ rest) = (fst (scanSign u), snd (scanSign u) @ rest)" if "digits (snd (scanSign u)) \<noteq> []" for u
    using that by (cases u) (auto simp: scanSign_def digits_def)
  show "scanExp (s @ rest) = Some (i, t @ rest)" if "scanExp s = Some (i, t)"
    using that dg [of "snd (scanSign (tl s))"] sg [of "tl s"] assms
    by (cases s) (auto simp: scanExp_def numEnd_def Let_def split: list.splits if_splits prod.splits)
qed

lemma jsonNumber_append:
  assumes "jsonNumber n = Some (m, t)" and "numEnd rest"
  shows "jsonNumber (n @ rest) = Some (m, t @ rest)"
proof -
  define sg where "sg = (if hasPrefix ''-'' n then ''-'' else [])"
  define u where "u = (if hasPrefix ''-'' n then drop 1 n else n)"
  have split: "(case n of c # cs \<Rightarrow> if c = CHR ''-'' then ([c], cs) else ([], n) | [] \<Rightarrow> ([], n)) = (sg, u)"
    by (auto simp: sg_def u_def hasPrefix_def split: list.splits)
  then obtain i t1 f t2 e where i: "scanInt u = Some (i, t1)" and f: "scanFrac t1 = Some (f, t2)"
    and e: "scanExp t2 = Some (e, t)" and m: "m = sg @ i @ f @ e"
    using assms(1) by (auto simp: jsonNumber_def split: option.splits)
  have "n \<noteq> []" using i split by (auto simp: scanInt_def split: list.splits)
  then have "(case n @ rest of c # cs \<Rightarrow> if c = CHR ''-'' then ([c], cs) else ([], n @ rest) | [] \<Rightarrow> ([], n @ rest)) = (sg, u @ rest)"
    using split by (auto split: list.splits if_splits)
  then show ?thesis
    using scanInt_append [OF assms(2) i] scanFrac_append [OF assms(2) f] scanExp_append [OF assms(2) e] m
    by (simp add: jsonNumber_def)
qed

lemma numLit_head:
  assumes "numLit n"
  obtains c cs where "n = c # cs" and "isDigit c \<or> c = CHR ''-''"
proof (cases n)
  case Nil
  with assms show ?thesis by (simp add: numLit_def jsonNumber_def scanInt_def)
next
  case (Cons c cs)
  with assms have "isDigit c \<or> c = CHR ''-''"
    by (auto simp: numLit_def jsonNumber_def scanInt_def isDigit_def split: option.splits if_splits list.splits)
  with Cons show ?thesis using that by blast
qed

lemma showNat_zero_head: "showNat n = CHR ''0'' # cs \<Longrightarrow> n = 0 \<and> cs = []"
proof (induction n arbitrary: cs rule: showNat.induct)
  case (1 n)
  show ?case
  proof (cases "n < 10")
    case True
    with 1(2) have "digitChar n = CHR ''0''" and c: "cs = []" by (simp_all add: showNat.simps [of n])
    then have "digitVal (digitChar n) = 0" by (simp add: digitVal_def)
    with digitChar_facts(2) [OF True] c show ?thesis by simp
  next
    case False
    obtain x xs where x: "showNat (n div 10) = x # xs" using showNat_nonempty [of "n div 10"] by (cases "showNat (n div 10)") auto
    with False 1(2) have "x = CHR ''0''" by (simp add: showNat.simps [of n])
    with 1(1) [OF False] x have "n div 10 = 0" by blast
    with False show ?thesis by (simp add: div_eq_0_iff)
  qed
qed

lemma scanInt_showNat: "scanInt (showNat n) = Some (showNat n, [])"
proof -
  obtain c cs where s: "showNat n = c # cs" using showNat_nonempty [of n] by (cases "showNat n") auto
  have all: "\<forall>x\<in>set (c # cs). isDigit x" using showNat_digits [of _ n] s by auto
  then have "digits (c # cs) = c # cs" by (simp add: digits_def takeWhile_eq_all_conv)
  then show ?thesis using all showNat_zero_head [of n cs] s by (auto simp: scanInt_def)
qed

lemma numLit_showInt: "numLit (showInt i)"
proof -
  have empty: "scanFrac [] = Some ([], [])" "scanExp [] = Some ([], [])" by (simp_all add: scanFrac_def scanExp_def)
  show ?thesis
  proof (cases "i < 0")
    case True
    then show ?thesis by (simp add: numLit_def jsonNumber_def showInt_def scanInt_showNat empty)
  next
    case False
    obtain c cs where s: "showNat (nat i) = c # cs" using showNat_nonempty [of "nat i"] by (cases "showNat (nat i)") auto
    then have "isDigit c" using showNat_digits [of c "nat i"] by simp
    then have "c \<noteq> CHR ''-''" by (metis not_digit_sign(1))
    with False show ?thesis
      using scanInt_showNat [of "nat i"] by (simp add: numLit_def jsonNumber_def showInt_def s empty)
  qed
qed

section \<open>Documents\<close>

text \<open>The value as a reader gets it, and the values the encoder can write: number literals, and no
  deeper than the decoder goes.\<close>

fun validJson :: "json \<Rightarrow> json" where
  "validJson (JStr s) = JStr (toValidUTF8 s)"
| "validJson (JArr vs) = JArr (map validJson vs)"
| "validJson (JObj ms) = JObj (map (\<lambda>m. (toValidUTF8 (fst m), validJson (snd m))) ms)"
| "validJson v = v"

fun jsonFits :: "nat \<Rightarrow> json \<Rightarrow> bool" where
  "jsonFits d (JNum n) \<longleftrightarrow> numLit n"
| "jsonFits d (JArr vs) \<longleftrightarrow> d < maxNestingDepth \<and> list_all (jsonFits (Suc d)) vs"
| "jsonFits d (JObj ms) \<longleftrightarrow> d < maxNestingDepth \<and> list_all (\<lambda>m. jsonFits (Suc d) (snd m)) ms"
| "jsonFits d v \<longleftrightarrow> True"

abbreviation (input) enc :: "json \<Rightarrow> string" where
  "enc \<equiv> jsonEnc (\<lambda>n. n)"

text \<open>The parser reads \<open>v\<close> off the front of any text, given fuel enough.\<close>

definition reads :: "nat \<Rightarrow> json \<Rightarrow> bool" where
  "reads d v \<longleftrightarrow> (\<forall>rest. numEnd rest \<longrightarrow> (\<exists>F. \<forall>f\<ge>F. jsonValue f d (enc v @ rest) = Some (validJson v, rest)))"

lemma readsD: "reads d v \<Longrightarrow> numEnd rest \<Longrightarrow> \<exists>F. \<forall>f\<ge>F. jsonValue f d (enc v @ rest) = Some (validJson v, rest)"
  unfolding reads_def by blast

lemma skipWs_simps [simp]: "\<not> isWs c \<Longrightarrow> skipWs (c # cs) = c # cs"
  by (simp add: skipWs_def)

lemma isWs_simps [simp]: "\<not> isWs (CHR '','')" "\<not> isWs (CHR '']'')" "\<not> isWs (CHR ''}'')" "\<not> isWs (CHR '':'')"
  "\<not> isWs (CHR 0x22)" "\<not> isWs (CHR ''['')" "\<not> isWs (CHR ''{'')" "\<not> isWs (CHR ''t'')" "\<not> isWs (CHR ''f'')"
  "\<not> isWs (CHR ''n'')" "\<not> isWs (CHR ''-'')" "isWs (CHR 0x0A)"
  by code_simp+

lemma isDigit_head: "isDigit c \<Longrightarrow> \<not> isWs c \<and> c \<noteq> CHR '']'' \<and> c \<noteq> CHR ''}''"
  by (auto simp: isDigit_def isWs_def)

text \<open>A text that begins a value: neither a blank nor a closing bracket.\<close>

definition opens :: "bytes \<Rightarrow> bool" where
  "opens s \<longleftrightarrow> (case s of [] \<Rightarrow> False | c # _ \<Rightarrow> \<not> isWs c \<and> c \<noteq> CHR '']'' \<and> c \<noteq> CHR ''}'')"

lemma opens_append: "opens s \<Longrightarrow> opens (s @ t)"
  by (auto simp: opens_def split: list.splits)

lemma opens_skip: "opens s \<Longrightarrow> skipWs s = s"
  by (auto simp: opens_def split: list.splits)

lemma opens_enc:
  assumes "jsonFits d v"
  shows "opens (enc v)"
proof (cases v)
  case (JNum n)
  with assms have "numLit n" by simp
  then show ?thesis
    by (rule numLit_head) (auto simp: JNum opens_def dest: isDigit_head)
qed (simp_all add: opens_def jsonQuote_def)

lemma commaSep_Cons: "commaSep (x # y # ys) = x @ CHR '','' # commaSep (y # ys)"
  by (simp add: commaSep_def)

lemma commaSep_single [simp]: "commaSep [x] = x"
  by (simp add: commaSep_def)

lemma opens_commaSep: "opens x \<Longrightarrow> opens (commaSep (x # xs) @ t)"
  by (simp add: commaSep_def opens_append)

lemma jsonElems_enc:
  assumes "vs \<noteq> []" and "\<forall>v\<in>set vs. reads d v \<and> opens (enc v)"
  shows "\<exists>F. \<forall>f\<ge>F. jsonElems f d (commaSep (map enc vs) @ CHR '']'' # rest) = Some (map validJson vs, rest)"
  using assms
proof (induction vs rule: list_nonempty_induct)
  case (single v)
  obtain F where F: "\<And>f. F \<le> f \<Longrightarrow> jsonValue f d (enc v @ CHR '']'' # rest) = Some (validJson v, CHR '']'' # rest)"
    using readsD [of d v "CHR '']'' # rest"] single by auto
  have "jsonElems f d (enc v @ CHR '']'' # rest) = Some ([validJson v], rest)" if "Suc F \<le> f" for f
    using that F [of "f - 1"] by (cases f) simp_all
  then show ?case by auto
next
  case (cons v vs)
  obtain w ws where vs: "vs = w # ws" using cons.hyps by (cases vs) auto
  let ?t = "commaSep (map enc vs) @ CHR '']'' # rest"
  obtain F where F: "\<And>f. F \<le> f \<Longrightarrow> jsonValue f d (enc v @ CHR '','' # ?t) = Some (validJson v, CHR '','' # ?t)"
    using readsD [of d v "CHR '','' # ?t"] cons.prems by auto
  obtain G where G: "\<And>f. G \<le> f \<Longrightarrow> jsonElems f d ?t = Some (map validJson vs, rest)" using cons by auto
  have sk: "skipWs ?t = ?t" using cons.prems by (intro opens_skip) (simp add: vs opens_commaSep)
  have "jsonElems f d (enc v @ CHR '','' # ?t) = Some (validJson v # map validJson vs, rest)"
    if "Suc (max F G) \<le> f" for f
    using that F [of "f - 1"] G [of "f - 1"] sk by (cases f) simp_all
  moreover have "commaSep (map enc (v # vs)) @ CHR '']'' # rest = enc v @ CHR '','' # ?t"
    by (simp add: vs commaSep_Cons)
  ultimately show ?case by (metis list.simps(9))
qed

abbreviation (input) encMember :: "bytes \<times> json \<Rightarrow> string" where
  "encMember m \<equiv> jsonQuote (fst m) @ CHR '':'' # enc (snd m)"

lemma jsonMembers_first:
  assumes "reads d (snd m)" and "opens (enc (snd m))" and "numEnd (e # t)" and "\<not> isWs e"
  shows "\<exists>F. \<forall>f\<ge>F. jsonMembers (Suc f) d (encMember m @ e # t) =
    (if e = CHR ''}'' then Some ([(toValidUTF8 (fst m), validJson (snd m))], t)
     else if e = CHR '','' then map_option (\<lambda>(ms, r3). ((toValidUTF8 (fst m), validJson (snd m)) # ms, r3)) (jsonMembers f d (skipWs t))
     else None)"
proof -
  let ?v = "CHR '':'' # enc (snd m) @ e # t"
  obtain F where F: "\<And>f. F \<le> f \<Longrightarrow> jsonValue f d (enc (snd m) @ e # t) = Some (validJson (snd m), e # t)"
    using readsD [OF assms(1,3)] by auto
  have s: "encMember m @ e # t = CHR 0x22 # concat (map quoteSeg (runes (fst m))) @ CHR 0x22 # ?v"
    by (simp add: jsonQuote_def)
  have sk: "skipWs (enc (snd m) @ e # t) = enc (snd m) @ e # t" using assms(2) by (intro opens_skip opens_append)
  show ?thesis
    unfolding s by (rule exI [of _ F]) (simp add: jsonString_quoted sk F assms(4) del: concat.simps)
qed

lemma jsonMembers_enc:
  assumes "ms \<noteq> []" and "\<forall>m\<in>set ms. reads d (snd m) \<and> opens (enc (snd m))"
  shows "\<exists>F. \<forall>f\<ge>F. jsonMembers f d (commaSep (map encMember ms) @ CHR ''}'' # rest) =
    Some (map (\<lambda>m. (toValidUTF8 (fst m), validJson (snd m))) ms, rest)"
  using assms
proof (induction ms rule: list_nonempty_induct)
  case (single m)
  obtain F where F: "\<And>f. F \<le> f \<Longrightarrow> jsonMembers (Suc f) d (encMember m @ CHR ''}'' # rest) =
      Some ([(toValidUTF8 (fst m), validJson (snd m))], rest)"
    using jsonMembers_first [of d m "CHR ''}''" rest] single by auto
  have "jsonMembers f d (encMember m @ CHR ''}'' # rest) = Some ([(toValidUTF8 (fst m), validJson (snd m))], rest)"
    if "Suc F \<le> f" for f
    using that F [of "f - 1"] by (cases f) (simp_all del: jsonMembers.simps)
  then show ?case by auto
next
  case (cons m ms)
  obtain w ws where ms: "ms = w # ws" using cons.hyps by (cases ms) auto
  let ?t = "commaSep (map encMember ms) @ CHR ''}'' # rest" and ?vs = "map (\<lambda>m. (toValidUTF8 (fst m), validJson (snd m))) ms"
  obtain F where F: "\<And>f. F \<le> f \<Longrightarrow> jsonMembers (Suc f) d (encMember m @ CHR '','' # ?t) =
      map_option (\<lambda>(ms, r3). ((toValidUTF8 (fst m), validJson (snd m)) # ms, r3)) (jsonMembers f d (skipWs ?t))"
    using jsonMembers_first [of d m "CHR '',''" ?t] cons.prems by auto
  obtain G where G: "\<And>f. G \<le> f \<Longrightarrow> jsonMembers f d ?t = Some (?vs, rest)" using cons by auto
  have sk: "skipWs ?t = ?t" by (simp add: ms commaSep_def jsonQuote_def)
  have "jsonMembers f d (encMember m @ CHR '','' # ?t) = Some ((toValidUTF8 (fst m), validJson (snd m)) # ?vs, rest)"
    if "Suc (max F G) \<le> f" for f
    using that F [of "f - 1"] G [of "f - 1"] sk by (cases f) (simp_all del: jsonMembers.simps)
  moreover have "commaSep (map encMember (m # ms)) @ CHR ''}'' # rest = encMember m @ CHR '','' # ?t"
    by (simp add: ms commaSep_Cons)
  ultimately show ?case by (metis (no_types, lifting) list.simps(9))
qed

text \<open>An array or an object is its bracket, and then its elements or members.\<close>

lemma jsonValue_brackets:
  assumes "d < maxNestingDepth"
  shows "jsonValue (Suc f) d (CHR ''['' # CHR '']'' # t) = Some (JArr [], t)"
    and "jsonValue (Suc f) d (CHR ''{'' # CHR ''}'' # t) = Some (JObj [], t)"
    and "opens s \<Longrightarrow> jsonValue (Suc f) d (CHR ''['' # s) = map_option (\<lambda>(vs, r2). (JArr vs, r2)) (jsonElems f (Suc d) s)"
    and "opens s \<Longrightarrow> jsonValue (Suc f) d (CHR ''{'' # s) = map_option (\<lambda>(ms, r2). (JObj ms, r2)) (jsonMembers f (Suc d) s)"
  using assms by (auto simp: opens_def split: list.splits)

lemma Suc_fuel: "(\<And>f. F \<le> f \<Longrightarrow> g (Suc f) = y) \<Longrightarrow> \<exists>F. \<forall>f\<ge>F. g f = y"
  by (rule exI [of _ "Suc F"]) (metis Suc_le_D Suc_le_mono)

lemma reads_enc: "jsonFits d v \<Longrightarrow> reads d v"
proof (induction v arbitrary: d)
  case JNull
  show ?case unfolding reads_def by (intro allI impI Suc_fuel [of 0]) (simp add: hasPrefix_def)
next
  case (JBool b)
  show ?case unfolding reads_def by (intro allI impI Suc_fuel [of 0]) (simp add: hasPrefix_def)
next
  case (JNum n)
  then have n: "numLit n" by simp
  then obtain c cs where c: "n = c # cs" "isDigit c \<or> c = CHR ''-''" by (rule numLit_head)
  then have o: "c \<noteq> CHR 0x22" "c \<noteq> CHR ''[''" "c \<noteq> CHR ''{''" "c \<noteq> CHR ''t''" "c \<noteq> CHR ''f''" "c \<noteq> CHR ''n''"
    by (auto simp: isDigit_def)
  have "jsonValue (Suc f) d (n @ rest) = Some (JNum n, rest)" if "numEnd rest" for f rest
    using jsonNumber_append [of n n "[]" rest] n that o by (simp add: c(1) numLit_def hasPrefix_def)
  then show ?case unfolding reads_def by (intro allI impI Suc_fuel [of 0]) simp
next
  case (JStr s)
  show ?case unfolding reads_def
    by (intro allI impI Suc_fuel [of 0]) (simp add: jsonQuote_def jsonString_quoted)
next
  case (JArr vs)
  then have d: "d < maxNestingDepth" and vs: "\<forall>v\<in>set vs. reads (Suc d) v \<and> opens (enc v)"
    by (auto simp: list_all_iff dest: opens_enc)
  show ?case
  proof (cases "vs = []")
    case True
    then show ?thesis unfolding reads_def
      by (intro allI impI Suc_fuel [of 0]) (simp add: commaSep_def jsonValue_brackets [OF d] del: jsonValue.simps)
  next
    case False
    have "\<exists>F. \<forall>f\<ge>F. jsonValue f d (enc (JArr vs) @ rest) = Some (validJson (JArr vs), rest)" for rest
    proof -
      have "opens (commaSep (map enc vs) @ CHR '']'' # rest)"
        using False vs by (cases vs) (auto intro: opens_commaSep)
      moreover obtain F where "\<And>f. F \<le> f \<Longrightarrow>
          jsonElems f (Suc d) (commaSep (map enc vs) @ CHR '']'' # rest) = Some (map validJson vs, rest)"
        using jsonElems_enc [OF False vs] by auto
      ultimately show ?thesis
        by (intro Suc_fuel [of F]) (simp add: jsonValue_brackets [OF d] del: jsonValue.simps)
    qed
    then show ?thesis unfolding reads_def by blast
  qed
next
  case (JObj ms)
  then have d: "d < maxNestingDepth" and ms: "\<forall>m\<in>set ms. reads (Suc d) (snd m) \<and> opens (enc (snd m))"
    by (auto simp: list_all_iff dest: opens_enc)
  show ?case
  proof (cases "ms = []")
    case True
    then show ?thesis unfolding reads_def
      by (intro allI impI Suc_fuel [of 0]) (simp add: commaSep_def jsonValue_brackets [OF d] del: jsonValue.simps)
  next
    case False
    have "\<exists>F. \<forall>f\<ge>F. jsonValue f d (enc (JObj ms) @ rest) = Some (validJson (JObj ms), rest)" for rest
    proof -
      have "opens (commaSep (map encMember ms) @ CHR ''}'' # rest)"
        using False by (cases ms) (simp_all add: commaSep_def opens_def jsonQuote_def)
      moreover obtain F where "\<And>f. F \<le> f \<Longrightarrow>
          jsonMembers f (Suc d) (commaSep (map encMember ms) @ CHR ''}'' # rest) =
            Some (map (\<lambda>m. (toValidUTF8 (fst m), validJson (snd m))) ms, rest)"
        using jsonMembers_enc [OF False ms] by auto
      ultimately show ?thesis
        by (intro Suc_fuel [of F]) (simp add: jsonValue_brackets [OF d] del: jsonValue.simps)
    qed
    then show ?thesis unfolding reads_def by blast
  qed
qed

text \<open>A value written is read back, and what follows it is left for the next read.\<close>

theorem jsonNext_jsonEnc:
  assumes "jsonFits 0 v" and "numEnd rest"
  shows "jsonNext (enc v @ rest) = Some (validJson v, rest)"
proof -
  let ?s = "enc v @ rest"
  obtain F where F: "\<And>f. F \<le> f \<Longrightarrow> jsonValue f 0 ?s = Some (validJson v, rest)"
    using readsD [OF reads_enc [OF assms(1)] assms(2)] by auto
  have sk: "skipWs ?s = ?s" using opens_enc [OF assms(1)] by (intro opens_skip opens_append)
  have "jsonValue (max F (jsonFuel ?s)) 0 (skipWs ?s) = jsonValue (jsonFuel ?s) 0 (skipWs ?s)"
    by (rule json_fuel_irrelevant) simp
  then show ?thesis using F [of "max F (jsonFuel ?s)"] by (simp add: jsonNext_def sk)
qed

corollary jsonUnmarshal_jsonEnc:
  assumes "jsonFits 0 v"
  shows "jsonUnmarshal (enc v @ [CHR 0x0A]) = Some (validJson v)"
  using jsonNext_jsonEnc [OF assms, of "[CHR 0x0A]"] by (simp add: jsonUnmarshal_def skipWs_def)

text \<open>A Go map keeps one value per key, so sorting its members keeps what fits.\<close>

lemma objGet_member: "k \<in> fst ` set ms \<Longrightarrow> \<exists>v. objGet ms k = Some v \<and> (k, v) \<in> set ms"
proof -
  assume "k \<in> fst ` set ms"
  then have "map_of (rev ms) k \<noteq> None" by (simp add: map_of_eq_None_iff)
  then obtain v where "map_of (rev ms) k = Some v" by blast
  then show ?thesis using map_of_SomeD [of "rev ms" k v] by (simp add: objGet_def)
qed

lemma dedupKeys_members:
  assumes "m \<in> set (dedupKeys ms)"
  shows "m \<in> set ms"
proof -
  from assms obtain k where k: "k \<in> fst ` set ms" "m = (k, the (objGet ms k))" by (auto simp: dedupKeys_def)
  then show ?thesis using objGet_member [of k ms] by auto
qed

lemma jsonFits_sort: "jsonFits d v \<Longrightarrow> jsonFits d (jsonSort v)"
proof (induction v arbitrary: d)
  case (JObj ms)
  have "jsonFits (Suc d) (snd m)" if m: "m \<in> set (dedupKeys (map (\<lambda>m. (fst m, jsonSort (snd m))) ms))" for m
  proof -
    from dedupKeys_members [OF m] obtain k v where v: "(k, v) \<in> set ms" "snd m = jsonSort v" by auto
    then have "jsonFits (Suc d) v" using JObj.prems by (auto simp: list_all_iff)
    with v JObj.IH [of "(k, v)" v "Suc d"] show ?thesis by simp
  qed
  then show ?case using JObj.prems by (auto simp: list_all_iff)
qed (auto simp: list_all_iff)

end
