(* ===== verification/Writer.thy ===== *)
theory Writer
  imports World JsonTrip
begin

text \<open>
  The HTTP side of a handler: the request as the handlers read it, \<open>net/http\<close>'s
  response writer, the middleware's \<open>statusWriter\<close> around it, and the two helpers that
  write an error (\<open>writeJSONError\<close> of \<open>middleware.go\<close>, \<open>http.Error\<close>).

  \<open>RespWriter\<close> is what a handler gives to \<open>*http.response\<close>: the header map, the status line with
  the headers sent with it, and the bytes of the body that \<open>Write\<close> took. \<open>net/http\<close> buffers them,
  and so does the socket, so the client receives a prefix of them, and a \<open>Write\<close> after the client left
  may succeed, or fail some writes later; once one has failed all later ones do. \<open>wr_accepts\<close> is the
  number of bytes taken before the first \<open>Write\<close> that returns an error, whatever buffers and
  connection made it that number, \<open>None\<close> if none does: every way a sequence of writes can go is the
  one for some value of it. \<open>WriteHeader\<close> panics on a code
  outside 100..999; the first component of its result says whether it did.

  \<open>RW\<close> is the interface \<open>http.ResponseWriter\<close> plus \<open>http.Flusher\<close>; the locale
  \<open>response_writer\<close> states its contract and is interpreted on the bare writer and on
  \<open>statusWriter\<close>.
\<close>

section \<open>Headers and requests\<close>

type_synonym headers = "(string \<times> string) list"

definition headerSet :: "string \<Rightarrow> string \<Rightarrow> headers \<Rightarrow> headers" where
  "headerSet k v hs = (k, v) # filter (\<lambda>kv. fst kv \<noteq> k) hs"

definition headerDel :: "string \<Rightarrow> headers \<Rightarrow> headers" where
  "headerDel k hs = filter (\<lambda>kv. fst kv \<noteq> k) hs"

text \<open>\<open>Header.Get\<close> returns the first value of a key, up to the case of the key.\<close>

definition headerGet :: "string \<Rightarrow> headers \<Rightarrow> string" where
  "headerGet k hs =
     (case List.find (\<lambda>kv. toLower (fst kv) = toLower k) hs of None \<Rightarrow> [] | Some kv \<Rightarrow> snd kv)"

text \<open>
  A request: its headers, the bytes of its body with the error the connection ends them
  with (none is a clean EOF), and the error of its context when the handler is done.
\<close>

record Request =
  rq_Method :: string
  rq_Path :: string
  rq_Header :: headers
  rq_Body :: bytes
  rq_BodyErr :: "Err option"
  rq_CtxErr :: "Err option"

text \<open>\<open>io.ReadAll(http.MaxBytesReader(w, r.Body, n))\<close>.\<close>

definition errTooLarge :: Err where
  "errTooLarge = errorsNew ''http: request body too large''"

definition readAllMax :: "nat \<Rightarrow> Request \<Rightarrow> Err + bytes" where
  "readAllMax n r =
     (if n < length (rq_Body r) then Inl errTooLarge
      else case rq_BodyErr r of Some e \<Rightarrow> Inl e | None \<Rightarrow> Inr (rq_Body r))"

section \<open>The response writer of net/http\<close>

record RespWriter =
  wr_header :: headers
  wr_sent :: "(int \<times> headers) option"
  wr_informational :: "int list"
  wr_body :: bytes
  wr_flushes :: nat
  wr_accepts :: "nat option"

definition NewRespWriter :: "nat option \<Rightarrow> RespWriter" where
  "NewRespWriter lim =
     \<lparr>wr_header = [], wr_sent = None, wr_informational = [], wr_body = [], wr_flushes = 0, wr_accepts = lim\<rparr>"

definition rawSet :: "string \<Rightarrow> string \<Rightarrow> RespWriter \<Rightarrow> RespWriter" where
  "rawSet k v w = w\<lparr>wr_header := headerSet k v (wr_header w)\<rparr>"

definition rawDel :: "string \<Rightarrow> RespWriter \<Rightarrow> RespWriter" where
  "rawDel k w = w\<lparr>wr_header := headerDel k (wr_header w)\<rparr>"

definition rawWriteHeader :: "int \<Rightarrow> RespWriter \<Rightarrow> bool \<times> RespWriter" where
  "rawWriteHeader code w =
     (if wr_sent w \<noteq> None then (False, w)
      else if code < 100 \<or> 999 < code then (True, w)
      else if code \<le> 199 \<and> code \<noteq> 101 then
        (False, w\<lparr>wr_informational := wr_informational w @ [code]\<rparr>)
      else (False, w\<lparr>wr_sent := Some (code, wr_header w)\<rparr>))"

definition bodyAllowed :: "int \<Rightarrow> bool" where
  "bodyAllowed code \<longleftrightarrow> \<not> (100 \<le> code \<and> code \<le> 199) \<and> code \<noteq> 204 \<and> code \<noteq> 304"

definition errBodyNotAllowed :: Err where
  "errBodyNotAllowed = errorsNew ''http: request method or response status code does not allow body''"

definition errBrokenPipe :: Err where
  "errBrokenPipe = errorsNew ''write: broken pipe''"

text \<open>\<open>Write\<close>: the error of the connection comes with the write that goes beyond what is taken.\<close>

definition rawWrite :: "bytes \<Rightarrow> RespWriter \<Rightarrow> Err option \<times> RespWriter" where
  "rawWrite b w =
     (let w1 = (if wr_sent w = None then snd (rawWriteHeader 200 w) else w) in
      if b = [] then (None, w1)
      else if (case wr_sent w1 of None \<Rightarrow> False | Some (code, _) \<Rightarrow> \<not> bodyAllowed code)
        then (Some errBodyNotAllowed, w1)
      else case wr_accepts w1 of
             None \<Rightarrow> (None, w1\<lparr>wr_body := wr_body w1 @ b\<rparr>)
           | Some n \<Rightarrow>
               if length (wr_body w1 @ b) \<le> n then (None, w1\<lparr>wr_body := wr_body w1 @ b\<rparr>)
               else (Some errBrokenPipe, w1\<lparr>wr_body := take n (wr_body w1 @ b)\<rparr>))"

definition rawFlush :: "RespWriter \<Rightarrow> RespWriter" where
  "rawFlush w =
     (let w1 = (if wr_sent w = None then snd (rawWriteHeader 200 w) else w)
      in w1\<lparr>wr_flushes := wr_flushes w1 + 1\<rparr>)"

section \<open>The middleware's statusWriter\<close>

record statusWriter =
  sw_ResponseWriter :: RespWriter
  sw_status :: int
  sw_wrote :: bool

definition newStatusWriter :: "RespWriter \<Rightarrow> statusWriter" where
  "newStatusWriter w = \<lparr>sw_ResponseWriter = w, sw_status = 0, sw_wrote = False\<rparr>"

definition swMark :: "int \<Rightarrow> statusWriter \<Rightarrow> statusWriter" where
  "swMark code s = (if \<not> sw_wrote s then s\<lparr>sw_status := code, sw_wrote := True\<rparr> else s)"

definition swWriteHeader :: "int \<Rightarrow> statusWriter \<Rightarrow> bool \<times> statusWriter" where
  "swWriteHeader code s =
     (let s1 = swMark code s; (p, w) = rawWriteHeader code (sw_ResponseWriter s1)
      in (p, s1\<lparr>sw_ResponseWriter := w\<rparr>))"

definition swWrite :: "bytes \<Rightarrow> statusWriter \<Rightarrow> Err option \<times> statusWriter" where
  "swWrite b s =
     (let s1 = swMark 200 s; (e, w) = rawWrite b (sw_ResponseWriter s1)
      in (e, s1\<lparr>sw_ResponseWriter := w\<rparr>))"

definition swFlush :: "statusWriter \<Rightarrow> statusWriter" where
  "swFlush s = s\<lparr>sw_ResponseWriter := rawFlush (sw_ResponseWriter s)\<rparr>"

definition swSet :: "string \<Rightarrow> string \<Rightarrow> statusWriter \<Rightarrow> statusWriter" where
  "swSet k v s = s\<lparr>sw_ResponseWriter := rawSet k v (sw_ResponseWriter s)\<rparr>"

definition swDel :: "string \<Rightarrow> statusWriter \<Rightarrow> statusWriter" where
  "swDel k s = s\<lparr>sw_ResponseWriter := rawDel k (sw_ResponseWriter s)\<rparr>"

section \<open>The interface and the error helpers\<close>

record 'w RW =
  rw_Set :: "string \<Rightarrow> string \<Rightarrow> 'w \<Rightarrow> 'w"
  rw_Del :: "string \<Rightarrow> 'w \<Rightarrow> 'w"
  rw_WriteHeader :: "int \<Rightarrow> 'w \<Rightarrow> bool \<times> 'w"
  rw_Write :: "bytes \<Rightarrow> 'w \<Rightarrow> Err option \<times> 'w"
  rw_Flush :: "'w \<Rightarrow> 'w"

definition rawRW :: "RespWriter RW" where
  "rawRW = \<lparr>rw_Set = rawSet, rw_Del = rawDel, rw_WriteHeader = rawWriteHeader, rw_Write = rawWrite,
     rw_Flush = rawFlush\<rparr>"

definition statusRW :: "statusWriter RW" where
  "statusRW = \<lparr>rw_Set = swSet, rw_Del = swDel, rw_WriteHeader = swWriteHeader, rw_Write = swWrite,
     rw_Flush = swFlush\<rparr>"

definition errorJSON :: "string \<Rightarrow> string \<Rightarrow> bytes" where
  "errorJSON code detail =
     jsonMarshalAny (\<lambda>n. n) (JObj [(''error'', JStr code), (''detail'', JStr detail)]) @ [CHR 0x0A]"

definition writeJSONError :: "'w RW \<Rightarrow> int \<Rightarrow> string \<Rightarrow> string \<Rightarrow> 'w \<Rightarrow> 'w" where
  "writeJSONError rw status code detail w =
     (let w1 = rw_Set rw ''Content-Type'' ''application/json'' w;
          w2 = snd (rw_WriteHeader rw status w1)
      in snd (rw_Write rw (errorJSON code detail) w2))"

definition httpError :: "'w RW \<Rightarrow> string \<Rightarrow> int \<Rightarrow> 'w \<Rightarrow> 'w" where
  "httpError rw msg code w =
     (let w1 = rw_Del rw ''Content-Length'' w;
          w2 = rw_Set rw ''Content-Type'' ''text/plain; charset=utf-8'' w1;
          w3 = rw_Set rw ''X-Content-Type-Options'' ''nosniff'' w2;
          w4 = snd (rw_WriteHeader rw code w3)
      in snd (rw_Write rw (msg @ [CHR 0x0A]) w4))"

definition classifyOutcome :: "Err option \<Rightarrow> int \<Rightarrow> string" where
  "classifyOutcome ctxErr status =
     (if (case ctxErr of None \<Rightarrow> False | Some e \<Rightarrow> errorsIs e Canceled \<or> errorsIs e DeadlineExceeded)
        then OutcomeRequestCanceled
      else if 200 \<le> status \<and> status < 300 then OutcomeRequest2xx
      else if status = 402 then OutcomeRequest402
      else if status = 429 then OutcomeRequest4xx
      else if 400 \<le> status \<and> status < 500 then OutcomeRequest4xx
      else if 500 \<le> status \<and> status < 600 then OutcomeRequest5xx
      else if status = 0 then OutcomeRequest5xx
      else OutcomeRequest5xx)"

section \<open>The writer's contract\<close>

text \<open>
  What a handler relies on: the first final status wins and takes the headers set so
  far, later ones change nothing, and a write appends to the body. \<open>sent\<close>, \<open>hdr\<close> and
  \<open>bdy\<close> are what goes on the wire; \<open>open_conn\<close> says the client still reads.
\<close>

locale response_writer =
  fixes rw :: "'w RW"
    and sent :: "'w \<Rightarrow> (int \<times> headers) option"
    and hdr :: "'w \<Rightarrow> headers"
    and bdy :: "'w \<Rightarrow> bytes"
    and open_conn :: "'w \<Rightarrow> bool"
  assumes set_obs: "sent (rw_Set rw k v w) = sent w" "hdr (rw_Set rw k v w) = headerSet k v (hdr w)"
      "bdy (rw_Set rw k v w) = bdy w" "open_conn (rw_Set rw k v w) = open_conn w"
    and del_obs: "sent (rw_Del rw k w) = sent w" "hdr (rw_Del rw k w) = headerDel k (hdr w)"
      "bdy (rw_Del rw k w) = bdy w" "open_conn (rw_Del rw k w) = open_conn w"
    and header_first: "sent w = None \<Longrightarrow> 200 \<le> code \<Longrightarrow> code \<le> 999 \<Longrightarrow>
        \<not> fst (rw_WriteHeader rw code w) \<and> sent (snd (rw_WriteHeader rw code w)) = Some (code, hdr w)"
    and header_again: "sent w \<noteq> None \<Longrightarrow>
        \<not> fst (rw_WriteHeader rw code w) \<and> sent (snd (rw_WriteHeader rw code w)) = sent w"
    and header_body: "bdy (snd (rw_WriteHeader rw code w)) = bdy w"
      "open_conn (snd (rw_WriteHeader rw code w)) = open_conn w"
    and write_sent: "sent w \<noteq> None \<Longrightarrow> sent (snd (rw_Write rw b w)) = sent w"
    and write_body: "sent w = Some (code, h) \<Longrightarrow> bodyAllowed code \<Longrightarrow> open_conn w \<Longrightarrow>
        fst (rw_Write rw b w) = None \<and> bdy (snd (rw_Write rw b w)) = bdy w @ b"
begin

text \<open>An error written to a fresh response is the status, the JSON type and the JSON body.\<close>

lemma writeJSONError_sent:
  assumes "sent w = None" and "200 \<le> status" and "status \<le> 999"
  shows "sent (writeJSONError rw status code detail w) =
    Some (status, headerSet ''Content-Type'' ''application/json'' (hdr w))"
  using assms
  by (simp add: writeJSONError_def Let_def write_sent header_first set_obs)

lemma writeJSONError_body:
  assumes "sent w = None" and "200 \<le> status" and "status \<le> 999" and "bodyAllowed status" and "open_conn w"
  shows "bdy (writeJSONError rw status code detail w) = bdy w @ errorJSON code detail"
  using assms header_first [of "rw_Set rw ''Content-Type'' ''application/json'' w" status]
    write_body [of "snd (rw_WriteHeader rw status (rw_Set rw ''Content-Type'' ''application/json'' w))" status]
  by (simp add: writeJSONError_def Let_def set_obs header_body)

text \<open>On a response already under way the status stays as it was sent.\<close>

lemma writeJSONError_again: "sent w \<noteq> None \<Longrightarrow> sent (writeJSONError rw status code detail w) = sent w"
  by (simp add: writeJSONError_def Let_def write_sent header_again set_obs)

lemma httpError_sent:
  assumes "sent w = None" and "200 \<le> status" and "status \<le> 999"
  shows "\<exists>h. sent (httpError rw msg status w) = Some (status, h)"
  using assms by (simp add: httpError_def Let_def write_sent header_first set_obs del_obs)

end

text \<open>The error contract is one JSON document, and a client that parses it gets code and detail back.\<close>

lemma errorJSON_read:
  "jsonUnmarshal (errorJSON code detail) =
     Some (JObj [(''detail'', JStr (toValidUTF8 detail)), (''error'', JStr (toValidUTF8 code))])"
proof -
  let ?o = "JObj [(''detail'', JStr detail), (''error'', JStr code)]"
  have "sort [''error'', ''detail''] = [''detail'', ''error'']" by code_simp
  then have "errorJSON code detail = jsonEnc (\<lambda>n. n) ?o @ [CHR 0x0A]"
    by (simp add: errorJSON_def jsonMarshalAny_def dedupKeys_def objGet_def)
  moreover have "jsonFits 0 ?o" by (simp add: maxNestingDepth_def)
  ultimately show ?thesis using jsonUnmarshal_jsonEnc [of ?o] by (simp add: toValidUTF8_ascii)
qed

interpretation rawWriter: response_writer rawRW wr_sent wr_header wr_body "\<lambda>w. wr_accepts w = None"
  by unfold_locales
    (auto simp: rawRW_def rawSet_def rawDel_def rawWriteHeader_def rawWrite_def Let_def split: option.splits)

interpretation swWriter: response_writer statusRW "\<lambda>s. wr_sent (sw_ResponseWriter s)"
  "\<lambda>s. wr_header (sw_ResponseWriter s)" "\<lambda>s. wr_body (sw_ResponseWriter s)"
  "\<lambda>s. wr_accepts (sw_ResponseWriter s) = None"
  by unfold_locales
    (auto simp: statusRW_def swSet_def swDel_def swWriteHeader_def swWrite_def swMark_def rawSet_def
      rawDel_def rawWriteHeader_def rawWrite_def Let_def split: option.splits prod.splits if_splits)

lemma statusRW_simps [simp]:
  "rw_Set statusRW = swSet" "rw_Del statusRW = swDel" "rw_WriteHeader statusRW = swWriteHeader"
  "rw_Write statusRW = swWrite" "rw_Flush statusRW = swFlush"
  by (simp_all add: statusRW_def)

lemma rawRW_simps [simp]:
  "rw_Set rawRW = rawSet" "rw_Del rawRW = rawDel" "rw_WriteHeader rawRW = rawWriteHeader"
  "rw_Write rawRW = rawWrite" "rw_Flush rawRW = rawFlush"
  by (simp_all add: rawRW_def)

text \<open>The laws of the status writer over its own operations.\<close>

lemmas sw_laws = swWriter.set_obs [simplified] swWriter.header_first [simplified]
  swWriter.header_body [simplified] swWriter.write_sent [simplified]

lemma swMark_inner [simp]: "sw_ResponseWriter (swMark c s) = sw_ResponseWriter s"
  by (simp add: swMark_def)

lemma swWrite_raw:
  "fst (swWrite b s) = fst (rawWrite b (sw_ResponseWriter s))"
  "sw_ResponseWriter (snd (swWrite b s)) = snd (rawWrite b (sw_ResponseWriter s))"
  by (simp_all add: swWrite_def Let_def split_beta)

text \<open>A write on a connection that takes \<open>n\<close> bytes: it fails when they do not all fit.\<close>

lemma rawWrite_limited:
  assumes "wr_sent w = Some (code, h)" and "bodyAllowed code" and "wr_accepts w = Some n"
    and "length (wr_body w) \<le> n"
  shows "rawWrite b w =
    (if length (wr_body w @ b) \<le> n then None else Some errBrokenPipe, w\<lparr>wr_body := take n (wr_body w @ b)\<rparr>)"
  using assms by (cases "b = []") (simp_all add: rawWrite_def)

section \<open>The recorded status is the status sent\<close>

text \<open>
  \<open>swAgree\<close> is the invariant that makes the outcome metric truthful: \<open>sw_status\<close> is the
  status on the wire, and 0 exactly when none was sent. It holds of a new writer and is
  kept by every operation the handlers make, with a final status.
\<close>

definition swAgree :: "statusWriter \<Rightarrow> bool" where
  "swAgree s \<longleftrightarrow>
     (case wr_sent (sw_ResponseWriter s) of
        None \<Rightarrow> \<not> sw_wrote s \<and> sw_status s = 0
      | Some (code, _) \<Rightarrow> sw_wrote s \<and> sw_status s = code)"

lemma swAgree_new: "wr_sent w = None \<Longrightarrow> swAgree (newStatusWriter w)"
  by (simp add: swAgree_def newStatusWriter_def)

lemma swAgree_Set [simp]: "swAgree (swSet k v s) = swAgree s"
  and swAgree_Del [simp]: "swAgree (swDel k s) = swAgree s"
  by (simp_all add: swAgree_def swSet_def swDel_def rawSet_def rawDel_def split: option.splits)

lemma swAgree_WriteHeader:
  "swAgree s \<Longrightarrow> 200 \<le> code \<Longrightarrow> code \<le> 999 \<Longrightarrow> swAgree (snd (swWriteHeader code s))"
  by (auto simp: swAgree_def swWriteHeader_def swMark_def rawWriteHeader_def Let_def split: option.splits)

lemma swAgree_Write: "swAgree s \<Longrightarrow> swAgree (snd (swWrite b s))"
  by (auto simp: swAgree_def swWrite_def swMark_def rawWrite_def rawWriteHeader_def Let_def
      split: option.splits prod.splits if_splits)

lemma swAgree_Flush: "swAgree s \<Longrightarrow> sw_wrote s \<Longrightarrow> swAgree (swFlush s)"
  by (auto simp: swAgree_def swFlush_def rawFlush_def Let_def split: option.splits)

lemma swAgree_writeJSONError:
  "swAgree s \<Longrightarrow> 200 \<le> status \<Longrightarrow> status \<le> 999 \<Longrightarrow> swAgree (writeJSONError statusRW status code detail s)"
  by (simp add: writeJSONError_def statusRW_def Let_def swAgree_Write swAgree_WriteHeader)

lemma swAgree_httpError:
  "swAgree s \<Longrightarrow> 200 \<le> status \<Longrightarrow> status \<le> 999 \<Longrightarrow> swAgree (httpError statusRW msg status s)"
  by (simp add: httpError_def statusRW_def Let_def swAgree_Write swAgree_WriteHeader)

lemma swWrite_wrote [simp]: "sw_wrote (snd (swWrite b s))"
  by (simp add: swWrite_def swMark_def Let_def split: prod.splits)

lemmas swAgree_intros = swAgree_new swAgree_WriteHeader swAgree_Write swAgree_writeJSONError swAgree_httpError

text \<open>The status of an error response on a fresh status writer.\<close>

lemma writeJSONError_status:
  "\<not> sw_wrote s \<Longrightarrow> sw_status (writeJSONError statusRW status code detail s) = status"
  by (simp add: writeJSONError_def statusRW_def swWrite_def swWriteHeader_def swMark_def swSet_def Let_def
      split: prod.splits)

end
