(* ===== verification/GoUrl.thy ===== *)
theory GoUrl
  imports GoCodec
begin

text \<open>
  The part of \<open>net/url\<close> the worker relies on: whether \<open>url.Parse\<close> accepts a string. The
  configuration loader and the backend client only look at its error.
\<close>

definition isAlpha :: "char \<Rightarrow> bool" where
  "isAlpha c \<longleftrightarrow> (97 \<le> byteOf c \<and> byteOf c \<le> 122) \<or> (65 \<le> byteOf c \<and> byteOf c \<le> 90)"

definition isAlnum :: "char \<Rightarrow> bool" where
  "isAlnum c \<longleftrightarrow> isAlpha c \<or> isDigit c"

text \<open>\<open>strings.Cut\<close> on one byte: what comes before its first occurrence and what after.\<close>

definition cutAt :: "char \<Rightarrow> string \<Rightarrow> string \<times> string" where
  "cutAt d s = (takeWhile (\<lambda>c. c \<noteq> d) s, drop 1 (dropWhile (\<lambda>c. c \<noteq> d) s))"

text \<open>The last occurrence of a byte: the text before it and the text after it.\<close>

definition cutLast :: "char \<Rightarrow> string \<Rightarrow> (string \<times> string) option" where
  "cutLast d s =
     (if d \<in> set s
      then Some (rev (drop 1 (dropWhile (\<lambda>c. c \<noteq> d) (rev s))), rev (takeWhile (\<lambda>c. c \<noteq> d) (rev s)))
      else None)"

datatype urlMode = EncodePath | EncodeHost | EncodeZone | EncodeUserPassword | EncodeFragment

text \<open>The bytes a host or a zone may hold unescaped.\<close>

definition hostByte :: "char \<Rightarrow> bool" where
  "hostByte c \<longleftrightarrow> isAlnum c \<or> c \<in> set ''!$&()*+,;=:[]<>-_.~'' \<or> byteOf c = 39 \<or> byteOf c = 34"

fun unescapeOk :: "urlMode \<Rightarrow> string \<Rightarrow> bool" where
  "unescapeOk m [] = True"
| "unescapeOk m (c # cs) =
     (if c = CHR ''%'' then
        (case cs of
           a # b # rest \<Rightarrow>
             (case (unhex a, unhex b) of
                (Some x, Some y) \<Rightarrow>
                  (m = EncodeHost \<longrightarrow> \<not> (x < 8 \<and> [a, b] \<noteq> ''25'')) \<and>
                  (m = EncodeZone \<longrightarrow>
                     [a, b] = ''25'' \<or> x * 16 + y = 32 \<or> hostByte (chr (x * 16 + y))) \<and>
                  unescapeOk m rest
              | _ \<Rightarrow> False)
         | _ \<Rightarrow> False)
      else (m \<in> {EncodeHost, EncodeZone} \<longrightarrow> byteOf c \<ge> 128 \<or> hostByte c) \<and> unescapeOk m cs)"

definition validOptionalPort :: "string \<Rightarrow> bool" where
  "validOptionalPort p \<longleftrightarrow> p = [] \<or> hd p = CHR '':'' \<and> list_all isDigit (tl p)"

fun indexOf25 :: "string \<Rightarrow> nat option" where
  "indexOf25 [] = None"
| "indexOf25 (c # cs) =
     (if hasPrefix ''%25'' (c # cs) then Some 0
      else case indexOf25 cs of None \<Rightarrow> None | Some n \<Rightarrow> Some (Suc n))"

definition parseHostOk :: "string \<Rightarrow> bool" where
  "parseHostOk host =
     (if hasPrefix ''['' host then
        (case cutLast (CHR '']'') host of
           None \<Rightarrow> False
         | Some (inside, colonPort) \<Rightarrow>
             validOptionalPort colonPort \<and>
             (case indexOf25 inside of
                Some z \<Rightarrow>
                  unescapeOk EncodeHost (take z inside) \<and> unescapeOk EncodeZone (drop z inside) \<and>
                  unescapeOk EncodeHost (CHR '']'' # colonPort)
              | None \<Rightarrow> unescapeOk EncodeHost host))
      else
        (case cutLast (CHR '':'') host of
           Some (_, port) \<Rightarrow> validOptionalPort (CHR '':'' # port) \<and> unescapeOk EncodeHost host
         | None \<Rightarrow> unescapeOk EncodeHost host))"

definition userinfoByte :: "char \<Rightarrow> bool" where
  "userinfoByte c \<longleftrightarrow> isAlnum c \<or> c \<in> set ''-._:~!$&()*+,;=%@'' \<or> byteOf c = 39"

definition parseAuthorityOk :: "string \<Rightarrow> bool" where
  "parseAuthorityOk authority =
     (case cutLast (CHR ''@'') authority of
        None \<Rightarrow> parseHostOk authority
      | Some (userinfo, host) \<Rightarrow>
          parseHostOk host \<and> list_all userinfoByte userinfo \<and>
          (let (u, p) = cutAt (CHR '':'') userinfo
           in unescapeOk EncodeUserPassword u \<and> unescapeOk EncodeUserPassword p))"

text \<open>\<open>getScheme\<close>: an error, or the scheme (empty when there is none) and the rest.\<close>

fun getSchemeFrom :: "nat \<Rightarrow> string \<Rightarrow> string \<Rightarrow> (string \<times> string) option" where
  "getSchemeFrom i raw [] = Some ([], raw)"
| "getSchemeFrom i raw (c # cs) =
     (if isAlpha c then getSchemeFrom (Suc i) raw cs
      else if isDigit c \<or> c \<in> set ''+-.'' then
        (if i = 0 then Some ([], raw) else getSchemeFrom (Suc i) raw cs)
      else if c = CHR '':'' then (if i = 0 then None else Some (take i raw, cs))
      else Some ([], raw))"

definition dropQuery :: "string \<Rightarrow> string" where
  "dropQuery rest = fst (cutAt (CHR ''?'') rest)"

definition parseOk :: "string \<Rightarrow> bool" where
  "parseOk rawURL =
     (if list_ex (\<lambda>c. byteOf c < 32 \<or> byteOf c = 127) rawURL then False
      else if rawURL = ''*'' then True
      else case getSchemeFrom 0 rawURL rawURL of
             None \<Rightarrow> False
           | Some (scheme, rest0) \<Rightarrow>
               let rest = dropQuery rest0 in
               if \<not> hasPrefix ''/'' rest \<and> scheme \<noteq> [] then True
               else if \<not> hasPrefix ''/'' rest \<and> CHR '':'' \<in> set (fst (cutAt (CHR ''/'') rest)) then False
               else if (scheme \<noteq> [] \<or> \<not> hasPrefix ''///'' rest) \<and> hasPrefix ''//'' rest then
                 (let t = drop 2 rest;
                      authority = takeWhile (\<lambda>c. c \<noteq> CHR ''/'') t;
                      path = dropWhile (\<lambda>c. c \<noteq> CHR ''/'') t
                  in parseAuthorityOk authority \<and> unescapeOk EncodePath path)
               else unescapeOk EncodePath rest)"

definition urlParseOk :: "string \<Rightarrow> bool" where
  "urlParseOk rawURL =
     (let (u, frag) = cutAt (CHR ''#'') rawURL
      in parseOk u \<and> (frag = [] \<or> unescapeOk EncodeFragment frag))"

text \<open>A plain \<open>http://host/path\<close> parses.\<close>

lemma urlParseOk_samples:
  "urlParseOk ''http://localhost:8000''" "urlParseOk ''http://[::1]:80/v1''"
  "\<not> urlParseOk ''://nope''" "\<not> urlParseOk ''http://a b/''" "\<not> urlParseOk ''http://h:x/''"
  by code_simp+

end
