(* ===== verification/Backend.thy ===== *)
theory Backend
  imports Writer GoUrl
begin

text \<open>
  \<open>internal/providers/backendhttp\<close>: the client of the inference backends. \<open>fetchClient\<close> is
  the production client of \<open>fetch.go\<close>, \<open>meteredBackend\<close> the metrics decorator of
  \<open>interface.go\<close> with its error classification, \<open>fakeBackend\<close> the test double of \<open>fake.go\<close>.

  The backend itself and \<open>net/http\<close>'s connection to it are the environment: \<open>Transport\<close>
  holds \<open>http.Client.Do\<close>, an arbitrary function of the request and the backend's state,
  and the error value of a URL that does not parse. A response body is its bytes and the
  error the connection ends them with.
\<close>

section \<open>The interface\<close>

record Stream =
  sm_data :: bytes
  sm_err :: "Err option"

type_synonym rawResult = "int \<times> bytes \<times> Err option"
type_synonym streamResult = "int \<times> headers \<times> Stream \<times> Err option"

record ('d, 'b) Backend =
  bk_DoJSON :: "string \<Rightarrow> bytes \<Rightarrow> ('d, 'b) World \<Rightarrow> rawResult \<times> ('d, 'b) World"
  bk_DoRaw :: "string \<Rightarrow> string \<Rightarrow> bytes \<Rightarrow> ('d, 'b) World \<Rightarrow> rawResult \<times> ('d, 'b) World"
  bk_DoStream :: "string \<Rightarrow> bytes \<Rightarrow> ('d, 'b) World \<Rightarrow> streamResult \<times> ('d, 'b) World"

definition noStream :: Stream where
  "noStream = \<lparr>sm_data = [], sm_err = None\<rparr>"

section \<open>The production client\<close>

record HttpRequest =
  hq_URL :: string
  hq_Header :: headers
  hq_Body :: bytes

record HttpResponse =
  hp_StatusCode :: int
  hp_Header :: headers
  hp_Body :: Stream

record 'b Transport =
  tr_Do :: "HttpRequest \<Rightarrow> 'b \<Rightarrow> (Err + HttpResponse) \<times> 'b"
  tr_urlError :: "string \<Rightarrow> Err"

definition fetchDoRaw :: "'b Transport \<Rightarrow> string \<Rightarrow> string \<Rightarrow> bytes \<Rightarrow> ('d, 'b) World \<Rightarrow> rawResult \<times> ('d, 'b) World" where
  "fetchDoRaw tr url contentType body w =
     (if \<not> urlParseOk url then
        ((0, [], Some (wrapf ''backendhttp: build request: '' (tr_urlError tr url))), w)
      else
        let (res, b) = tr_Do tr \<lparr>hq_URL = url, hq_Header = headerSet ''Content-Type'' contentType [],
                                 hq_Body = body\<rparr> (w_backend w);
            w1 = w\<lparr>w_backend := b\<rparr>
        in case res of
             Inl e \<Rightarrow> ((0, [], Some (wrapf ''backendhttp: do: '' e)), w1)
           | Inr resp \<Rightarrow>
               (case sm_err (hp_Body resp) of
                  Some e \<Rightarrow> ((hp_StatusCode resp, [], Some (wrapf ''backendhttp: read body: '' e)), w1)
                | None \<Rightarrow> ((hp_StatusCode resp, sm_data (hp_Body resp), None), w1)))"

definition fetchDoJSON :: "'b Transport \<Rightarrow> string \<Rightarrow> bytes \<Rightarrow> ('d, 'b) World \<Rightarrow> rawResult \<times> ('d, 'b) World" where
  "fetchDoJSON tr url body w = fetchDoRaw tr url ''application/json'' body w"

definition fetchDoStream :: "'b Transport \<Rightarrow> string \<Rightarrow> bytes \<Rightarrow> ('d, 'b) World \<Rightarrow> streamResult \<times> ('d, 'b) World" where
  "fetchDoStream tr url body w =
     (if \<not> urlParseOk url then
        ((0, [], noStream, Some (wrapf ''backendhttp: build request: '' (tr_urlError tr url))), w)
      else
        let (res, b) = tr_Do tr
              \<lparr>hq_URL = url,
               hq_Header = headerSet ''Accept'' ''text/event-stream'' (headerSet ''Content-Type'' ''application/json'' []),
               hq_Body = body\<rparr> (w_backend w);
            w1 = w\<lparr>w_backend := b\<rparr>
        in case res of
             Inl e \<Rightarrow> ((0, [], noStream, Some (wrapf ''backendhttp: do: '' e)), w1)
           | Inr resp \<Rightarrow>
               if hp_StatusCode resp < 200 \<or> 300 \<le> hp_StatusCode resp
               then ((hp_StatusCode resp, hp_Header resp,
                      \<lparr>sm_data = sm_data (hp_Body resp), sm_err = None\<rparr>, None), w1)
               else ((hp_StatusCode resp, hp_Header resp, hp_Body resp, None), w1))"

definition fetchClient :: "'b Transport \<Rightarrow> ('d, 'b) Backend" where
  "fetchClient tr = \<lparr>bk_DoJSON = fetchDoJSON tr, bk_DoRaw = fetchDoRaw tr, bk_DoStream = fetchDoStream tr\<rparr>"

section \<open>The decorator\<close>

definition classifyTransportError :: "Err option \<Rightarrow> string" where
  "classifyTransportError err =
     (case err of
        None \<Rightarrow> BackendErrorConnect
      | Some e \<Rightarrow>
          if errorsIs e DeadlineExceeded then BackendErrorTimeout
          else let s = toLower (emsg e) in
               if containsStr ''timeout'' s \<or> containsStr ''deadline exceeded'' s then BackendErrorTimeout
               else if containsStr ''read body'' s \<or> containsStr ''unexpected eof'' s \<or> containsStr ''malformed'' s
                 then BackendErrorMalformed
               else BackendErrorConnect)"

definition recordOutcome :: "string \<Rightarrow> string \<Rightarrow> int \<Rightarrow> Err option \<Rightarrow> ('d, 'b) World \<Rightarrow> ('d, 'b) World" where
  "recordOutcome cap model status err w0 =
     (let w = emit (ObserveBackendRequest cap model) w0 in
      if err \<noteq> None then
        emit (IncBackendError cap model (classifyTransportError err)) (emit (IncBackendRequest cap model OutcomeError) w)
      else if 500 \<le> status then
        emit (IncBackendError cap model BackendError5xx) (emit (IncBackendRequest cap model OutcomeError) w)
      else
        emit (SetBackendLastSuccess cap model) (emit (IncBackendRequest cap model OutcomeOK) w))"

definition meteredBackend :: "('d, 'b) Backend \<Rightarrow> string \<Rightarrow> string \<Rightarrow> ('d, 'b) Backend" where
  "meteredBackend c cap model =
     \<lparr>bk_DoJSON = (\<lambda>url body w. let ((status, resp, err), w1) = bk_DoJSON c url body w
                    in ((status, resp, err), recordOutcome cap model status err w1)),
      bk_DoRaw = (\<lambda>url ct body w. let ((status, resp, err), w1) = bk_DoRaw c url ct body w
                    in ((status, resp, err), recordOutcome cap model status err w1)),
      bk_DoStream = (\<lambda>url body w. let ((status, hdr, stream, err), w1) = bk_DoStream c url body w
                    in ((status, hdr, stream, err), recordOutcome cap model status err w1))\<rparr>"

definition backendWithMetrics :: "('d, 'b) Backend \<Rightarrow> bool \<Rightarrow> string \<Rightarrow> string \<Rightarrow> ('d, 'b) Backend" where
  "backendWithMetrics c recNil cap model = (if recNil then c else meteredBackend c cap model)"

section \<open>The test double\<close>

record FakeBackend =
  fb_JSONStatus :: int
  fb_JSONBody :: bytes
  fb_JSONErr :: "Err option"
  fb_LastRawContentType :: string
  fb_RawCalls :: nat
  fb_StreamStatus :: int
  fb_StreamHeaders :: headers
  fb_StreamChunks :: "bytes list"
  fb_StreamErr :: "Err option"
  fb_LastJSONURL :: string
  fb_LastJSONBody :: bytes
  fb_LastStreamURL :: string
  fb_LastStreamBody :: bytes
  fb_JSONCalls :: nat
  fb_StreamCalls :: nat

definition NewFakeBackend :: FakeBackend where
  "NewFakeBackend = \<lparr>fb_JSONStatus = 200, fb_JSONBody = [], fb_JSONErr = None, fb_LastRawContentType = [],
     fb_RawCalls = 0, fb_StreamStatus = 200, fb_StreamHeaders = [], fb_StreamChunks = [], fb_StreamErr = None,
     fb_LastJSONURL = [], fb_LastJSONBody = [], fb_LastStreamURL = [], fb_LastStreamBody = [],
     fb_JSONCalls = 0, fb_StreamCalls = 0\<rparr>"

definition fakeDoRaw :: "string \<Rightarrow> string \<Rightarrow> bytes \<Rightarrow> ('d, FakeBackend) World \<Rightarrow> rawResult \<times> ('d, FakeBackend) World" where
  "fakeDoRaw url contentType body w =
     (let f = w_backend w;
          f1 = f\<lparr>fb_JSONCalls := fb_JSONCalls f + 1, fb_RawCalls := fb_RawCalls f + 1, fb_LastJSONURL := url,
                 fb_LastJSONBody := body, fb_LastRawContentType := contentType\<rparr>;
          w1 = w\<lparr>w_backend := f1\<rparr>
      in case fb_JSONErr f of
           Some e \<Rightarrow> ((0, [], Some e), w1)
         | None \<Rightarrow> ((fb_JSONStatus f, fb_JSONBody f, None), w1))"

definition fakeDoStream :: "string \<Rightarrow> bytes \<Rightarrow> ('d, FakeBackend) World \<Rightarrow> streamResult \<times> ('d, FakeBackend) World" where
  "fakeDoStream url body w =
     (let f = w_backend w;
          f1 = f\<lparr>fb_StreamCalls := fb_StreamCalls f + 1, fb_LastStreamURL := url, fb_LastStreamBody := body\<rparr>;
          w1 = w\<lparr>w_backend := f1\<rparr>
      in case fb_StreamErr f of
           Some e \<Rightarrow> ((0, [], noStream, Some e), w1)
         | None \<Rightarrow>
             ((fb_StreamStatus f, fb_StreamHeaders f,
               \<lparr>sm_data = concat (fb_StreamChunks f), sm_err = None\<rparr>, None), w1))"

definition fakeBackend :: "('d, FakeBackend) Backend" where
  "fakeBackend = \<lparr>bk_DoJSON = (\<lambda>url body. fakeDoRaw url ''application/json'' body), bk_DoRaw = fakeDoRaw,
     bk_DoStream = fakeDoStream\<rparr>"

section \<open>Quiet backends\<close>

text \<open>A backend call adds only recorder calls to the log and leaves the daemon alone.\<close>

locale quiet_backend =
  fixes c :: "('d, 'b) Backend"
  assumes quiet_json: "extends w (snd (bk_DoJSON c url body w))"
    and quiet_raw: "extends w (snd (bk_DoRaw c url ct body w))"
    and quiet_stream: "extends w (snd (bk_DoStream c url body w))"
    and daemon_json: "w_daemon (snd (bk_DoJSON c url body w)) = w_daemon w"
    and daemon_raw: "w_daemon (snd (bk_DoRaw c url ct body w)) = w_daemon w"
    and daemon_stream: "w_daemon (snd (bk_DoStream c url body w)) = w_daemon w"
begin

lemma quiet_recordOutcome: "extends w0 w \<Longrightarrow> extends w0 (recordOutcome cap model status err w)"
  by (simp add: recordOutcome_def Let_def extends_emit_right)

lemma metered_quiet: "quiet_backend (meteredBackend c cap model)"
  by unfold_locales
    (simp_all add: meteredBackend_def split_beta Let_def quiet_recordOutcome quiet_json quiet_raw quiet_stream
      daemon_json daemon_raw daemon_stream, simp_all add: recordOutcome_def Let_def daemon_json daemon_raw daemon_stream)

lemma WithMetrics_quiet: "quiet_backend (backendWithMetrics c recNil cap model)"
  by (simp add: backendWithMetrics_def metered_quiet quiet_backend_axioms)

end

interpretation fetchQuiet: quiet_backend "fetchClient tr" for tr
  by unfold_locales
    (simp_all add: fetchClient_def fetchDoJSON_def fetchDoRaw_def fetchDoStream_def Let_def
      split: prod.splits sum.splits option.splits)

interpretation fakeQuiet: quiet_backend fakeBackend
  by unfold_locales
    (simp_all add: fakeBackend_def fakeDoRaw_def fakeDoStream_def Let_def split: option.splits)

section \<open>The classification of transport errors\<close>

lemma containsStr_append1: "containsStr p s \<Longrightarrow> containsStr p (s @ t)"
proof (induction s)
  case Nil
  then show ?case by (cases t) (auto simp: hasPrefix_def)
next
  case (Cons c s)
  have "hasPrefix p (c # s) \<Longrightarrow> hasPrefix p (c # s @ t)"
    by (simp only: hasPrefix_iff) (metis append_Cons append_assoc)
  with Cons show ?case by auto
qed

lemma containsStr_append2: "containsStr p t \<Longrightarrow> containsStr p (s @ t)"
  by (induction s) auto

lemma toLower_append_ascii:
  assumes "\<forall>c\<in>set a. byteOf c < 0x80"
  shows "toLower (a @ s) = toLower a @ toLower s"
proof -
  have "runes (a @ s) = map (\<lambda>c. (byteOf c, [c])) a @ runes s"
    using assms by (induction a) (simp_all add: decodeRune_ascii)
  then show ?thesis using runes_ascii [OF assms] by (simp add: toLower_def)
qed

text \<open>
  A body that breaks off is reported as malformed unless its text or its chain says
  timeout: the stage the client puts in front of the error decides.
\<close>

lemma readBody_class:
  assumes "\<not> errorsIs e DeadlineExceeded"
  shows "classifyTransportError (Some (wrapf ''backendhttp: read body: '' e)) \<noteq> BackendErrorConnect"
proof -
  define p where "p = ''backendhttp: read body: ''"
  have ascii: "\<forall>c\<in>set p. byteOf c < 0x80" by (simp add: p_def)
  then have "toLower (p @ emsg e) = toLower p @ toLower (emsg e)" by (rule toLower_append_ascii)
  moreover have "containsStr ''read body'' (toLower p)"
    unfolding toLower_ascii [OF ascii] by (simp add: p_def lowerByte_def hasPrefix_def)
  ultimately have "containsStr ''read body'' (toLower (p @ emsg e))"
    using containsStr_append1 by simp
  then show ?thesis using assms unfolding p_def [symmetric]
    by (simp add: classifyTransportError_def wrapf_def errorsIs_def Let_def)
qed

section \<open>Correctness\<close>

text \<open>A connection that breaks while the body is read is never reported as a failed connect:
  the production client's text for that stage makes it malformed or a timeout.\<close>

theorem fetch_read_error_class:
  assumes "urlParseOk url"
    and "tr_Do tr \<lparr>hq_URL = url, hq_Header = headerSet ''Content-Type'' ct [], hq_Body = body\<rparr> (w_backend w) =
           (Inr \<lparr>hp_StatusCode = code, hp_Header = hs, hp_Body = \<lparr>sm_data = d, sm_err = Some e\<rparr>\<rparr>, b)"
  shows "\<exists>err cls. bk_DoRaw (meteredBackend (fetchClient tr) cap model) url ct body w =
      ((code, [], Some err), snd (bk_DoRaw (meteredBackend (fetchClient tr) cap model) url ct body w)) \<and>
    w_calls (snd (bk_DoRaw (meteredBackend (fetchClient tr) cap model) url ct body w)) =
      w_calls w @ [Metric (ObserveBackendRequest cap model), Metric (IncBackendRequest cap model OutcomeError),
                   Metric (IncBackendError cap model cls)] \<and>
    cls \<noteq> BackendErrorConnect"
proof -
  define err where "err = wrapf ''backendhttp: read body: '' e"
  have "classifyTransportError (Some err) \<noteq> BackendErrorConnect"
  proof (cases "errorsIs e DeadlineExceeded")
    case True
    then show ?thesis by (simp add: err_def classifyTransportError_def wrapf_def errorsIs_def)
  next
    case False
    then show ?thesis unfolding err_def by (rule readBody_class)
  qed
  then show ?thesis using assms
    by (intro exI [of _ err] exI [of _ "classifyTransportError (Some err)"])
      (simp add: meteredBackend_def fetchClient_def fetchDoRaw_def recordOutcome_def err_def)
qed

definition sampleTransport :: "bytes \<Rightarrow> unit Transport" where
  "sampleTransport answer = \<lparr>tr_Do = (\<lambda>q b. (Inr \<lparr>hp_StatusCode = 200, hp_Header = [],
     hp_Body = \<lparr>sm_data = answer, sm_err = None\<rparr>\<rparr>, b)), tr_urlError = (\<lambda>_. errorsNew ''url'')\<rparr>"

definition brokenTransport :: "unit Transport" where
  "brokenTransport = \<lparr>tr_Do = (\<lambda>q b. (Inr \<lparr>hp_StatusCode = 200, hp_Header = [],
     hp_Body = \<lparr>sm_data = ''a'', sm_err = Some (errorsNew ''unexpected EOF'')\<rparr>\<rparr>, b)), tr_urlError = (\<lambda>_. errorsNew ''url'')\<rparr>"

theorem fetch_read_error_class_witness:
  "\<exists>err cls. bk_DoRaw (meteredBackend (fetchClient brokenTransport) ''c'' ''m'') ''http://h'' ''t'' ''b''
      sampleWorld =
      ((200, [], Some err), snd (bk_DoRaw (meteredBackend (fetchClient brokenTransport) ''c'' ''m'') ''http://h'' ''t'' ''b''
        sampleWorld)) \<and> cls \<noteq> BackendErrorConnect"
proof -
  have "urlParseOk ''http://h''" by code_simp
  from fetch_read_error_class [OF this, of brokenTransport "''t''" "''b''"
      sampleWorld
      200 "[]" "''a''" "errorsNew ''unexpected EOF''" "()" "''c''" "''m''"]
  show ?thesis by (simp add: brokenTransport_def) blast
qed

end
