(* ===== verification/Tokenizer.thy ===== *)
theory Tokenizer
  imports World
begin

text \<open>
  \<open>internal/providers/tokenizer\<close>: the word-count estimator, the tiktoken-backed
  tokenizer with its per-model cache, and the metrics decorator.

  \<open>tiktoken-go\<close> is not part of the repository: \<open>Tiktoken\<close> holds the three functions of it
  the code calls (an encoding by name, the encoding of a model, the number of tokens of
  a text under an encoding), as arbitrary functions. The cache \<open>modelEnc\<close> is
  \<open>w_modelEnc\<close> of the world; a cached \<open>None\<close> is a cached failure.

  \<open>token_counter\<close> is the contract of the interface: under an invariant of the cache, a
  count is a fixed function of the model and the text, and counting leaves the semaphore
  and the log of effects alone. It is interpreted on the word counter, on tiktoken and
  on the metered tokenizer.
\<close>

record ('d, 'b) Tokenizer =
  tk_CountTokens :: "string \<Rightarrow> ('d, 'b) World \<Rightarrow> int \<times> ('d, 'b) World"
  tk_CountTokensForModel :: "string \<Rightarrow> string \<Rightarrow> ('d, 'b) World \<Rightarrow> int \<times> ('d, 'b) World"

section \<open>Word count\<close>

definition isSep :: "nat \<Rightarrow> bool" where
  "isSep r \<longleftrightarrow> r = 32 \<or> r = 9 \<or> r = 10 \<or> r = 13 \<or> r = 11 \<or> r = 12"

text \<open>The loop over the runes: the words so far and whether a word is open.\<close>

definition wordStep :: "nat \<Rightarrow> int \<times> bool \<Rightarrow> int \<times> bool" where
  "wordStep r s =
     (let (words, inToken) = s in
      if isSep r then (words, False)
      else if \<not> inToken then (words + 1, True)
      else (words, True))"

definition countWords :: "string \<Rightarrow> int" where
  "countWords s = fst (fold wordStep (map fst (runes s)) (0, False))"

definition wordCountTokens :: "int \<Rightarrow> string \<Rightarrow> int" where
  "wordCountTokens mul s =
     (if s = [] then 0
      else let words = countWords s in
           if words = 0 then 0
           else quot (wrap64 (wrap64 (words * mul) + 99)) 100)"

definition wordCountTokensForModel :: "int \<Rightarrow> ModelID \<Rightarrow> string \<Rightarrow> int" where
  "wordCountTokensForModel mul _ s = wordCountTokens mul s"

definition NewWordCount :: "int \<Rightarrow> ('d, 'b) Tokenizer" where
  "NewWordCount multiplierPct =
     (let mul = (if multiplierPct \<le> 0 then 133 else multiplierPct)
      in \<lparr>tk_CountTokens = (\<lambda>s w. (wordCountTokens mul s, w)),
          tk_CountTokensForModel = (\<lambda>model s w. (wordCountTokensForModel mul model s, w))\<rparr>)"

section \<open>tiktoken\<close>

record Tiktoken =
  tl_GetEncoding :: "string \<Rightarrow> string option"
  tl_EncodingForModel :: "string \<Rightarrow> string option"
  tl_EncodeLen :: "string \<Rightarrow> string \<Rightarrow> nat"

abbreviation defaultEncoding :: string where "defaultEncoding \<equiv> ''cl100k_base''"

definition encodingFor :: "Tiktoken \<Rightarrow> string \<Rightarrow> ('d, 'b) World \<Rightarrow> string option \<times> ('d, 'b) World" where
  "encodingFor lib model0 w =
     (let model = trimSpace model0 in
      if model = [] then (None, w)
      else case w_modelEnc w model of
             Some enc \<Rightarrow> (enc, w)
           | None \<Rightarrow>
               let enc = tl_EncodingForModel lib model
               in (enc, w\<lparr>w_modelEnc := (w_modelEnc w)(model \<mapsto> enc)\<rparr>))"

definition tiktokenCountTokens ::
    "Tiktoken \<Rightarrow> string option \<Rightarrow> ('d, 'b) Tokenizer \<Rightarrow> string \<Rightarrow> ('d, 'b) World \<Rightarrow> int \<times> ('d, 'b) World" where
  "tiktokenCountTokens lib defaultEnc fallback s w =
     (if s = [] then (0, w)
      else case defaultEnc of
             Some enc \<Rightarrow> (int (tl_EncodeLen lib enc s), w)
           | None \<Rightarrow> tk_CountTokens fallback s w)"

definition tiktokenCountTokensForModel ::
    "Tiktoken \<Rightarrow> string option \<Rightarrow> ('d, 'b) Tokenizer \<Rightarrow> string \<Rightarrow> string \<Rightarrow> ('d, 'b) World \<Rightarrow> int \<times> ('d, 'b) World" where
  "tiktokenCountTokensForModel lib defaultEnc fallback model s w =
     (if s = [] then (0, w)
      else case encodingFor lib model w of
             (Some enc, w1) \<Rightarrow> (int (tl_EncodeLen lib enc s), w1)
           | (None, w1) \<Rightarrow>
               (case defaultEnc of
                  Some enc \<Rightarrow> (int (tl_EncodeLen lib enc s), w1)
                | None \<Rightarrow> tk_CountTokensForModel fallback model s w1))"

definition NewTiktoken :: "Tiktoken \<Rightarrow> ('d, 'b) Tokenizer option \<Rightarrow> ('d, 'b) Tokenizer" where
  "NewTiktoken lib fallback0 =
     (let fallback = (case fallback0 of None \<Rightarrow> NewWordCount 133 | Some f \<Rightarrow> f);
          defaultEnc = tl_GetEncoding lib defaultEncoding
      in \<lparr>tk_CountTokens = tiktokenCountTokens lib defaultEnc fallback,
          tk_CountTokensForModel = tiktokenCountTokensForModel lib defaultEnc fallback\<rparr>)"

section \<open>The decorator and the helper\<close>

definition meteredTokenizer :: "('d, 'b) Tokenizer \<Rightarrow> ('d, 'b) Tokenizer" where
  "meteredTokenizer t =
     \<lparr>tk_CountTokens = (\<lambda>s w. let (n, w1) = tk_CountTokens t s w in (n, emit (IncTokenizerCall [] OutcomeOK) w1)),
      tk_CountTokensForModel =
        (\<lambda>model s w. let (n, w1) = tk_CountTokensForModel t model s w
                     in (n, emit (IncTokenizerCall model OutcomeOK) w1))\<rparr>"

definition tokenizerWithMetrics :: "('d, 'b) Tokenizer \<Rightarrow> bool \<Rightarrow> ('d, 'b) Tokenizer" where
  "tokenizerWithMetrics t recNil = (if recNil then t else meteredTokenizer t)"

fun joinSpace :: "string list \<Rightarrow> string" where
  "joinSpace [] = []"
| "joinSpace [x] = x"
| "joinSpace (x # y # ys) = x @ CHR '' '' # joinSpace (y # ys)"

definition CountJoined :: "('d, 'b) Tokenizer \<Rightarrow> string list \<Rightarrow> ('d, 'b) World \<Rightarrow> int \<times> ('d, 'b) World" where
  "CountJoined t parts w = tk_CountTokens t (joinSpace parts) w"

section \<open>The contract\<close>

locale token_counter =
  fixes t :: "('d, 'b) Tokenizer"
    and inv :: "(string \<rightharpoonup> string option) \<Rightarrow> bool"
    and count :: "string \<Rightarrow> string \<Rightarrow> int"
  assumes count_result: "inv (w_modelEnc w) \<Longrightarrow> fst (tk_CountTokensForModel t m s w) = count m s"
    and count_inv: "inv (w_modelEnc w) \<Longrightarrow> inv (w_modelEnc (snd (tk_CountTokensForModel t m s w)))"
    and count_quiet: "extends w (snd (tk_CountTokensForModel t m s w))"
    and count_empty: "count m [] = 0"
    and count_state: "w_daemon (snd (tk_CountTokensForModel t m s w)) = w_daemon w"
      "w_backend (snd (tk_CountTokensForModel t m s w)) = w_backend w"
begin

lemma metered_counter: "token_counter (meteredTokenizer t) inv count"
  using count_result count_inv count_quiet count_empty count_state
  by unfold_locales (simp_all add: meteredTokenizer_def split_beta Let_def extends_emit_right)

lemma WithMetrics_counter: "token_counter (tokenizerWithMetrics t recNil) inv count"
  by (simp add: tokenizerWithMetrics_def metered_counter token_counter_axioms)

end

section \<open>The word counter\<close>

lemma wordStep_fst: "fst s \<le> fst (wordStep r s)" "fst (wordStep r s) \<le> fst s + 1"
  by (simp_all add: wordStep_def Let_def split: prod.splits)

lemma fold_wordStep_bounds:
  "fst s \<le> fst (fold wordStep rs s)" "fst (fold wordStep rs s) \<le> fst s + int (length rs)"
proof (induction rs arbitrary: s)
  case (Cons r rs)
  { case 1 then show ?case using Cons(1) [of "wordStep r s"] wordStep_fst(1) [of s r] by simp }
  { case 2 then show ?case using Cons(2) [of "wordStep r s"] wordStep_fst(2) [of r s] by simp }
qed simp_all

lemma countWords_bounds: "0 \<le> countWords s" "countWords s \<le> int (length s)"
  using fold_wordStep_bounds [where s = "(0, False)" and rs = "map fst (runes s)"] runeCount_le_length [of s]
  by (simp_all add: countWords_def runeCount_def)

lemma fold_wordStep_seps: "list_all isSep rs \<Longrightarrow> fst (fold wordStep rs (n, b)) = n"
  by (induction rs arbitrary: b) (simp_all add: wordStep_def)

lemma countWords_seps: "list_all isSep (map fst (runes s)) \<Longrightarrow> countWords s = 0"
  by (simp add: countWords_def fold_wordStep_seps)

text \<open>Away from overflow the count is the product rounded up.\<close>

lemma wordCountTokens_ceil:
  assumes "0 < mul" and "int (length s) * mul + 99 < 2 ^ 63"
  shows "wordCountTokens mul s = ceil_div (countWords s * mul) 100"
proof -
  have "countWords s * mul \<le> int (length s) * mul"
    using assms(1) countWords_bounds(2) [of s] by (simp add: mult_right_mono)
  then have hi: "countWords s * mul + 99 < 2 ^ 63" using assms(2) by linarith
  have lo: "0 \<le> countWords s * mul" using assms(1) countWords_bounds(1) [of s] by simp
  have "wrap64 (countWords s * mul) = countWords s * mul"
    using lo hi by (intro wrap64_small) simp_all
  moreover have "wrap64 (countWords s * mul + 99) = countWords s * mul + 99"
    using lo hi by (intro wrap64_small) simp_all
  moreover have "countWords [] = 0" by (simp add: countWords_def)
  moreover have "ceil_div 0 100 = 0" by (simp add: ceil_div_def)
  ultimately show ?thesis
    using lo ceil_div_alt [of 100 "countWords s * mul"]
    by (auto simp: wordCountTokens_def Let_def quot_nonneg)
qed

interpretation wordCounter: token_counter "NewWordCount pct" "\<lambda>_. True"
  "\<lambda>_. wordCountTokens (if pct \<le> 0 then 133 else pct)" for pct
  by unfold_locales (simp_all add: NewWordCount_def Let_def wordCountTokensForModel_def wordCountTokens_def)

section \<open>tiktoken and its cache\<close>

text \<open>The cache invariant: an entry is the library's answer for its model.\<close>

definition cacheOk :: "Tiktoken \<Rightarrow> (string \<rightharpoonup> string option) \<Rightarrow> bool" where
  "cacheOk lib cache \<longleftrightarrow> (\<forall>m e. cache m = Some e \<longrightarrow> e = tl_EncodingForModel lib m)"

lemma cacheOk_empty: "cacheOk lib Map.empty"
  by (simp add: cacheOk_def)

text \<open>What is counted when there is no cache.\<close>

definition tiktokenSpec :: "Tiktoken \<Rightarrow> (string \<Rightarrow> string \<Rightarrow> int) \<Rightarrow> string \<Rightarrow> string \<Rightarrow> int" where
  "tiktokenSpec lib fb model s =
     (if s = [] then 0
      else case (if trimSpace model = [] then None else tl_EncodingForModel lib (trimSpace model)) of
             Some enc \<Rightarrow> int (tl_EncodeLen lib enc s)
           | None \<Rightarrow>
               (case tl_GetEncoding lib defaultEncoding of
                  Some enc \<Rightarrow> int (tl_EncodeLen lib enc s)
                | None \<Rightarrow> fb model s))"

lemma encodingFor_result:
  "cacheOk lib (w_modelEnc w) \<Longrightarrow> fst (encodingFor lib m w) =
     (if trimSpace m = [] then None else tl_EncodingForModel lib (trimSpace m))"
  by (auto simp: encodingFor_def cacheOk_def Let_def split: option.splits)

lemma encodingFor_inv: "cacheOk lib (w_modelEnc w) \<Longrightarrow> cacheOk lib (w_modelEnc (snd (encodingFor lib m w)))"
  by (auto simp: encodingFor_def cacheOk_def Let_def split: option.splits)

lemma encodingFor_quiet: "extends w (snd (encodingFor lib m w))"
  by (simp add: encodingFor_def Let_def split: option.splits)

lemma encodingFor_state [simp]:
  "w_daemon (snd (encodingFor lib m w)) = w_daemon w" "w_backend (snd (encodingFor lib m w)) = w_backend w"
  by (simp_all add: encodingFor_def Let_def split: option.splits)

lemma tiktoken_result:
  "cacheOk lib (w_modelEnc w) \<Longrightarrow>
     fst (tk_CountTokensForModel (NewTiktoken lib (Some (NewWordCount pct))) m s w) =
     tiktokenSpec lib (\<lambda>_. wordCountTokens (if pct \<le> 0 then 133 else pct)) m s"
  using encodingFor_result [of lib w m]
  by (auto simp: NewTiktoken_def NewWordCount_def wordCountTokensForModel_def tiktokenCountTokensForModel_def tiktokenSpec_def Let_def
      split: prod.splits option.splits if_splits)

lemma tiktoken_world:
  "snd (tk_CountTokensForModel (NewTiktoken lib (Some (NewWordCount pct))) m s w) =
     (if s = [] then w else snd (encodingFor lib m w))"
  by (auto simp: NewTiktoken_def NewWordCount_def wordCountTokensForModel_def tiktokenCountTokensForModel_def Let_def
      split: prod.splits option.splits)

interpretation tiktokenCounter: token_counter "NewTiktoken lib (Some (NewWordCount pct))" "cacheOk lib"
  "tiktokenSpec lib (\<lambda>_. wordCountTokens (if pct \<le> 0 then 133 else pct))" for lib pct
  by unfold_locales
    (simp_all add: tiktoken_result tiktoken_world encodingFor_inv encodingFor_quiet tiktokenSpec_def)

text \<open>The tokenizer the worker runs with: tiktoken over the word count, metered.\<close>

interpretation workerTokenizer: token_counter
  "tokenizerWithMetrics (NewTiktoken lib (Some (NewWordCount 133))) recNil" "cacheOk lib"
  "tiktokenSpec lib (\<lambda>_. wordCountTokens 133)" for lib recNil
  using tiktokenCounter.WithMetrics_counter [of lib 133 recNil] by simp

section \<open>Correctness\<close>

text \<open>The words of a text: the runes that are no separator and follow one, or start it.\<close>

definition wordStarts :: "nat \<Rightarrow> nat list \<Rightarrow> nat" where
  "wordStarts prev rs = length (filter (\<lambda>(a, b). isSep a \<and> \<not> isSep b) (zip (prev # rs) rs))"

lemma wordStarts_Cons: "wordStarts prev (r # rs) = (if isSep prev \<and> \<not> isSep r then 1 else 0) + wordStarts r rs"
  by (simp add: wordStarts_def)

lemma wordStep_eq:
  "wordStep r (n, b) = (if \<not> b \<and> \<not> isSep r then n + 1 else n, \<not> isSep r)"
  by (simp add: wordStep_def)

lemma fold_wordStep_starts:
  "fst (fold wordStep rs (n, \<not> isSep prev)) = n + int (wordStarts prev rs)"
proof (induction rs arbitrary: n prev)
  case (Cons r rs)
  then show ?case by (simp add: wordStarts_Cons wordStep_eq)
qed (simp add: wordStarts_def)

text \<open>The word-count estimator never under-counts: away from overflow its answer is the number
  of words of the text times the multiplier, in hundredths, rounded up to the next token.\<close>

theorem wordCountTokens_rounds_up:
  assumes "0 < mul" and "int (length s) * mul + 99 < 2 ^ 63"
  shows "int (wordStarts 32 (map fst (runes s))) * mul \<le> 100 * wordCountTokens mul s \<and>
    100 * wordCountTokens mul s < int (wordStarts 32 (map fst (runes s))) * mul + 100"
proof -
  have "countWords s = int (wordStarts 32 (map fst (runes s)))"
    using fold_wordStep_starts [of "map fst (runes s)" 0 32] by (simp add: countWords_def isSep_def)
  then show ?thesis
    using wordCountTokens_ceil [OF assms] ceil_div_bounds [of 100 "countWords s * mul"] by (simp add: algebra_simps)
qed

theorem wordCountTokens_rounds_up_witness:
  "int (length ''ab c'') * 133 + 99 < 2 ^ 63 \<and> int (wordStarts 32 (map fst (runes ''ab c''))) * 133 \<le> 100 * wordCountTokens 133 ''ab c''"
  using wordCountTokens_rounds_up [of 133 "''ab c''"] by simp

text \<open>C27 The cache is invisible: after any sequence of counts from an empty cache, the worker's
  tokenizer answers what the library says for the model, falling back to the default
  encoding and then to the word count, as if nothing had been cached, failures included.\<close>

theorem tokenizer_cache_transparent:
  assumes "w_modelEnc w = Map.empty"
  shows "fst (tk_CountTokensForModel (tokenizerWithMetrics (NewTiktoken lib (Some (NewWordCount 133))) recNil) m s
      (fold (\<lambda>(m, s) w. snd (tk_CountTokensForModel (tokenizerWithMetrics (NewTiktoken lib (Some (NewWordCount 133))) recNil) m s w))
         earlier w)) =
    tiktokenSpec lib (\<lambda>_. wordCountTokens 133) m s"
proof (rule workerTokenizer.count_result)
  have "cacheOk lib (w_modelEnc w)" using assms by (simp add: cacheOk_empty)
  then show "cacheOk lib (w_modelEnc (fold (\<lambda>(m, s) w. snd (tk_CountTokensForModel
      (tokenizerWithMetrics (NewTiktoken lib (Some (NewWordCount 133))) recNil) m s w)) earlier w))"
    by (induction earlier arbitrary: w) (auto simp: workerTokenizer.count_inv)
qed

definition sampleLib :: Tiktoken where
  "sampleLib = \<lparr>tl_GetEncoding = (\<lambda>e. Some e), tl_EncodingForModel = (\<lambda>m. if m = ''m'' then Some ''e'' else None),
     tl_EncodeLen = (\<lambda>e s. length s)\<rparr>"

theorem tokenizer_cache_transparent_witness:
  "fst (tk_CountTokensForModel (tokenizerWithMetrics (NewTiktoken sampleLib (Some (NewWordCount 133))) False) ''m'' ''hello''
      (fold (\<lambda>(m, s) w. snd (tk_CountTokensForModel (tokenizerWithMetrics (NewTiktoken sampleLib (Some (NewWordCount 133))) False) m s w))
         [(''m'', ''a''), (''n'', ''b'')]
         sampleWorld)) =
    tiktokenSpec sampleLib (\<lambda>_. wordCountTokens 133) ''m'' ''hello''"
  by (rule tokenizer_cache_transparent) simp

end
