(* ===== verification/Module.thy ===== *)
theory Module
  imports Backend Tokenizer
begin

text \<open>
  \<open>internal/service/modules/module.go\<close>: the interface between a capability and the
  middleware, and what the capability modules share.

  A module serves on the middleware's \<open>statusWriter\<close>. \<open>Serve\<close> ends in one of two ways: it
  returns the units and an error, or it panics because the backend's status is one
  \<open>WriteHeader\<close> refuses. \<open>Runtime\<close> holds what the standard library does and the model
  leaves open: the text of a JSON error, the text of a \<open>float64\<close>, the text of a
  \<open>%q\<close> argument, and the parts \<open>mime/multipart\<close> reads from a body.

  \<open>quiet_module\<close> is the layering rule stated in the source ("implementations MUST NOT
  import payeedaemon"): a module never touches the payment daemon, the semaphore or
  the log of effects. Every capability module is an instance.
\<close>

section \<open>The environment of the modules\<close>

record Part =
  pt_FormName :: string
  pt_data :: bytes
  pt_err :: "Err option"

record Runtime =
  rt_jsonErr :: "string \<Rightarrow> bytes \<Rightarrow> Err"
  rt_float :: "string \<Rightarrow> string"
  rt_quote :: "string \<Rightarrow> string"
  rt_parts :: "string \<Rightarrow> bytes \<Rightarrow> Part list \<times> Err option"

section \<open>The interface\<close>

datatype served = Returned int "Err option" | Panicked

record ('d, 'b) Module =
  m_Capability :: string
  m_HTTPMethod :: string
  m_HTTPPath :: string
  m_Unit :: string
  m_ExtractModel :: "bytes \<Rightarrow> Err + string"
  m_EstimateWorkUnits :: "bytes \<Rightarrow> string \<Rightarrow> ('d, 'b) World \<Rightarrow> (Err + int) \<times> ('d, 'b) World"
  m_Serve :: "statusWriter \<Rightarrow> Request \<Rightarrow> bytes \<Rightarrow> string \<Rightarrow> string \<Rightarrow> ('d, 'b) World \<Rightarrow>
                served \<times> statusWriter \<times> ('d, 'b) World"

abbreviation MethodPost :: string where "MethodPost \<equiv> ''POST''"

section \<open>Shared steps of the modules\<close>

text \<open>\<open>strings.TrimRight(backendURL, "/") + HTTPPath\<close>.\<close>

definition targetURL :: "string \<Rightarrow> string \<Rightarrow> string" where
  "targetURL backendURL path = trimRight ''/'' backendURL @ path"

text \<open>
  The buffered answer: the JSON content type, the backend's status, its body. The write
  error is ignored, as in every module.
\<close>

definition relayJSON :: "int \<Rightarrow> bytes \<Rightarrow> statusWriter \<Rightarrow> bool \<times> statusWriter" where
  "relayJSON status respBody s =
     (let (p, s1) = swWriteHeader status (swSet ''Content-Type'' ''application/json'' s)
      in if p then (True, s1) else (False, snd (swWrite respBody s1)))"

text \<open>The plain-text 502 of a backend that could not be reached.\<close>

definition backendDown :: "string \<Rightarrow> Err \<Rightarrow> statusWriter \<Rightarrow> ('d, 'b) World \<Rightarrow> served \<times> statusWriter \<times> ('d, 'b) World" where
  "backendDown prefix e s w = (Returned 0 (Some (wrapf prefix e)), httpError statusRW ''backend error'' 502 s, w)"

text \<open>A JSON body read for its \<open>model\<close>: the parse error, the missing field, or the model.\<close>

definition modelOf :: "string \<Rightarrow> Err + string \<Rightarrow> Err + string" where
  "modelOf name m =
     (case m of
        Inl e \<Rightarrow> Inl (wrapf (name @ '': parse request: '') e)
      | Inr model \<Rightarrow>
          if model = [] then Inl (errorsNew (name @ '': request is missing `model`'')) else Inr model)"

section \<open>Token usage in a backend's answer\<close>

record usage =
  us_PromptTokens :: int
  us_CompletionTokens :: int
  us_TotalTokens :: int

definition zeroUsage :: usage where
  "zeroUsage = \<lparr>us_PromptTokens = 0, us_CompletionTokens = 0, us_TotalTokens = 0\<rparr>"

definition setTotal :: "json \<Rightarrow> usage \<Rightarrow> usage option" where
  "setTotal v u = map_option (\<lambda>n. u\<lparr>us_TotalTokens := n\<rparr>) (dec_int (us_TotalTokens u) v)"

definition setPrompt :: "json \<Rightarrow> usage \<Rightarrow> usage option" where
  "setPrompt v u = map_option (\<lambda>n. u\<lparr>us_PromptTokens := n\<rparr>) (dec_int (us_PromptTokens u) v)"

definition setCompletion :: "json \<Rightarrow> usage \<Rightarrow> usage option" where
  "setCompletion v u = map_option (\<lambda>n. u\<lparr>us_CompletionTokens := n\<rparr>) (dec_int (us_CompletionTokens u) v)"

definition dec_ptr :: "(json \<Rightarrow> 'a \<Rightarrow> 'a option) \<Rightarrow> 'a \<Rightarrow> 'a option \<Rightarrow> json \<Rightarrow> 'a option option" where
  "dec_ptr f zero old v =
     (case v of
        JNull \<Rightarrow> Some None
      | _ \<Rightarrow> map_option Some (f v (case old of None \<Rightarrow> zero | Some u \<Rightarrow> u)))"

text \<open>A decoded block has 64-bit fields.\<close>

definition usageRange :: "usage \<Rightarrow> bool" where
  "usageRange u \<longleftrightarrow> int64_range (us_TotalTokens u)"

lemma dec_int_range: "dec_int old v = Some n \<Longrightarrow> int64_range old \<Longrightarrow> int64_range n"
  by (cases v) (auto dest: atoi_range)

lemma usageRange_set:
  "usageRange u \<Longrightarrow> setTotal v u = Some u' \<Longrightarrow> usageRange u'"
  "usageRange u \<Longrightarrow> setPrompt v u = Some u' \<Longrightarrow> usageRange u'"
  "usageRange u \<Longrightarrow> setCompletion v u = Some u' \<Longrightarrow> usageRange u'"
  by (auto simp: usageRange_def setTotal_def setPrompt_def setCompletion_def dest: dec_int_range)

lemma usageRange_zero: "usageRange zeroUsage"
  by (simp add: usageRange_def zeroUsage_def int64_range_def)

lemma response_range:
  assumes uf: "\<And>k v x y. usageRange x \<Longrightarrow> uf k v x = Some y \<Longrightarrow> usageRange y"
    and rf: "\<And>k v x. rf k v x = (if k = ''usage'' then dec_ptr (decodeStruct uf) zeroUsage x v else Some x)"
    and dec: "decodeStruct rf v None = Some (Some u)"
  shows "usageRange u"
proof -
  define P where "P = (\<lambda>x. \<forall>u. x = Some u \<longrightarrow> usageRange u)"
  have s: "usageRange y" if "usageRange x" "decodeStruct uf v x = Some y" for v x y
    by (rule decodeStruct_inv [where P = usageRange and f = uf]) (erule (1) uf, rule that(1), rule that(2))
  have r: "P y" if "P x" "rf k v x = Some y" for k v x y
    using that s usageRange_zero unfolding P_def rf
    by (cases v) (auto simp: dec_ptr_def split: if_splits option.splits)
  have "P (Some u)"
    by (rule decodeStruct_inv [where P = P and f = rf, OF _ _ dec]) (erule (1) r, simp add: P_def)
  then show ?thesis by (simp add: P_def)
qed

section \<open>The contract\<close>

locale quiet_module =
  fixes m :: "('d, 'b) Module"
  assumes estimate_quiet: "extends w (snd (m_EstimateWorkUnits m body model w))"
    and estimate_daemon: "w_daemon (snd (m_EstimateWorkUnits m body model w)) = w_daemon w"
    and serve_quiet: "extends w (snd (snd (m_Serve m s r body model url w)))"
    and serve_daemon: "w_daemon (snd (snd (m_Serve m s r body model url w))) = w_daemon w"
    and serve_range: "fst (m_Serve m s r body model url w) = Returned n e \<Longrightarrow> int64_range n"

section \<open>The steps keep the writer's invariant\<close>

definition finalStatus :: "int \<Rightarrow> bool" where
  "finalStatus c \<longleftrightarrow> 200 \<le> c \<and> c \<le> 999"

lemma relayJSON_final:
  "swAgree s \<Longrightarrow> finalStatus status \<Longrightarrow> swAgree (snd (relayJSON status b s))"
  by (auto simp: relayJSON_def finalStatus_def Let_def split: prod.splits
      intro!: swAgree_Write dest!: swAgree_WriteHeader [of "swSet ''Content-Type'' ''application/json'' s" status, rotated])

lemma relayJSON_no_panic: "finalStatus status \<Longrightarrow> \<not> fst (relayJSON status b s)"
  by (auto simp: relayJSON_def finalStatus_def swWriteHeader_def rawWriteHeader_def Let_def
      split: prod.splits if_splits)

text \<open>On a fresh response an answered request carries the backend's status and body.\<close>

lemma relayJSON_fresh:
  assumes "wr_sent (sw_ResponseWriter s) = None" and "wr_accepts (sw_ResponseWriter s) = None"
    and "finalStatus status" and "bodyAllowed status"
  shows "wr_sent (sw_ResponseWriter (snd (relayJSON status b s))) =
      Some (status, headerSet ''Content-Type'' ''application/json'' (wr_header (sw_ResponseWriter s)))"
    and "wr_body (sw_ResponseWriter (snd (relayJSON status b s))) = wr_body (sw_ResponseWriter s) @ b"
proof -
  define s0 where "s0 = swSet ''Content-Type'' ''application/json'' s"
  define s1 where "s1 = snd (swWriteHeader status s0)"
  have r: "snd (relayJSON status b s) = snd (swWrite b s1)"
    using relayJSON_no_panic [OF assms(3), of b s]
    by (auto simp: relayJSON_def s1_def s0_def Let_def split: prod.splits)
  have s1: "wr_sent (sw_ResponseWriter s1) =
      Some (status, headerSet ''Content-Type'' ''application/json'' (wr_header (sw_ResponseWriter s)))"
    using assms sw_laws(5) [of s0 status] by (simp add: s1_def s0_def sw_laws finalStatus_def)
  have "wr_accepts (sw_ResponseWriter s1) = None" "wr_body (sw_ResponseWriter s1) = wr_body (sw_ResponseWriter s)"
    using assms by (simp_all add: s1_def s0_def sw_laws)
  then show "wr_body (sw_ResponseWriter (snd (relayJSON status b s))) = wr_body (sw_ResponseWriter s) @ b"
    using swWriter.write_body [of s1, OF s1 assms(4)] by (simp add: r)
  show "wr_sent (sw_ResponseWriter (snd (relayJSON status b s))) =
      Some (status, headerSet ''Content-Type'' ''application/json'' (wr_header (sw_ResponseWriter s)))"
    using s1 sw_laws(8) [of s1 b] by (simp add: r)
qed

section \<open>A concrete environment\<close>

definition sampleRuntime :: Runtime where
  "sampleRuntime = \<lparr>rt_jsonErr = (\<lambda>_ _. errorsNew ''json''), rt_float = (\<lambda>s. s), rt_quote = (\<lambda>s. s),
     rt_parts = (\<lambda>_ _. ([\<lparr>pt_FormName = ''model'', pt_data = '' m '', pt_err = None\<rparr>], None))\<rparr>"

end
