(* ===== verification/Config.thy ===== *)
theory Config
  imports GoUrl World
begin

text \<open>
  \<open>internal/config\<close>: the shared \<open>worker.yaml\<close>, its validation, its projection into the
  routing table, and the check of the table against the payment daemon's catalog.

  The YAML decoder is not part of the repository: \<open>parseReader\<close> takes the results of its
  two \<open>Decode\<close> calls as arguments, \<open>parseFile\<close> the result of opening the file. Errors are
  a datatype with one constructor per message of the source and the indices and values
  the message quotes. Values of \<open>extra\<close> and \<open>constraints\<close> are JSON values.

  The lemmas show that validation accepts exactly the well-formed files (\<open>wfYaml\<close>), that
  on a well-formed file the routing table answers exactly for the offerings in the file,
  each with its own price and backend, and that the catalog check accepts exactly the
  daemon catalogs equal to the worker's.
\<close>

section \<open>The file\<close>

abbreviation (input) CurrentProtocolVersion :: int where "CurrentProtocolVersion \<equiv> 1"
abbreviation (input) CurrentAPIVersion :: int where "CurrentAPIVersion \<equiv> 1"

datatype yamlNode =
    MappingNode "Err + (string \<times> json) list"
  | ScalarNode string
  | SequenceNode
  | AliasNode

record rawYAMLNode =
  rn_Present :: bool
  rn_Node :: "yamlNode option"

definition rawYAMLNode_UnmarshalYAML :: "yamlNode \<Rightarrow> rawYAMLNode" where
  "rawYAMLNode_UnmarshalYAML n = \<lparr>rn_Present = True, rn_Node = Some n\<rparr>"

record yamlObject =
  yo_Present :: bool
  yo_Value :: "(string \<times> json) list option"

definition yamlObject_UnmarshalYAML :: "yamlNode \<Rightarrow> Err option \<times> yamlObject" where
  "yamlObject_UnmarshalYAML n =
     (let o0 = \<lparr>yo_Present = True, yo_Value = None\<rparr> in
      case n of
        MappingNode (Inr ms) \<Rightarrow> (None, o0\<lparr>yo_Value := Some ms\<rparr>)
      | MappingNode (Inl e) \<Rightarrow> (Some e, o0)
      | ScalarNode tag \<Rightarrow>
          (if tag = ''!!null'' then (Some (errorsNew ''must be a JSON object when present (got null)''), o0)
           else (Some (errorsNew ''must be a JSON object when present''), o0))
      | _ \<Rightarrow> (Some (errorsNew ''must be a JSON object when present''), o0))"

record yamlWorker =
  yw_HTTPListen :: string
  yw_PaymentDaemonSocket :: string
  yw_MaxConcurrentRequests :: int
  yw_VerifyDaemonConsistencyOnStart :: bool

record yamlOffering =
  yf_ID :: string
  yf_PricePerWorkUnitWei :: string
  yf_BackendURL :: string
  yf_Constraints :: yamlObject

record yamlCapability =
  yc_Capability :: string
  yc_WorkUnit :: string
  yc_Extra :: yamlObject
  yc_Offerings :: "yamlOffering list"
  yc_DebitCadenceSeconds :: int
  yc_SufficientMinRunwaySeconds :: int
  yc_SufficientGraceSeconds :: int

record yamlConfig =
  y_ProtocolVersion :: int
  y_WorkerEthAddress :: string
  y_AuthToken :: string
  y_PaymentDaemon :: rawYAMLNode
  y_Worker :: yamlWorker
  y_Capabilities :: "yamlCapability list"
  y_ServiceRegistryPublisher :: rawYAMLNode

section \<open>The projection\<close>

record WorkerSection =
  HTTPListen :: string
  PaymentDaemonSocket :: string
  MaxConcurrentRequests :: int
  VerifyDaemonConsistencyOnStart :: bool

record OfferingEntry =
  oe_Model :: string
  oe_PricePerWorkUnitWei :: string
  oe_BackendURL :: string
  oe_Constraints :: "(string \<times> json) list"

record CapabilityEntry =
  ce_Capability :: string
  ce_WorkUnit :: string
  ce_Extra :: "(string \<times> json) list"
  ce_Offerings :: "OfferingEntry list"

record ModelRoute =
  mr_Capability :: string
  mr_Model :: string
  mr_WorkUnit :: string
  mr_BackendURL :: string
  mr_PricePerWorkUnitWei :: string

type_synonym RouteKey = "string \<times> string"

record CapabilityCatalog =
  Ordered :: "CapabilityEntry list"
  Route :: "RouteKey \<rightharpoonup> ModelRoute"

record Config =
  ProtocolVersion :: int
  APIVersion :: int
  WorkerEthAddress :: string
  AuthToken :: string
  Worker :: WorkerSection
  Capabilities :: CapabilityCatalog

definition routeOf :: "CapabilityEntry \<Rightarrow> OfferingEntry \<Rightarrow> ModelRoute" where
  "routeOf entry m =
     \<lparr>mr_Capability = ce_Capability entry, mr_Model = oe_Model m, mr_WorkUnit = ce_WorkUnit entry,
      mr_BackendURL = oe_BackendURL m, mr_PricePerWorkUnitWei = oe_PricePerWorkUnitWei m\<rparr>"

definition addRoutes :: "CapabilityEntry \<Rightarrow> (RouteKey \<rightharpoonup> ModelRoute) \<Rightarrow> (RouteKey \<rightharpoonup> ModelRoute)" where
  "addRoutes entry rt = fold (\<lambda>m r. r((ce_Capability entry, oe_Model m) \<mapsto> routeOf entry m)) (ce_Offerings entry) rt"

definition New :: "WorkerSection \<Rightarrow> CapabilityEntry list \<Rightarrow> Config" where
  "New w ordered =
     \<lparr>ProtocolVersion = CurrentProtocolVersion, APIVersion = CurrentAPIVersion, WorkerEthAddress = [],
      AuthToken = [], Worker = w,
      Capabilities = \<lparr>Ordered = ordered, Route = fold addRoutes ordered Map.empty\<rparr>\<rparr>"

definition Lookup :: "Config \<Rightarrow> string \<Rightarrow> string \<Rightarrow> ModelRoute option" where
  "Lookup c cap model = Route (Capabilities c) (cap, model)"

text \<open>A nil map and an empty one are both the empty list here, as for \<open>len\<close>.\<close>

definition copyJSONObject :: "(string \<times> json) list option \<Rightarrow> (string \<times> json) list" where
  "copyJSONObject m = (case m of None \<Rightarrow> [] | Some ms \<Rightarrow> ms)"

definition projectOffering :: "yamlOffering \<Rightarrow> OfferingEntry" where
  "projectOffering m =
     \<lparr>oe_Model = yf_ID m, oe_PricePerWorkUnitWei = yf_PricePerWorkUnitWei m,
      oe_BackendURL = yf_BackendURL m, oe_Constraints = copyJSONObject (yo_Value (yf_Constraints m))\<rparr>"

definition projectCapability :: "yamlCapability \<Rightarrow> CapabilityEntry" where
  "projectCapability c =
     \<lparr>ce_Capability = yc_Capability c, ce_WorkUnit = yc_WorkUnit c,
      ce_Extra = copyJSONObject (yo_Value (yc_Extra c)),
      ce_Offerings = map projectOffering (yc_Offerings c)\<rparr>"

definition projectFromYAML :: "yamlConfig \<Rightarrow> Config" where
  "projectFromYAML y =
     (let cfg = New \<lparr>HTTPListen = yw_HTTPListen (y_Worker y),
                     PaymentDaemonSocket = yw_PaymentDaemonSocket (y_Worker y),
                     MaxConcurrentRequests = yw_MaxConcurrentRequests (y_Worker y),
                     VerifyDaemonConsistencyOnStart = yw_VerifyDaemonConsistencyOnStart (y_Worker y)\<rparr>
                (map projectCapability (y_Capabilities y))
      in cfg\<lparr>WorkerEthAddress := trimSpace (y_WorkerEthAddress y), AuthToken := trimSpace (y_AuthToken y)\<rparr>)"

section \<open>Validation\<close>

datatype ConfigError =
    ErrNilConfig
  | ErrPublisherBlock
  | ErrProtocolVersion int
  | ErrNoPaymentDaemon
  | ErrEthAddress string
  | ErrHTTPListen
  | ErrSocket
  | ErrMaxConcurrent int
  | ErrNoCapabilities
  | ErrDupCapability nat string
  | ErrCapabilityName nat string
  | ErrWorkUnit nat "string list" string
  | ErrNoOfferings nat
  | ErrExtra nat
  | ErrOfferingID nat nat
  | ErrPriceMissing nat nat
  | ErrPriceNotDecimal nat nat string
  | ErrPriceNotPositive nat nat string
  | ErrBackendMissing nat nat
  | ErrBackendURL nat nat
  | ErrConstraints nat nat
  | ErrDupOffering nat nat string

text \<open>\<open>^[a-z][a-z0-9]*:.+$\<close>; the dot does not match a line feed.\<close>

definition isLower :: "char \<Rightarrow> bool" where
  "isLower c \<longleftrightarrow> 97 \<le> byteOf c \<and> byteOf c \<le> 122"

definition capabilityRE :: "string \<Rightarrow> bool" where
  "capabilityRE s =
     (case s of
        [] \<Rightarrow> False
      | c # cs \<Rightarrow>
          isLower c \<and>
          (case dropWhile (\<lambda>x. isLower x \<or> isDigit x) cs of
             [] \<Rightarrow> False
           | d # rest \<Rightarrow> d = CHR '':'' \<and> rest \<noteq> [] \<and> CHR 0x0A \<notin> set rest))"

text \<open>\<open>^0x[0-9a-f]{40}$\<close>.\<close>

definition lowerEthAddressRE :: "string \<Rightarrow> bool" where
  "lowerEthAddressRE s \<longleftrightarrow>
     hasPrefix ''0x'' s \<and> length s = 42 \<and>
     list_all (\<lambda>c. isDigit c \<or> 97 \<le> byteOf c \<and> byteOf c \<le> 102) (drop 2 s)"

definition knownWorkUnits :: "string list" where
  "knownWorkUnits = [''token'', ''character'', ''audio_second'', ''image_step_megapixel'', ''video_frame_megapixel'']"

text \<open>The keys of a set in byte order, whatever order the map is ranged over in. The error for an
  unknown work unit lists them.\<close>

definition sortedKeys :: "string list \<Rightarrow> string list" where
  "sortedKeys ks = sort (remdups ks)"

lemma sortedKeys_order: "set ks = set ls \<Longrightarrow> sortedKeys ks = sortedKeys ls"
  unfolding sortedKeys_def by (rule sorted_distinct_set_unique) simp_all

definition validateJSONObject :: "ConfigError \<Rightarrow> yamlObject \<Rightarrow> ConfigError option" where
  "validateJSONObject err o1 =
     (if \<not> yo_Present o1 then None else if yo_Value o1 = None then Some err else None)"

definition validateOffering :: "nat \<Rightarrow> nat \<Rightarrow> yamlOffering \<Rightarrow> ConfigError option" where
  "validateOffering i j m =
     (if yf_ID m = [] then Some (ErrOfferingID i j)
      else if yf_PricePerWorkUnitWei m = [] then Some (ErrPriceMissing i j)
      else case setString10 (yf_PricePerWorkUnitWei m) of
             None \<Rightarrow> Some (ErrPriceNotDecimal i j (yf_PricePerWorkUnitWei m))
           | Some price \<Rightarrow>
               if price \<le> 0 then Some (ErrPriceNotPositive i j (yf_PricePerWorkUnitWei m))
               else if yf_BackendURL m = [] then Some (ErrBackendMissing i j)
               else if \<not> urlParseOk (yf_BackendURL m) then Some (ErrBackendURL i j)
               else validateJSONObject (ErrConstraints i j) (yf_Constraints m))"

fun validateOfferings :: "nat \<Rightarrow> nat \<Rightarrow> string list \<Rightarrow> yamlOffering list \<Rightarrow> ConfigError option" where
  "validateOfferings i j seen [] = None"
| "validateOfferings i j seen (m # ms) =
     (case validateOffering i j m of
        Some e \<Rightarrow> Some e
      | None \<Rightarrow>
          if yf_ID m \<in> set seen then Some (ErrDupOffering i j (yf_ID m))
          else validateOfferings i (Suc j) (yf_ID m # seen) ms)"

definition validateCapability :: "nat \<Rightarrow> yamlCapability \<Rightarrow> ConfigError option" where
  "validateCapability i c =
     (if \<not> capabilityRE (yc_Capability c) then Some (ErrCapabilityName i (yc_Capability c))
      else if yc_WorkUnit c \<notin> set knownWorkUnits then Some (ErrWorkUnit i (sortedKeys knownWorkUnits) (yc_WorkUnit c))
      else if yc_Offerings c = [] then Some (ErrNoOfferings i)
      else case validateJSONObject (ErrExtra i) (yc_Extra c) of
             Some e \<Rightarrow> Some e
           | None \<Rightarrow> validateOfferings i 0 [] (yc_Offerings c))"

fun validateCaps :: "nat \<Rightarrow> string list \<Rightarrow> yamlCapability list \<Rightarrow> ConfigError option" where
  "validateCaps i seen [] = None"
| "validateCaps i seen (c # cs) =
     (case validateCapability i c of
        Some e \<Rightarrow> Some e
      | None \<Rightarrow>
          if yc_Capability c \<in> set seen then Some (ErrDupCapability i (yc_Capability c))
          else validateCaps (Suc i) (yc_Capability c # seen) cs)"

definition validateCapabilities :: "yamlCapability list \<Rightarrow> ConfigError option" where
  "validateCapabilities caps = (if caps = [] then Some ErrNoCapabilities else validateCaps 0 [] caps)"

definition validateWorker :: "yamlWorker \<Rightarrow> ConfigError option" where
  "validateWorker w =
     (if yw_HTTPListen w = [] then Some ErrHTTPListen
      else if yw_PaymentDaemonSocket w = [] then Some ErrSocket
      else if yw_MaxConcurrentRequests w \<le> 0 then Some (ErrMaxConcurrent (yw_MaxConcurrentRequests w))
      else None)"

definition validate :: "yamlConfig option \<Rightarrow> ConfigError option" where
  "validate p =
     (case p of
        None \<Rightarrow> Some ErrNilConfig
      | Some cfg \<Rightarrow>
          if rn_Present (y_ServiceRegistryPublisher cfg) then Some ErrPublisherBlock
          else if y_ProtocolVersion cfg \<noteq> CurrentProtocolVersion then
            Some (ErrProtocolVersion (y_ProtocolVersion cfg))
          else if \<not> rn_Present (y_PaymentDaemon cfg) then Some ErrNoPaymentDaemon
          else if y_WorkerEthAddress cfg \<noteq> [] \<and> \<not> lowerEthAddressRE (trimSpace (y_WorkerEthAddress cfg)) then
            Some (ErrEthAddress (y_WorkerEthAddress cfg))
          else case validateWorker (y_Worker cfg) of
                 Some e \<Rightarrow> Some e
               | None \<Rightarrow> validateCapabilities (y_Capabilities cfg))"

section \<open>Loading\<close>

datatype LoadError =
    ErrOpen string Err
  | ErrDecode Err
  | ErrSecondDocument
  | ErrTrailingData Err
  | ErrValidate ConfigError

text \<open>What the second \<open>Decode\<close> call reports.\<close>

datatype yamlTail = TailEOF | TailDocument | TailErr Err

definition parseReader :: "Err + yamlConfig \<Rightarrow> yamlTail \<Rightarrow> LoadError + yamlConfig" where
  "parseReader first tail =
     (case first of
        Inl e \<Rightarrow> Inl (ErrDecode e)
      | Inr cfg \<Rightarrow>
          (case tail of
             TailEOF \<Rightarrow> Inr cfg
           | TailDocument \<Rightarrow> Inl ErrSecondDocument
           | TailErr e \<Rightarrow> Inl (ErrTrailingData e)))"

definition parseFile :: "(bytes \<Rightarrow> (Err + yamlConfig) \<times> yamlTail) \<Rightarrow> (string \<Rightarrow> Err + bytes) \<Rightarrow> string \<Rightarrow> LoadError + yamlConfig" where
  "parseFile decode openFile path =
     (case openFile path of
        Inl e \<Rightarrow> Inl (ErrOpen path e)
      | Inr content \<Rightarrow> (let (first, tail) = decode content in parseReader first tail))"

definition Load :: "(bytes \<Rightarrow> (Err + yamlConfig) \<times> yamlTail) \<Rightarrow> (string \<Rightarrow> Err + bytes) \<Rightarrow> string \<Rightarrow> LoadError + Config" where
  "Load decode openFile path =
     (case parseFile decode openFile path of
        Inl e \<Rightarrow> Inl e
      | Inr parsed \<Rightarrow>
          (case validate (Some parsed) of
             Some e \<Rightarrow> Inl (ErrValidate e)
           | None \<Rightarrow> Inr (projectFromYAML parsed)))"

section \<open>The daemon's catalog\<close>

datatype VerifyError =
    VerNilConfig
  | VerCount nat nat
  | VerCapability nat string string
  | VerWorkUnit nat string string string
  | VerOfferingCount nat string nat nat
  | VerOfferingID nat string nat string string
  | VerPrice nat string nat string string string

fun verifyOfferings :: "nat \<Rightarrow> string \<Rightarrow> nat \<Rightarrow> OfferingEntry list \<Rightarrow> OfferingPrice list \<Rightarrow> VerifyError option" where
  "verifyOfferings i cap j (c # cs) (d # ds) =
     (if oe_Model c \<noteq> op_ID d then Some (VerOfferingID i cap j (oe_Model c) (op_ID d))
      else if oe_PricePerWorkUnitWei c \<noteq> op_PricePerWorkUnitWei d then
        Some (VerPrice i cap j (oe_Model c) (oe_PricePerWorkUnitWei c) (op_PricePerWorkUnitWei d))
      else verifyOfferings i cap (Suc j) cs ds)"
| "verifyOfferings i cap j _ _ = None"

fun verifyCaps :: "nat \<Rightarrow> CapabilityEntry list \<Rightarrow> DaemonCapability list \<Rightarrow> VerifyError option" where
  "verifyCaps i (c # cs) (d # ds) =
     (if ce_Capability c \<noteq> dc_Capability d then Some (VerCapability i (ce_Capability c) (dc_Capability d))
      else if ce_WorkUnit c \<noteq> dc_WorkUnit d then
        Some (VerWorkUnit i (ce_Capability c) (ce_WorkUnit c) (dc_WorkUnit d))
      else if length (dc_Offerings d) \<noteq> length (ce_Offerings c) then
        Some (VerOfferingCount i (ce_Capability c) (length (ce_Offerings c)) (length (dc_Offerings d)))
      else case verifyOfferings i (ce_Capability c) 0 (ce_Offerings c) (dc_Offerings d) of
             Some e \<Rightarrow> Some e
           | None \<Rightarrow> verifyCaps (Suc i) cs ds)"
| "verifyCaps i _ _ = None"

definition VerifyDaemonCatalog :: "Config option \<Rightarrow> ListCapabilitiesResult \<Rightarrow> VerifyError option" where
  "VerifyDaemonCatalog p daemon =
     (case p of
        None \<Rightarrow> Some VerNilConfig
      | Some cfg \<Rightarrow>
          let ordered = Ordered (Capabilities cfg); got = lc_Capabilities daemon in
          if length got \<noteq> length ordered then Some (VerCount (length ordered) (length got))
          else verifyCaps 0 ordered got)"

section \<open>What validation accepts\<close>

definition wfObject :: "yamlObject \<Rightarrow> bool" where
  "wfObject o1 \<longleftrightarrow> (yo_Present o1 \<longrightarrow> yo_Value o1 \<noteq> None)"

definition wfPrice :: "string \<Rightarrow> bool" where
  "wfPrice s = (case setString10 s of None \<Rightarrow> False | Some p \<Rightarrow> 0 < p)"

definition wfOffering :: "yamlOffering \<Rightarrow> bool" where
  "wfOffering m \<longleftrightarrow> yf_ID m \<noteq> [] \<and> wfPrice (yf_PricePerWorkUnitWei m) \<and> yf_BackendURL m \<noteq> [] \<and>
     urlParseOk (yf_BackendURL m) \<and> wfObject (yf_Constraints m)"

definition wfCapability :: "yamlCapability \<Rightarrow> bool" where
  "wfCapability c \<longleftrightarrow> capabilityRE (yc_Capability c) \<and> yc_WorkUnit c \<in> set knownWorkUnits \<and>
     yc_Offerings c \<noteq> [] \<and> wfObject (yc_Extra c) \<and> list_all wfOffering (yc_Offerings c) \<and>
     distinct (map yf_ID (yc_Offerings c))"

definition wfYaml :: "yamlConfig \<Rightarrow> bool" where
  "wfYaml y \<longleftrightarrow> \<not> rn_Present (y_ServiceRegistryPublisher y) \<and> y_ProtocolVersion y = CurrentProtocolVersion \<and>
     rn_Present (y_PaymentDaemon y) \<and>
     (y_WorkerEthAddress y \<noteq> [] \<longrightarrow> lowerEthAddressRE (trimSpace (y_WorkerEthAddress y))) \<and>
     yw_HTTPListen (y_Worker y) \<noteq> [] \<and> yw_PaymentDaemonSocket (y_Worker y) \<noteq> [] \<and>
     0 < yw_MaxConcurrentRequests (y_Worker y) \<and> y_Capabilities y \<noteq> [] \<and>
     list_all wfCapability (y_Capabilities y) \<and> distinct (map yc_Capability (y_Capabilities y))"

lemma setString10_Nil [simp]: "setString10 [] = None"
  by (simp add: setString10_def)

lemma validateJSONObject_ok: "validateJSONObject e o1 = None \<longleftrightarrow> wfObject o1"
  by (simp add: validateJSONObject_def wfObject_def)

lemma validateOffering_ok: "validateOffering i j m = None \<longleftrightarrow> wfOffering m"
  by (auto simp: validateOffering_def wfOffering_def wfPrice_def validateJSONObject_ok split: option.splits)

lemma validateOfferings_ok:
  "validateOfferings i j seen ms = None \<longleftrightarrow>
     list_all wfOffering ms \<and> distinct (map yf_ID ms) \<and> set (map yf_ID ms) \<inter> set seen = {}"
  by (induction i j seen ms rule: validateOfferings.induct)
    (auto simp: validateOffering_ok)

lemma validateCapability_ok: "validateCapability i c = None \<longleftrightarrow> wfCapability c"
  by (simp add: validateCapability_def wfCapability_def validateJSONObject_ok validateOfferings_ok)

lemma validateCaps_ok:
  "validateCaps i seen cs = None \<longleftrightarrow>
     list_all wfCapability cs \<and> distinct (map yc_Capability cs) \<and> set (map yc_Capability cs) \<inter> set seen = {}"
  by (induction i seen cs rule: validateCaps.induct)
    (auto simp: validateCapability_ok)

lemma validate_wf: "validate (Some y) = None \<longleftrightarrow> wfYaml y"
  by (simp add: validate_def wfYaml_def validateWorker_def validateCapabilities_def validateCaps_ok)

lemma validate_not_nil: "validate None \<noteq> None"
  by (simp add: validate_def)

section \<open>What the routing table answers\<close>

lemma addRoutes_lookup:
  "addRoutes entry rt (cap, model) =
     (if cap = ce_Capability entry then
        (case map_of (rev (map (\<lambda>m. (oe_Model m, routeOf entry m)) (ce_Offerings entry))) model of
           Some r \<Rightarrow> Some r | None \<Rightarrow> rt (cap, model))
      else rt (cap, model))"
proof -
  have "fold (\<lambda>m r. r((ce_Capability entry, oe_Model m) \<mapsto> routeOf entry m)) ms rt (cap, model) =
     (if cap = ce_Capability entry then
        (case map_of (rev (map (\<lambda>m. (oe_Model m, routeOf entry m)) ms)) model of
           Some r \<Rightarrow> Some r | None \<Rightarrow> rt (cap, model))
      else rt (cap, model))" for ms
    by (induction ms arbitrary: rt) (auto simp: map_add_def split: option.splits)
  then show ?thesis by (simp add: addRoutes_def)
qed

lemma map_of_rev_distinct: "distinct (map fst xs) \<Longrightarrow> map_of (rev xs) = map_of xs"
  by (rule map_of_eqI) (auto simp: rev_map [symmetric] map_of_eq_Some_iff)

definition catalogOk :: "CapabilityEntry list \<Rightarrow> bool" where
  "catalogOk cs \<longleftrightarrow> distinct (map ce_Capability cs) \<and> (\<forall>c\<in>set cs. distinct (map oe_Model (ce_Offerings c)))"

lemma fold_addRoutes_other:
  "cap \<notin> set (map ce_Capability cs) \<Longrightarrow> fold addRoutes cs rt (cap, model) = rt (cap, model)"
  by (induction cs arbitrary: rt) (auto simp: addRoutes_lookup)

lemma fold_addRoutes_hit:
  assumes "catalogOk cs" and "c \<in> set cs" and "m \<in> set (ce_Offerings c)"
  shows "fold addRoutes cs rt (ce_Capability c, oe_Model m) = Some (routeOf c m)"
  using assms
proof (induction cs arbitrary: rt)
  case (Cons d cs)
  show ?case
  proof (cases "c = d")
    case True
    have d: "distinct (map fst (map (\<lambda>m. (oe_Model m, routeOf d m)) (ce_Offerings d)))"
      using Cons.prems(1) by (simp add: catalogOk_def comp_def)
    have "map_of (map (\<lambda>m. (oe_Model m, routeOf d m)) (ce_Offerings d)) (oe_Model m) = Some (routeOf d m)"
      using d Cons.prems(3) True by (auto intro!: map_of_is_SomeI)
    moreover have "ce_Capability d \<notin> set (map ce_Capability cs)"
      using Cons.prems(1) by (simp add: catalogOk_def)
    ultimately show ?thesis
      using True d by (simp add: fold_addRoutes_other addRoutes_lookup map_of_rev_distinct)
  next
    case False
    then show ?thesis using Cons by (simp add: catalogOk_def)
  qed
qed simp

lemma fold_addRoutes_only:
  "fold addRoutes cs rt (cap, model) = Some r \<Longrightarrow> rt (cap, model) = Some r \<or>
     (\<exists>c\<in>set cs. \<exists>m\<in>set (ce_Offerings c). cap = ce_Capability c \<and> model = oe_Model m \<and> r = routeOf c m)"
proof (induction cs arbitrary: rt)
  case (Cons c cs)
  from Cons.IH [of "addRoutes c rt"] Cons.prems
  consider "addRoutes c rt (cap, model) = Some r"
    | "\<exists>c'\<in>set cs. \<exists>m\<in>set (ce_Offerings c'). cap = ce_Capability c' \<and> model = oe_Model m \<and> r = routeOf c' m"
    by auto
  then show ?case
    by cases (auto simp: addRoutes_lookup split: if_splits option.splits dest!: map_of_SomeD)
qed simp

text \<open>On a catalog without duplicates the table is the catalog.\<close>

lemma Lookup_New:
  assumes "catalogOk cs"
  shows "Lookup (New w cs) cap model = Some r \<longleftrightarrow>
    (\<exists>c\<in>set cs. \<exists>m\<in>set (ce_Offerings c). cap = ce_Capability c \<and> model = oe_Model m \<and> r = routeOf c m)"
  using fold_addRoutes_hit [OF assms] fold_addRoutes_only [of cs Map.empty cap model r]
  by (auto simp: Lookup_def New_def)

lemma wfYaml_catalogOk: "wfYaml y \<Longrightarrow> catalogOk (map projectCapability (y_Capabilities y))"
  by (auto simp: wfYaml_def wfCapability_def catalogOk_def projectCapability_def projectOffering_def
      list_all_iff comp_def)

definition yamlRoute :: "yamlCapability \<Rightarrow> yamlOffering \<Rightarrow> ModelRoute" where
  "yamlRoute c m =
     \<lparr>mr_Capability = yc_Capability c, mr_Model = yf_ID m, mr_WorkUnit = yc_WorkUnit c,
      mr_BackendURL = yf_BackendURL m, mr_PricePerWorkUnitWei = yf_PricePerWorkUnitWei m\<rparr>"

lemma Lookup_wf:
  assumes "wfYaml y"
  shows "Lookup (projectFromYAML y) cap model = Some r \<longleftrightarrow>
    (\<exists>c\<in>set (y_Capabilities y). \<exists>m\<in>set (yc_Offerings c).
       cap = yc_Capability c \<and> model = yf_ID m \<and> r = yamlRoute c m)"
proof -
  have "Lookup (projectFromYAML y) cap model =
      Lookup (New (Worker (projectFromYAML y)) (map projectCapability (y_Capabilities y))) cap model"
    by (simp add: projectFromYAML_def Lookup_def New_def Let_def)
  then show ?thesis
    by (auto simp: Lookup_New [OF wfYaml_catalogOk [OF assms]] projectCapability_def projectOffering_def
        routeOf_def yamlRoute_def)
qed

lemma Load_wf: "Load decode openFile path = Inr cfg \<Longrightarrow> \<exists>y. wfYaml y \<and> cfg = projectFromYAML y"
  by (auto simp: Load_def validate_wf split: sum.splits option.splits)

lemma Load_source:
  assumes "Load decode openFile path = Inr cfg" and "openFile path = Inr content" and "decode content = (Inr y, tail)"
  shows "wfYaml y \<and> cfg = projectFromYAML y"
  using assms
  by (auto simp: Load_def parseFile_def parseReader_def validate_wf split: sum.splits option.splits yamlTail.splits)

text \<open>Every route of a loaded configuration has a positive decimal price.\<close>

lemma Lookup_price:
  assumes "wfYaml y" and "Lookup (projectFromYAML y) cap model = Some r"
  shows "wfPrice (mr_PricePerWorkUnitWei r)"
  using assms Lookup_wf [OF assms(1)]
  by (auto simp: yamlRoute_def wfYaml_def wfCapability_def wfOffering_def list_all_iff)

section \<open>What the catalog check accepts\<close>

definition daemonView :: "CapabilityEntry \<Rightarrow> DaemonCapability" where
  "daemonView c =
     \<lparr>dc_Capability = ce_Capability c, dc_WorkUnit = ce_WorkUnit c,
      dc_Offerings = map (\<lambda>m. \<lparr>op_ID = oe_Model m, op_PricePerWorkUnitWei = oe_PricePerWorkUnitWei m\<rparr>)
        (ce_Offerings c)\<rparr>"

lemma verifyOfferings_ok:
  "length cs = length ds \<Longrightarrow> verifyOfferings i cap j cs ds = None \<longleftrightarrow>
     map (\<lambda>m. \<lparr>op_ID = oe_Model m, op_PricePerWorkUnitWei = oe_PricePerWorkUnitWei m\<rparr>) cs = ds"
proof (induction i cap j cs ds rule: verifyOfferings.induct)
  case (1 i cap j c cs d ds)
  then show ?case by (cases d) auto
qed auto

lemma verifyCaps_ok:
  "length cs = length ds \<Longrightarrow> verifyCaps i cs ds = None \<longleftrightarrow> map daemonView cs = ds"
proof (induction i cs ds rule: verifyCaps.induct)
  case (1 i c cs d ds)
  have "daemonView c = d \<longleftrightarrow>
      ce_Capability c = dc_Capability d \<and> ce_WorkUnit c = dc_WorkUnit d \<and>
      length (dc_Offerings d) = length (ce_Offerings c) \<and>
      verifyOfferings i (ce_Capability c) 0 (ce_Offerings c) (dc_Offerings d) = None"
    using verifyOfferings_ok [of "ce_Offerings c" "dc_Offerings d" i "ce_Capability c" 0]
    by (cases d) (auto simp: daemonView_def)
  then show ?case using 1 by (auto split: option.splits)
qed auto

lemma VerifyDaemonCatalog_ok:
  "VerifyDaemonCatalog (Some cfg) daemon = None \<longleftrightarrow>
     lc_Capabilities daemon = map daemonView (Ordered (Capabilities cfg))"
  using verifyCaps_ok [of "Ordered (Capabilities cfg)" "lc_Capabilities daemon" 0]
  by (auto simp: VerifyDaemonCatalog_def Let_def)

section \<open>Correctness\<close>

text \<open>C16 \<open>Load\<close> succeeds exactly when the file opens, decodes to a single document and is well
  formed, and its result is then the projection of that document.\<close>

theorem Load_exact:
  "Load decode openFile path = Inr cfg \<longleftrightarrow>
     (\<exists>content y. openFile path = Inr content \<and> decode content = (Inr y, TailEOF) \<and> wfYaml y \<and> cfg = projectFromYAML y)"
  using validate_wf
  by (auto simp: Load_def parseFile_def parseReader_def split: sum.splits option.splits prod.splits yamlTail.splits)
    force+

text \<open>A file with one capability of one offering, for the concrete instances.\<close>

definition sampleYaml :: yamlConfig where
  "sampleYaml =
     \<lparr>y_ProtocolVersion = 1, y_WorkerEthAddress = [], y_AuthToken = [],
      y_PaymentDaemon = rawYAMLNode_UnmarshalYAML (MappingNode (Inr [])),
      y_Worker = \<lparr>yw_HTTPListen = '':8080'', yw_PaymentDaemonSocket = ''/run/d.sock'', yw_MaxConcurrentRequests = 2,
                  yw_VerifyDaemonConsistencyOnStart = True\<rparr>,
      y_Capabilities =
        [\<lparr>yc_Capability = ''openai:/v1/chat/completions'', yc_WorkUnit = ''token'',
          yc_Extra = \<lparr>yo_Present = False, yo_Value = None\<rparr>,
          yc_Offerings =
            [\<lparr>yf_ID = ''m'', yf_PricePerWorkUnitWei = ''7'', yf_BackendURL = ''http://h'',
              yf_Constraints = \<lparr>yo_Present = False, yo_Value = None\<rparr>\<rparr>],
          yc_DebitCadenceSeconds = 0, yc_SufficientMinRunwaySeconds = 0, yc_SufficientGraceSeconds = 0\<rparr>],
      y_ServiceRegistryPublisher = \<lparr>rn_Present = False, rn_Node = None\<rparr>\<rparr>"

lemma wf_sampleYaml: "wfYaml sampleYaml"
proof -
  have "urlParseOk ''http://h''" by code_simp
  moreover have "capabilityRE ''openai:/v1/chat/completions''" by (simp add: capabilityRE_def isLower_def isDigit_def)
  moreover have "setString10 ''7'' = Some 7"
    by (simp add: setString10_def parseNat_def isDigit_def digitVal_def)
  ultimately show ?thesis
    by (simp add: wfYaml_def sampleYaml_def rawYAMLNode_UnmarshalYAML_def wfCapability_def wfOffering_def wfPrice_def
        wfObject_def knownWorkUnits_def)
qed

text \<open>C17 The routing table of a loaded file answers for exactly the offerings of the file, each
  with its own backend, unit and price, and the price is a positive decimal number.\<close>

theorem Lookup_loaded:
  assumes "Load decode openFile path = Inr cfg" and "openFile path = Inr content" and "decode content = (Inr y, tail)"
  shows "(Lookup cfg cap model = Some r \<longleftrightarrow>
      (\<exists>c\<in>set (y_Capabilities y). \<exists>m\<in>set (yc_Offerings c). cap = yc_Capability c \<and> model = yf_ID m \<and> r = yamlRoute c m))
    \<and> (Lookup cfg cap model = Some r \<longrightarrow> wfPrice (mr_PricePerWorkUnitWei r))"
proof -
  have y: "wfYaml y" "cfg = projectFromYAML y" using Load_source [OF assms] by blast+
  show ?thesis using Lookup_wf [OF y(1)] Lookup_price [OF y(1)] y(2) by blast
qed

lemma Load_sample: "Load (\<lambda>_. (Inr sampleYaml, TailEOF)) (\<lambda>_. Inr []) path = Inr (projectFromYAML sampleYaml)"
  using wf_sampleYaml by (simp add: Load_def parseFile_def parseReader_def validate_wf [symmetric])

theorem Lookup_loaded_witness:
  "Load (\<lambda>_. (Inr sampleYaml, TailEOF)) (\<lambda>_. Inr []) ''worker.yaml'' = Inr (projectFromYAML sampleYaml) \<and>
   (\<forall>r. Lookup (projectFromYAML sampleYaml) ''openai:/v1/chat/completions'' ''m'' = Some r \<longleftrightarrow>
      r = yamlRoute (hd (y_Capabilities sampleYaml)) (hd (yc_Offerings (hd (y_Capabilities sampleYaml)))))"
  using Load_sample Lookup_loaded [OF Load_sample refl refl, of "''openai:/v1/chat/completions''" "''m''"]
  by (simp add: sampleYaml_def)

end
