(* ===== verification/Payee.thy ===== *)
theory Payee
  imports World
begin

text \<open>
  \<open>internal/providers/payeedaemon\<close>: the client of the payment daemon. \<open>Client\<close> is the
  interface of \<open>interface.go\<close>, \<open>meteredClient\<close> its metrics decorator, \<open>fakeClient\<close> the
  in-memory ledger of \<open>fake.go\<close> and \<open>grpcClient\<close> the production client of \<open>grpc.go\<close>.

  The daemon and the gRPC runtime are not part of the repository: the generated stub is
  a parameter (\<open>Stub\<close>), one arbitrary state-passing function per RPC over an arbitrary
  daemon state. The messages are records with the fields the client reads.

  Two interfaces are stated as locales. \<open>quiet_client\<close>: no operation of a client takes a
  slot or notes an effect. \<open>session_ledger\<close>: what a client promises about balances; it
  is interpreted on \<open>fakeClient\<close>.
\<close>

section \<open>The client interface\<close>

type_synonym ('r, 'd, 'b) act = "('d, 'b) World \<Rightarrow> (Err + 'r) \<times> ('d, 'b) World"

record ('d, 'b) Client =
  cl_ListCapabilities :: "(ListCapabilitiesResult, 'd, 'b) act"
  cl_GetQuote :: "bytes \<Rightarrow> string \<Rightarrow> (GetQuoteResult, 'd, 'b) act"
  cl_GetTicketParams :: "GetTicketParamsRequest \<Rightarrow> (TicketParams, 'd, 'b) act"
  cl_OpenSession :: "OpenSessionRequest \<Rightarrow> (OpenSessionResult, 'd, 'b) act"
  cl_ProcessPayment :: "bytes \<Rightarrow> string \<Rightarrow> (ProcessPaymentResult, 'd, 'b) act"
  cl_DebitBalance :: "bytes \<Rightarrow> string \<Rightarrow> int \<Rightarrow> (DebitBalanceResult, 'd, 'b) act"
  cl_CloseSession :: "bytes \<Rightarrow> string \<Rightarrow> (CloseSessionResult, 'd, 'b) act"

section \<open>The metrics decorator\<close>

definition meteredRPC :: "string \<Rightarrow> ('r, 'd, 'b) act \<Rightarrow> ('r, 'd, 'b) act" where
  "meteredRPC meth act w =
     (let (res, w1) = act w;
          outcome = (case res of Inl _ \<Rightarrow> OutcomeError | Inr _ \<Rightarrow> OutcomeOK)
      in (res, emit (ObserveDaemonRPC meth outcome) (emit (IncDaemonRPC meth outcome) w1)))"

definition meteredClient :: "('d, 'b) Client \<Rightarrow> ('d, 'b) Client" where
  "meteredClient c =
     \<lparr>cl_ListCapabilities = meteredRPC MethodListCapabilities (cl_ListCapabilities c),
      cl_GetQuote = (\<lambda>sender cap. meteredRPC MethodGetQuote (cl_GetQuote c sender cap)),
      cl_GetTicketParams = (\<lambda>req. meteredRPC MethodGetTicketParams (cl_GetTicketParams c req)),
      cl_OpenSession = (\<lambda>req. meteredRPC MethodOpenSession (cl_OpenSession c req)),
      cl_ProcessPayment = (\<lambda>pay workID. meteredRPC MethodProcessPayment (cl_ProcessPayment c pay workID)),
      cl_DebitBalance = (\<lambda>sender workID units. meteredRPC MethodDebitBalance (cl_DebitBalance c sender workID units)),
      cl_CloseSession = (\<lambda>sender workID. meteredRPC MethodCloseSession (cl_CloseSession c sender workID))\<rparr>"

text \<open>\<open>WithMetrics\<close> returns the bare client when there is no recorder.\<close>

definition WithMetrics :: "('d, 'b) Client \<Rightarrow> bool \<Rightarrow> ('d, 'b) Client" where
  "WithMetrics c recNil = (if recNil then c else meteredClient c)"

section \<open>The in-memory daemon\<close>

record Fake =
  fk_ProcessPaymentError :: "Err option"
  fk_DebitBalanceError :: "Err option"
  fk_OpenSessionError :: "Err option"
  fk_CloseSessionError :: "Err option"
  fk_ListCapabilitiesResponse :: ListCapabilitiesResult
  fk_ListCapabilitiesError :: "Err option"
  fk_GetQuoteResponse :: GetQuoteResult
  fk_GetQuoteError :: "Err option"
  fk_GetTicketParamsResponse :: TicketParams
  fk_GetTicketParamsError :: "Err option"
  fk_CreditPerCall :: int
  fk_DebitWeiPerWorkUnit :: int
  fk_SenderAddress :: bytes
  fk_ProcessPaymentCalls :: nat
  fk_DebitBalanceCalls :: nat
  fk_OpenSessionCalls :: nat
  fk_CloseSessionCalls :: nat
  fk_GetQuoteCalls :: nat
  fk_GetTicketParamsCalls :: nat
  fk_LastProcessPaymentPayload :: bytes
  fk_LastDebitBalanceWorkUnits :: int
  fk_LastOpenSession :: "OpenSessionRequest option"
  fk_LastProcessPaymentWorkID :: string
  fk_LastDebitBalanceWorkID :: string
  fk_LastCloseSessionWorkID :: string
  fk_LastCloseSessionSender :: bytes
  fk_LastGetQuoteSender :: bytes
  fk_LastGetQuoteCapability :: string
  fk_LastGetTicketParams :: "GetTicketParamsRequest option"
  fk_balances :: "string \<rightharpoonup> int"

definition zeroTicketParams :: TicketParams where
  "zeroTicketParams = \<lparr>tp_Recipient = [], tp_FaceValueWei = [], tp_WinProb = [], tp_RecipientRandHash = [],
     tp_Seed = [], tp_ExpirationBlock = [],
     tp_ExpirationParams = \<lparr>te_CreationRound = 0, te_CreationRoundBlockHash = []\<rparr>\<rparr>"

definition NewFake :: Fake where
  "NewFake = \<lparr>fk_ProcessPaymentError = None, fk_DebitBalanceError = None, fk_OpenSessionError = None,
     fk_CloseSessionError = None, fk_ListCapabilitiesResponse = \<lparr>lc_Capabilities = []\<rparr>,
     fk_ListCapabilitiesError = None,
     fk_GetQuoteResponse = \<lparr>gq_TicketParams = zeroTicketParams, gq_OfferingPrices = []\<rparr>,
     fk_GetQuoteError = None, fk_GetTicketParamsResponse = zeroTicketParams,
     fk_GetTicketParamsError = None, fk_CreditPerCall = 1000000000, fk_DebitWeiPerWorkUnit = 1,
     fk_SenderAddress = map chr [0x0a, 0x0b, 0x0c, 0x0d, 0x0e, 0x0f, 0x10, 0x11, 0x12, 0x13, 0x14, 0x15, 0x16,
       0x17, 0x18, 0x19, 0x1a, 0x1b, 0x1c, 0x1d],
     fk_ProcessPaymentCalls = 0, fk_DebitBalanceCalls = 0, fk_OpenSessionCalls = 0,
     fk_CloseSessionCalls = 0, fk_GetQuoteCalls = 0, fk_GetTicketParamsCalls = 0,
     fk_LastProcessPaymentPayload = [], fk_LastDebitBalanceWorkUnits = 0, fk_LastOpenSession = None,
     fk_LastProcessPaymentWorkID = [], fk_LastDebitBalanceWorkID = [], fk_LastCloseSessionWorkID = [],
     fk_LastCloseSessionSender = [], fk_LastGetQuoteSender = [], fk_LastGetQuoteCapability = [],
     fk_LastGetTicketParams = None, fk_balances = Map.empty\<rparr>"

definition balanceKey :: "bytes \<Rightarrow> string \<Rightarrow> string" where
  "balanceKey sender workID = sender @ ''::'' @ workID"

definition BalanceFor :: "bytes \<Rightarrow> string \<Rightarrow> Fake \<Rightarrow> int" where
  "BalanceFor sender workID f = (case fk_balances f (balanceKey sender workID) of None \<Rightarrow> 0 | Some b \<Rightarrow> b)"

definition fakeListCapabilities :: "Fake \<Rightarrow> (Err + ListCapabilitiesResult) \<times> Fake" where
  "fakeListCapabilities f =
     (case fk_ListCapabilitiesError f of
        Some e \<Rightarrow> (Inl e, f) | None \<Rightarrow> (Inr (fk_ListCapabilitiesResponse f), f))"

definition fakeGetQuote :: "bytes \<Rightarrow> string \<Rightarrow> Fake \<Rightarrow> (Err + GetQuoteResult) \<times> Fake" where
  "fakeGetQuote sender cap f =
     (let f1 = f\<lparr>fk_GetQuoteCalls := fk_GetQuoteCalls f + 1, fk_LastGetQuoteSender := sender,
                 fk_LastGetQuoteCapability := cap\<rparr>
      in case fk_GetQuoteError f of Some e \<Rightarrow> (Inl e, f1) | None \<Rightarrow> (Inr (fk_GetQuoteResponse f), f1))"

definition fakeGetTicketParams :: "GetTicketParamsRequest \<Rightarrow> Fake \<Rightarrow> (Err + TicketParams) \<times> Fake" where
  "fakeGetTicketParams req f =
     (let f1 = f\<lparr>fk_GetTicketParamsCalls := fk_GetTicketParamsCalls f + 1, fk_LastGetTicketParams := Some req\<rparr>
      in case fk_GetTicketParamsError f of
           Some e \<Rightarrow> (Inl e, f1) | None \<Rightarrow> (Inr (fk_GetTicketParamsResponse f), f1))"

definition fakeOpenSession :: "OpenSessionRequest \<Rightarrow> Fake \<Rightarrow> (Err + OpenSessionResult) \<times> Fake" where
  "fakeOpenSession req f =
     (let f1 = f\<lparr>fk_OpenSessionCalls := fk_OpenSessionCalls f + 1, fk_LastOpenSession := Some req\<rparr>
      in case fk_OpenSessionError f of
           Some e \<Rightarrow> (Inl e, f1) | None \<Rightarrow> (Inr \<lparr>or_Opened = True, or_AlreadyOpen = False\<rparr>, f1))"

definition fakeProcessPayment :: "bytes \<Rightarrow> string \<Rightarrow> Fake \<Rightarrow> (Err + ProcessPaymentResult) \<times> Fake" where
  "fakeProcessPayment pay workID f =
     (let f1 = f\<lparr>fk_ProcessPaymentCalls := fk_ProcessPaymentCalls f + 1,
                 fk_LastProcessPaymentPayload := pay, fk_LastProcessPaymentWorkID := workID\<rparr>
      in case fk_ProcessPaymentError f of
           Some e \<Rightarrow> (Inl e, f1)
         | None \<Rightarrow>
             let credited = fk_CreditPerCall f;
                 key = balanceKey (fk_SenderAddress f) workID;
                 bal = (case fk_balances f key of None \<Rightarrow> 0 | Some b \<Rightarrow> b) + credited
             in (Inr \<lparr>pp_Sender = fk_SenderAddress f, pp_CreditedEVWei = credited, pp_BalanceWei = bal,
                      pp_WinnersQueued = 0\<rparr>,
                 f1\<lparr>fk_balances := (fk_balances f)(key \<mapsto> bal)\<rparr>))"

definition fakeDebitBalance :: "bytes \<Rightarrow> string \<Rightarrow> int \<Rightarrow> Fake \<Rightarrow> (Err + DebitBalanceResult) \<times> Fake" where
  "fakeDebitBalance sender workID units f =
     (let f1 = f\<lparr>fk_DebitBalanceCalls := fk_DebitBalanceCalls f + 1,
                 fk_LastDebitBalanceWorkUnits := units, fk_LastDebitBalanceWorkID := workID\<rparr>
      in case fk_DebitBalanceError f of
           Some e \<Rightarrow> (Inl e, f1)
         | None \<Rightarrow>
             let key = balanceKey sender workID;
                 debit = fk_DebitWeiPerWorkUnit f * units;
                 bal = (case fk_balances f key of None \<Rightarrow> 0 | Some b \<Rightarrow> b) - debit
             in (Inr \<lparr>db_BalanceWei = bal\<rparr>, f1\<lparr>fk_balances := (fk_balances f)(key \<mapsto> bal)\<rparr>))"

definition fakeCloseSession :: "bytes \<Rightarrow> string \<Rightarrow> Fake \<Rightarrow> (Err + CloseSessionResult) \<times> Fake" where
  "fakeCloseSession sender workID f =
     (let f1 = f\<lparr>fk_CloseSessionCalls := fk_CloseSessionCalls f + 1, fk_LastCloseSessionWorkID := workID,
                 fk_LastCloseSessionSender := sender\<rparr>
      in case fk_CloseSessionError f of
           Some e \<Rightarrow> (Inl e, f1) | None \<Rightarrow> (Inr \<lparr>cs_Closed = True, cs_AlreadyClosed = False\<rparr>, f1))"

definition fakeClose :: "Fake \<Rightarrow> Err option \<times> Fake" where
  "fakeClose f = (None, f)"

text \<open>An operation on the daemon state as an operation on the world.\<close>

definition onDaemon :: "('d \<Rightarrow> (Err + 'r) \<times> 'd) \<Rightarrow> ('r, 'd, 'b) act" where
  "onDaemon f w = (let (res, d) = f (w_daemon w) in (res, w\<lparr>w_daemon := d\<rparr>))"

definition fakeClient :: "(Fake, 'b) Client" where
  "fakeClient =
     \<lparr>cl_ListCapabilities = onDaemon fakeListCapabilities,
      cl_GetQuote = (\<lambda>sender cap. onDaemon (fakeGetQuote sender cap)),
      cl_GetTicketParams = (\<lambda>req. onDaemon (fakeGetTicketParams req)),
      cl_OpenSession = (\<lambda>req. onDaemon (fakeOpenSession req)),
      cl_ProcessPayment = (\<lambda>pay workID. onDaemon (fakeProcessPayment pay workID)),
      cl_DebitBalance = (\<lambda>sender workID units. onDaemon (fakeDebitBalance sender workID units)),
      cl_CloseSession = (\<lambda>sender workID. onDaemon (fakeCloseSession sender workID))\<rparr>"

section \<open>The gRPC client\<close>

record PbPriceInfo =
  pb_PricePerUnit :: int
  pb_PixelsPerUnit :: int

record PbOfferingPrice =
  pb_Id :: string
  pb_PriceInfo :: "PbPriceInfo option"

record PbCapabilityEntry =
  pb_Capability :: string
  pb_WorkUnit :: string
  pb_Offerings :: "PbOfferingPrice list"

record PbTicketExpirationParams =
  pb_CreationRound :: int
  pb_CreationRoundBlockHash :: bytes

record PbTicketParams =
  pb_Recipient :: bytes
  pb_FaceValue :: bytes
  pb_WinProb :: bytes
  pb_RecipientRandHash :: bytes
  pb_Seed :: bytes
  pb_ExpirationBlock :: bytes
  pb_ExpirationParams :: "PbTicketExpirationParams option"

record PbOpenSessionRequest =
  pb_WorkId :: string
  pb_osCapability :: string
  pb_Offering :: string
  pb_PricePerWorkUnitWei :: bytes
  pb_osWorkUnit :: string

record PbProcessPaymentResponse =
  pb_Sender :: bytes
  pb_CreditedEv :: bytes
  pb_Balance :: bytes
  pb_WinnersQueued :: int

record PbGetTicketParamsRequest =
  pb_gtSender :: bytes
  pb_gtRecipient :: bytes
  pb_gtFaceValue :: bytes
  pb_gtCapability :: string
  pb_gtOffering :: string

datatype PbOutcome = OUTCOME_UNSPECIFIED | OUTCOME_OPENED | OUTCOME_ALREADY_OPEN | OUTCOME_OTHER nat

text \<open>The generated stub: one function per RPC, over whatever state the daemon has.\<close>

record 'd Stub =
  st_ListCapabilities :: "'d \<Rightarrow> (Err + PbCapabilityEntry list) \<times> 'd"
  st_GetQuote :: "bytes \<Rightarrow> string \<Rightarrow> 'd \<Rightarrow> (Err + PbTicketParams option \<times> PbOfferingPrice list) \<times> 'd"
  st_GetTicketParams :: "PbGetTicketParamsRequest \<Rightarrow> 'd \<Rightarrow> (Err + PbTicketParams option) \<times> 'd"
  st_OpenSession :: "PbOpenSessionRequest \<Rightarrow> 'd \<Rightarrow> (Err + PbOutcome) \<times> 'd"
  st_ProcessPayment :: "bytes \<Rightarrow> string \<Rightarrow> 'd \<Rightarrow> (Err + PbProcessPaymentResponse) \<times> 'd"
  st_DebitBalance :: "bytes \<Rightarrow> string \<Rightarrow> int \<Rightarrow> 'd \<Rightarrow> (Err + bytes) \<times> 'd"
  st_CloseSession :: "bytes \<Rightarrow> string \<Rightarrow> 'd \<Rightarrow> (Err + unit) \<times> 'd"
  st_conn :: "('d \<Rightarrow> Err option \<times> 'd) option"

definition priceInfoToWeiString :: "PbPriceInfo option \<Rightarrow> string" where
  "priceInfoToWeiString p =
     (case p of
        None \<Rightarrow> ''0''
      | Some pi \<Rightarrow>
          let num = pb_PricePerUnit pi; den = pb_PixelsPerUnit pi in
          if den \<le> 0 then showInt num else showInt (quot num den))"

definition mapOffering :: "PbOfferingPrice \<Rightarrow> OfferingPrice" where
  "mapOffering o1 = \<lparr>op_ID = pb_Id o1, op_PricePerWorkUnitWei = priceInfoToWeiString (pb_PriceInfo o1)\<rparr>"

text \<open>The getters of a message return zero values on a nil message.\<close>

definition mapTicketParams :: "PbTicketParams option \<Rightarrow> TicketParams" where
  "mapTicketParams tp =
     (case tp of
        None \<Rightarrow> zeroTicketParams
      | Some t \<Rightarrow>
          \<lparr>tp_Recipient = pb_Recipient t, tp_FaceValueWei = pb_FaceValue t, tp_WinProb = pb_WinProb t,
           tp_RecipientRandHash = pb_RecipientRandHash t, tp_Seed = pb_Seed t,
           tp_ExpirationBlock = pb_ExpirationBlock t,
           tp_ExpirationParams =
             (case pb_ExpirationParams t of
                None \<Rightarrow> \<lparr>te_CreationRound = 0, te_CreationRoundBlockHash = []\<rparr>
              | Some e \<Rightarrow> \<lparr>te_CreationRound = pb_CreationRound e,
                            te_CreationRoundBlockHash = pb_CreationRoundBlockHash e\<rparr>)\<rparr>)"

definition grpcListCapabilities :: "'d Stub \<Rightarrow> 'd \<Rightarrow> (Err + ListCapabilitiesResult) \<times> 'd" where
  "grpcListCapabilities st d =
     (case st_ListCapabilities st d of
        (Inl e, d') \<Rightarrow> (Inl (wrapf ''payeedaemon: ListCapabilities: '' e), d')
      | (Inr caps, d') \<Rightarrow>
          (Inr \<lparr>lc_Capabilities =
             map (\<lambda>c. \<lparr>dc_Capability = pb_Capability c, dc_WorkUnit = pb_WorkUnit c,
                        dc_Offerings = map mapOffering (pb_Offerings c)\<rparr>) caps\<rparr>, d'))"

definition grpcOpenSession :: "'d Stub \<Rightarrow> OpenSessionRequest \<Rightarrow> 'd \<Rightarrow> (Err + OpenSessionResult) \<times> 'd" where
  "grpcOpenSession st req d =
     (case st_OpenSession st
             \<lparr>pb_WorkId = os_WorkID req, pb_osCapability = os_Capability req, pb_Offering = os_Offering req,
              pb_PricePerWorkUnitWei = bigBytes (os_PricePerWorkUnitWei req), pb_osWorkUnit = os_WorkUnit req\<rparr> d of
        (Inl e, d') \<Rightarrow> (Inl (wrapf ''payeedaemon: OpenSession: '' e), d')
      | (Inr oc, d') \<Rightarrow>
          (Inr \<lparr>or_Opened = (oc = OUTCOME_OPENED), or_AlreadyOpen = (oc = OUTCOME_ALREADY_OPEN)\<rparr>, d'))"

definition grpcProcessPayment :: "'d Stub \<Rightarrow> bytes \<Rightarrow> string \<Rightarrow> 'd \<Rightarrow> (Err + ProcessPaymentResult) \<times> 'd" where
  "grpcProcessPayment st pay workID d =
     (case st_ProcessPayment st pay workID d of
        (Inl e, d') \<Rightarrow> (Inl (wrapf ''payeedaemon: ProcessPayment: '' e), d')
      | (Inr resp, d') \<Rightarrow>
          (Inr \<lparr>pp_Sender = pb_Sender resp, pp_CreditedEVWei = setBytes (pb_CreditedEv resp),
                pp_BalanceWei = setBytes (pb_Balance resp), pp_WinnersQueued = pb_WinnersQueued resp\<rparr>, d'))"

definition grpcGetQuote :: "'d Stub \<Rightarrow> bytes \<Rightarrow> string \<Rightarrow> 'd \<Rightarrow> (Err + GetQuoteResult) \<times> 'd" where
  "grpcGetQuote st sender cap d =
     (case st_GetQuote st sender cap d of
        (Inl e, d') \<Rightarrow> (Inl (wrapf ''payeedaemon: GetQuote: '' e), d')
      | (Inr (tp, ops), d') \<Rightarrow>
          (Inr \<lparr>gq_TicketParams = mapTicketParams tp, gq_OfferingPrices = map mapOffering ops\<rparr>, d'))"

definition grpcGetTicketParams :: "'d Stub \<Rightarrow> GetTicketParamsRequest \<Rightarrow> 'd \<Rightarrow> (Err + TicketParams) \<times> 'd" where
  "grpcGetTicketParams st req d =
     (case st_GetTicketParams st
             \<lparr>pb_gtSender = gt_Sender req, pb_gtRecipient = gt_Recipient req,
              pb_gtFaceValue = bigBytes (gt_FaceValue req), pb_gtCapability = gt_Capability req,
              pb_gtOffering = gt_Offering req\<rparr> d of
        (Inl e, d') \<Rightarrow> (Inl (wrapf ''payeedaemon: GetTicketParams: '' e), d')
      | (Inr None, d') \<Rightarrow>
          (Inl (errorsNew ''payeedaemon: GetTicketParams: daemon returned nil ticket_params''), d')
      | (Inr (Some tp), d') \<Rightarrow> (Inr (mapTicketParams (Some tp)), d'))"

definition grpcDebitBalance :: "'d Stub \<Rightarrow> bytes \<Rightarrow> string \<Rightarrow> int \<Rightarrow> 'd \<Rightarrow> (Err + DebitBalanceResult) \<times> 'd" where
  "grpcDebitBalance st sender workID units d =
     (case st_DebitBalance st sender workID units d of
        (Inl e, d') \<Rightarrow> (Inl (wrapf ''payeedaemon: DebitBalance: '' e), d')
      | (Inr bal, d') \<Rightarrow> (Inr \<lparr>db_BalanceWei = setBytes bal\<rparr>, d'))"

definition grpcCloseSession :: "'d Stub \<Rightarrow> bytes \<Rightarrow> string \<Rightarrow> 'd \<Rightarrow> (Err + CloseSessionResult) \<times> 'd" where
  "grpcCloseSession st sender workID d =
     (case st_CloseSession st sender workID d of
        (Inl e, d') \<Rightarrow> (Inl (wrapf ''payeedaemon: CloseSession: '' e), d')
      | (Inr _, d') \<Rightarrow> (Inr \<lparr>cs_Closed = True, cs_AlreadyClosed = False\<rparr>, d'))"

text \<open>\<open>Close\<close>: \<open>st_conn\<close> is the connection's own \<open>Close\<close>, \<open>None\<close> a nil connection.\<close>

definition grpcClose :: "'d Stub \<Rightarrow> 'd \<Rightarrow> Err option \<times> 'd" where
  "grpcClose st d = (case st_conn st of None \<Rightarrow> (None, d) | Some close \<Rightarrow> close d)"

text \<open>\<open>Dial\<close>: \<open>newClient\<close> is \<open>grpc.NewClient\<close> with the daemon's stub on top, \<open>quote\<close> the verb \<open>%q\<close>.\<close>

definition Dial :: "(string \<Rightarrow> string) \<Rightarrow> (string \<Rightarrow> Err + 'd Stub) \<Rightarrow> string \<Rightarrow> Err + 'd Stub" where
  "Dial quote newClient socketPath =
     (if socketPath = [] then Inl (errorsNew ''payeedaemon: Dial requires a socket path'')
      else case newClient (''unix://'' @ socketPath) of
             Inl e \<Rightarrow> Inl (wrapf (''payeedaemon: dial '' @ quote socketPath @ '': '') e)
           | Inr st \<Rightarrow> Inr st)"

definition grpcClient :: "'d Stub \<Rightarrow> ('d, 'b) Client" where
  "grpcClient st =
     \<lparr>cl_ListCapabilities = onDaemon (grpcListCapabilities st),
      cl_GetQuote = (\<lambda>sender cap. onDaemon (grpcGetQuote st sender cap)),
      cl_GetTicketParams = (\<lambda>req. onDaemon (grpcGetTicketParams st req)),
      cl_OpenSession = (\<lambda>req. onDaemon (grpcOpenSession st req)),
      cl_ProcessPayment = (\<lambda>pay workID. onDaemon (grpcProcessPayment st pay workID)),
      cl_DebitBalance = (\<lambda>sender workID units. onDaemon (grpcDebitBalance st sender workID units)),
      cl_CloseSession = (\<lambda>sender workID. onDaemon (grpcCloseSession st sender workID))\<rparr>"

section \<open>Quiet clients\<close>

definition quiet :: "('r, 'd, 'b) act \<Rightarrow> bool" where
  "quiet act \<longleftrightarrow> (\<forall>w. extends w (snd (act w)))"

lemma quietD: "quiet act \<Longrightarrow> act w = (r, w') \<Longrightarrow> extends w w'"
  unfolding quiet_def by (metis snd_conv)

lemma quiet_onDaemon [simp]: "quiet (onDaemon f)"
  by (simp add: quiet_def onDaemon_def split: prod.splits)

lemma quiet_meteredRPC: "quiet act \<Longrightarrow> quiet (meteredRPC meth act)"
  unfolding quiet_def meteredRPC_def
  by (auto simp: Let_def split: prod.splits intro!: extends_emit_right) (metis snd_conv)

locale quiet_client =
  fixes c :: "('d, 'b) Client"
  assumes quiet_list: "quiet (cl_ListCapabilities c)"
    and quiet_quote: "quiet (cl_GetQuote c s q)"
    and quiet_ticket: "quiet (cl_GetTicketParams c g)"
    and quiet_open: "quiet (cl_OpenSession c req)"
    and quiet_process: "quiet (cl_ProcessPayment c p k)"
    and quiet_debit: "quiet (cl_DebitBalance c s k n)"
    and quiet_close: "quiet (cl_CloseSession c s k)"

text \<open>The decorator keeps a client quiet, whatever client it wraps.\<close>

context quiet_client
begin

lemmas quiet_ops = quiet_list quiet_quote quiet_ticket quiet_open quiet_process quiet_debit quiet_close

lemma quiet_metered: "quiet_client (meteredClient c)"
  by unfold_locales (simp_all add: meteredClient_def quiet_meteredRPC quiet_ops)

lemma quiet_WithMetrics: "quiet_client (WithMetrics c recNil)"
  by (simp add: WithMetrics_def quiet_metered quiet_client_axioms)

end

interpretation fake: quiet_client fakeClient
  by unfold_locales (simp_all add: fakeClient_def)

interpretation grpc: quiet_client "grpcClient st" for st
  by unfold_locales (simp_all add: grpcClient_def)

interpretation grpcMetered: quiet_client "WithMetrics (grpcClient st) recNil" for st recNil
  by (rule grpc.quiet_WithMetrics)

text \<open>The decorator changes neither a result nor the daemon's state.\<close>

lemma meteredRPC_result:
  "fst (meteredRPC meth act w) = fst (act w)"
  "w_daemon (snd (meteredRPC meth act w)) = w_daemon (snd (act w))"
  "w_backend (snd (meteredRPC meth act w)) = w_backend (snd (act w))"
  by (simp_all add: meteredRPC_def Let_def split: prod.splits)

section \<open>The ledger contract\<close>

locale session_ledger =
  fixes c :: "('d, 'b) Client"
    and balance :: "bytes \<Rightarrow> string \<Rightarrow> 'd \<Rightarrow> int"
    and rate :: "'d \<Rightarrow> int"
  assumes open_balance:
      "cl_OpenSession c req w = (res, w') \<Longrightarrow>
         balance s k (w_daemon w') = balance s k (w_daemon w) \<and> rate (w_daemon w') = rate (w_daemon w)"
    and process_credit:
      "cl_ProcessPayment c p k w = (Inr pp, w') \<Longrightarrow>
         balance s k (w_daemon w') =
           balance s k (w_daemon w) + (if s = pp_Sender pp then pp_CreditedEVWei pp else 0) \<and>
         pp_BalanceWei pp = balance (pp_Sender pp) k (w_daemon w') \<and> rate (w_daemon w') = rate (w_daemon w)"
    and process_error:
      "cl_ProcessPayment c p k w = (Inl e, w') \<Longrightarrow>
         balance s k (w_daemon w') = balance s k (w_daemon w) \<and> rate (w_daemon w') = rate (w_daemon w)"
    and debit_ok:
      "cl_DebitBalance c s' k n w = (Inr db, w') \<Longrightarrow>
         balance s k (w_daemon w') = balance s k (w_daemon w) - (if s = s' then rate (w_daemon w) * n else 0) \<and>
         db_BalanceWei db = balance s' k (w_daemon w') \<and> rate (w_daemon w') = rate (w_daemon w)"
    and debit_error:
      "cl_DebitBalance c s' k n w = (Inl e, w') \<Longrightarrow>
         balance s k (w_daemon w') = balance s k (w_daemon w) \<and> rate (w_daemon w') = rate (w_daemon w)"
    and close_balance:
      "cl_CloseSession c s' k w = (cres, w') \<Longrightarrow>
         balance s k (w_daemon w') = balance s k (w_daemon w) \<and> rate (w_daemon w') = rate (w_daemon w)"

lemma balanceKey_inj [simp]: "balanceKey s k = balanceKey s' k \<longleftrightarrow> s = s'"
  by (simp add: balanceKey_def)

lemmas fake_defs = fakeClient_def onDaemon_def fakeOpenSession_def fakeProcessPayment_def fakeDebitBalance_def
  fakeCloseSession_def BalanceFor_def Let_def

interpretation fakeLedger: session_ledger fakeClient BalanceFor fk_DebitWeiPerWorkUnit
  by unfold_locales (auto simp: fake_defs split: option.splits)

section \<open>The gRPC client's conversions\<close>

lemma grpc_debit_nonneg:
  "cl_DebitBalance (grpcClient st) s k n w = (Inr db, w') \<Longrightarrow> 0 \<le> db_BalanceWei db"
  by (auto simp: grpcClient_def onDaemon_def grpcDebitBalance_def setBytes_nonneg
      split: prod.splits sum.splits)

section \<open>Correctness\<close>

text \<open>The metrics decorator is transparent: every RPC returns the wrapped client's result and
  leaves the daemon as the wrapped client does; the log gains, after the client's own
  entries, one counter and one duration labelled with the method and the outcome.\<close>

theorem meteredClient_transparent:
  "fst (cl_OpenSession (meteredClient c) req w) = fst (cl_OpenSession c req w) \<and>
   fst (cl_ProcessPayment (meteredClient c) p k w) = fst (cl_ProcessPayment c p k w) \<and>
   fst (cl_DebitBalance (meteredClient c) s k n w) = fst (cl_DebitBalance c s k n w) \<and>
   fst (cl_CloseSession (meteredClient c) s k w) = fst (cl_CloseSession c s k w) \<and>
   fst (cl_GetTicketParams (meteredClient c) g w) = fst (cl_GetTicketParams c g w) \<and>
   w_daemon (snd (cl_DebitBalance (meteredClient c) s k n w)) = w_daemon (snd (cl_DebitBalance c s k n w)) \<and>
   w_calls (snd (cl_DebitBalance (meteredClient c) s k n w)) =
     w_calls (snd (cl_DebitBalance c s k n w)) @
     (let oc = (case fst (cl_DebitBalance c s k n w) of Inl _ \<Rightarrow> OutcomeError | Inr _ \<Rightarrow> OutcomeOK)
      in [Metric (IncDaemonRPC MethodDebitBalance oc), Metric (ObserveDaemonRPC MethodDebitBalance oc)])"
  by (simp add: meteredClient_def meteredRPC_def split_beta Let_def)

text \<open>The price goes over the wire unharmed: the bytes \<open>OpenSession\<close> sends read back, as the
  unsigned big-endian number the daemon reads, as the configured price.\<close>

theorem grpcOpenSession_price:
  assumes "0 \<le> os_PricePerWorkUnitWei req"
  shows "\<exists>pb. setBytes (pb_PricePerWorkUnitWei pb) = os_PricePerWorkUnitWei req \<and> pb_WorkId pb = os_WorkID req \<and>
    pb_osCapability pb = os_Capability req \<and> pb_Offering pb = os_Offering req \<and> pb_osWorkUnit pb = os_WorkUnit req \<and>
    snd (grpcOpenSession st req d) = snd (st_OpenSession st pb d) \<and>
    ((\<exists>e. fst (grpcOpenSession st req d) = Inl e) \<longleftrightarrow> (\<exists>e. fst (st_OpenSession st pb d) = Inl e))"
  using assms setBytes_bigBytes
  by (intro exI [of _ "\<lparr>pb_WorkId = os_WorkID req, pb_osCapability = os_Capability req, pb_Offering = os_Offering req,
     pb_PricePerWorkUnitWei = bigBytes (os_PricePerWorkUnitWei req), pb_osWorkUnit = os_WorkUnit req\<rparr>"])
    (auto simp: grpcOpenSession_def split: prod.splits sum.splits)

text \<open>A daemon that answers every call, with a balance of 5 bytes after any debit.\<close>

definition sampleStub :: "unit Stub" where
  "sampleStub =
     \<lparr>st_ListCapabilities = (\<lambda>d.
        (Inr [\<lparr>pb_Capability = ''openai:/v1/chat/completions'', pb_WorkUnit = ''token'',
               pb_Offerings = [\<lparr>pb_Id = ''m'', pb_PriceInfo = Some \<lparr>pb_PricePerUnit = 7, pb_PixelsPerUnit = 1\<rparr>\<rparr>]\<rparr>], d)),
      st_GetQuote = (\<lambda>_ _ d. (Inr (None, []), d)),
      st_GetTicketParams = (\<lambda>_ d. (Inr None, d)),
      st_OpenSession = (\<lambda>_ d. (Inr OUTCOME_OPENED, d)),
      st_ProcessPayment = (\<lambda>_ _ d.
        (Inr \<lparr>pb_Sender = ''s'', pb_CreditedEv = [CHR 0x05], pb_Balance = [CHR 0x05], pb_WinnersQueued = 0\<rparr>, d)),
      st_DebitBalance = (\<lambda>_ _ _ d. (Inr [CHR 0x05], d)),
      st_CloseSession = (\<lambda>_ _ d. (Inr (), d)),
      st_conn = Some (\<lambda>d. (None, d))\<rparr>"

theorem grpcOpenSession_price_witness:
  "(0 :: int) \<le> 7 \<and> (\<exists>pb. setBytes (pb_PricePerWorkUnitWei pb) = 7 \<and> pb_WorkId pb = ''k'' \<and>
     snd (grpcOpenSession sampleStub
       \<lparr>os_WorkID = ''k'', os_Capability = ''c'', os_Offering = ''m'', os_PricePerWorkUnitWei = 7, os_WorkUnit = ''token''\<rparr> ()) =
     snd (st_OpenSession sampleStub pb ()))"
  using grpcOpenSession_price [of "\<lparr>os_WorkID = ''k'', os_Capability = ''c'', os_Offering = ''m'',
    os_PricePerWorkUnitWei = 7, os_WorkUnit = ''token''\<rparr>" sampleStub "()"] by auto

text \<open>The daemon's signed balance does not survive the production client: what a debit reports is
  the unsigned reading of the daemon's bytes, never a negative number.\<close>

lemma grpc_balance_unsigned:
  "fst (cl_DebitBalance (WithMetrics (grpcClient st) recNil) s k n w) = Inr db \<Longrightarrow> 0 \<le> db_BalanceWei db"
  using meteredRPC_result(1) [of MethodDebitBalance "cl_DebitBalance (grpcClient st) s k n" w]
    grpc_debit_nonneg [of st s k n w db "snd (cl_DebitBalance (grpcClient st) s k n w)"]
  by (auto simp: WithMetrics_def meteredClient_def prod_eq_iff split: if_splits)

end
