(* ===== verification/Recorders.thy ===== *)
theory Recorders
  imports Writer
begin

text \<open>
  The recorders of \<open>internal/providers/metrics\<close> as implementations of one interface: the calls of
  \<open>Metrics\<close> and the HTTP handler that shows what was recorded. \<open>Noop\<close> drops every call and answers
  404, \<open>Counter\<close> counts and answers nothing, \<open>Prometheus\<close> serves its exposition, whose text is the
  client library's and a parameter here.

  A call says whether it panicked, which only \<open>Prometheus\<close> does, on a label that is not UTF-8.
  The world keeps the calls themselves (\<open>w_calls\<close>); \<open>replay\<close> is the state a recorder is in after
  them. The locale \<open>request_tally\<close> states what a recorder that counts requests promises; it is
  interpreted on \<open>Counter\<close> and on an uncapped \<open>Prometheus\<close>. \<open>recPanics\<close> is what the middleware needs of
  the worker's recorder: whether its next call panics.
\<close>

section \<open>The interface\<close>

type_synonym rawHandler = "Request \<Rightarrow> RespWriter \<Rightarrow> RespWriter"

record 's Recorder =
  rec_call :: "metric \<Rightarrow> 's \<Rightarrow> bool \<times> 's"
  rec_Handler :: "'s \<Rightarrow> rawHandler"

definition replay :: "'s Recorder \<Rightarrow> call list \<Rightarrow> 's \<Rightarrow> 's" where
  "replay rec cs s = fold (\<lambda>c s. case c of Metric m \<Rightarrow> snd (rec_call rec m s) | _ \<Rightarrow> s) cs s"

section \<open>Noop\<close>

datatype Noop = Noop

definition NewNoop :: Noop where
  "NewNoop = Noop"

fun noopCall :: "metric \<Rightarrow> Noop \<Rightarrow> Noop" where
  "noopCall (IncRequest _ _ _) n = n"
| "noopCall (ObserveRequest _ _ _) n = n"
| "noopCall (AddWorkUnits _ _ _ _) n = n"
| "noopCall (IncDaemonRPC _ _) n = n"
| "noopCall (ObserveDaemonRPC _ _) n = n"
| "noopCall (IncBackendRequest _ _ _) n = n"
| "noopCall (ObserveBackendRequest _ _) n = n"
| "noopCall (IncBackendError _ _ _) n = n"
| "noopCall (SetBackendLastSuccess _ _) n = n"
| "noopCall (IncTokenizerCall _ _) n = n"
| "noopCall (IncCapacityRejection _) n = n"
| "noopCall (SetInflightRequests _) n = n"
| "noopCall (IncPaymentRejection _) n = n"
| "noopCall (SetUptimeSeconds _) n = n"
| "noopCall (SetBuildInfo _ _ _) n = n"
| "noopCall (SetMaxConcurrent _) n = n"

definition noopHandler :: rawHandler where
  "noopHandler r w = httpError rawRW ''metrics listener not enabled (start the worker with --metrics-listen)'' 404 w"

definition noopRecorder :: "Noop Recorder" where
  "noopRecorder = \<lparr>rec_call = (\<lambda>m n. (False, noopCall m n)), rec_Handler = (\<lambda>_. noopHandler)\<rparr>"

section \<open>Counter and Prometheus\<close>

definition counterHandler :: rawHandler where
  "counterHandler r w = w"

definition counterRecorder :: "Counter Recorder" where
  "counterRecorder = \<lparr>rec_call = (\<lambda>m c. (False, counterCall m c)), rec_Handler = (\<lambda>_. counterHandler)\<rparr>"

text \<open>\<open>promhttp.HandlerFor\<close> over the recorder's registry is the parameter \<open>handlerFor\<close>.\<close>

definition promHandler :: "(Prometheus \<Rightarrow> rawHandler) \<Rightarrow> Prometheus \<Rightarrow> rawHandler" where
  "promHandler handlerFor p = handlerFor p"

definition promRecorder :: "(Prometheus \<Rightarrow> rawHandler) \<Rightarrow> Prometheus Recorder" where
  "promRecorder handlerFor = \<lparr>rec_call = promCall, rec_Handler = promHandler handlerFor\<rparr>"

section \<open>The recorder of the worker\<close>

text \<open>The value of the interface variable: one of the two recorders of \<open>main\<close>.\<close>

datatype workerRecorder = RecNoop Noop | RecProm Prometheus

fun workerCall :: "metric \<Rightarrow> workerRecorder \<Rightarrow> bool \<times> workerRecorder" where
  "workerCall m (RecNoop n) = (False, RecNoop (noopCall m n))"
| "workerCall m (RecProm p) = (let (panic, p') = promCall m p in (panic, RecProm p'))"

fun workerHandler :: "(Prometheus \<Rightarrow> rawHandler) \<Rightarrow> workerRecorder \<Rightarrow> rawHandler" where
  "workerHandler handlerFor (RecNoop _) = noopHandler"
| "workerHandler handlerFor (RecProm p) = promHandler handlerFor p"

definition workerRec :: "(Prometheus \<Rightarrow> rawHandler) \<Rightarrow> workerRecorder Recorder" where
  "workerRec handlerFor = \<lparr>rec_call = workerCall, rec_Handler = workerHandler handlerFor\<rparr>"

text \<open>The choice in \<open>run\<close>, by \<open>--metrics-listen\<close> and \<open>--metrics-max-series-per-metric\<close>.\<close>

definition chooseRecorder :: "string \<Rightarrow> int \<Rightarrow> workerRecorder" where
  "chooseRecorder metricsListen maxSeries =
     (if metricsListen \<noteq> []
      then RecProm (NewPrometheus \<lparr>pcMaxSeriesPerMetric = maxSeries, pcOnCapExceeded = True\<rparr>)
      else RecNoop NewNoop)"

section \<open>Panics\<close>

text \<open>The recorder of the worker after the calls of a log, and whether its next call panics.\<close>

definition recAfter :: "workerRecorder \<Rightarrow> call list \<Rightarrow> workerRecorder" where
  "recAfter rec cs = fold (\<lambda>c s. case c of Metric m \<Rightarrow> snd (workerCall m s) | _ \<Rightarrow> s) cs rec"

definition recPanics :: "workerRecorder \<Rightarrow> call list \<Rightarrow> metric \<Rightarrow> bool" where
  "recPanics rec cs m = fst (workerCall m (recAfter rec cs))"

lemma recAfter_replay: "recAfter rec cs = replay (workerRec handlerFor) cs rec"
  by (simp add: recAfter_def replay_def workerRec_def cong: call.case_cong)

text \<open>The recorders that take every label.\<close>

fun isProm :: "workerRecorder \<Rightarrow> bool" where
  "isProm (RecNoop _) = False"
| "isProm (RecProm _) = True"

lemma workerCall_isProm [simp]: "isProm (snd (workerCall m rec)) = isProm rec"
  by (cases rec) (auto simp: split_beta)

lemma recAfter_isProm [simp]: "isProm (recAfter rec cs) = isProm rec"
proof (induction cs arbitrary: rec)
  case (Cons c cs)
  then show ?case by (cases c) (simp_all add: recAfter_def)
qed (simp add: recAfter_def)

text \<open>The labels of a call, as the Prometheus recorder passes them on.\<close>

fun labelsOf :: "metric \<Rightarrow> string list" where
  "labelsOf (IncRequest cap model outcome) = [unset cap, unset model, unset outcome]"
| "labelsOf (ObserveRequest cap model outcome) = [unset cap, unset model, unset outcome]"
| "labelsOf (AddWorkUnits cap model unit _) = [unset cap, unset model, unset unit]"
| "labelsOf (IncDaemonRPC m outcome) = [unset m, unset outcome]"
| "labelsOf (ObserveDaemonRPC m outcome) = [unset m, unset outcome]"
| "labelsOf (IncBackendRequest cap model outcome) = [unset cap, unset model, unset outcome]"
| "labelsOf (ObserveBackendRequest cap model) = [unset cap, unset model]"
| "labelsOf (IncBackendError cap model cls) = [unset cap, unset model, unset cls]"
| "labelsOf (SetBackendLastSuccess cap model) = [unset cap, unset model]"
| "labelsOf (IncTokenizerCall model outcome) = [unset model, unset outcome]"
| "labelsOf (IncCapacityRejection cap) = [unset cap]"
| "labelsOf (SetInflightRequests _) = []"
| "labelsOf (IncPaymentRejection reason) = [unset reason]"
| "labelsOf (SetUptimeSeconds _) = []"
| "labelsOf (SetBuildInfo version protocolVersion goVersion) = [version, protocolVersion, goVersion]"
| "labelsOf (SetMaxConcurrent _) = []"

text \<open>A call all of whose labels are UTF-8 never panics, whatever was recorded before.\<close>

lemma promCall_calm: "labelsOk (labelsOf m) \<Longrightarrow> \<not> fst (promCall m p)"
  by (cases m) (auto simp: vecInc_def vecAdd_def vecObserve_def split_beta)

lemma recPanics_calm: "labelsOk (labelsOf m) \<Longrightarrow> \<not> recPanics rec cs m"
  by (cases "recAfter rec cs") (auto simp: recPanics_def split_beta dest: promCall_calm)

lemma recPanics_noop: "\<not> isProm rec \<Longrightarrow> \<not> recPanics rec cs m"
  using recAfter_isProm [of rec cs] by (cases "recAfter rec cs") (auto simp: recPanics_def)

text \<open>A duration with any other label panics on the Prometheus recorder.\<close>

lemma recPanics_observe:
  "recPanics rec cs (ObserveRequest cap model outcome) \<longleftrightarrow>
     isProm rec \<and> \<not> labelsOk [unset cap, unset model, unset outcome]"
  using recAfter_isProm [of rec cs]
  by (cases "recAfter rec cs") (auto simp: recPanics_def vecObserve_def)

section \<open>Recorders that count requests\<close>

fun is_inc :: "call \<Rightarrow> bool" where
  "is_inc (Metric (IncRequest _ _ _)) = True"
| "is_inc _ = False"

locale request_tally =
  fixes rec :: "'s Recorder"
    and takes :: "metric \<Rightarrow> bool"
    and tally :: "'s \<Rightarrow> int"
    and good :: "'s \<Rightarrow> bool"
    and norm :: "int \<Rightarrow> int"
  assumes tally_good: "good s \<Longrightarrow> good (snd (rec_call rec m s))"
    and tally_inc: "good s \<Longrightarrow> takes (IncRequest cap model outcome) \<Longrightarrow>
      tally (snd (rec_call rec (IncRequest cap model outcome) s)) = norm (tally s + 1)"
    and tally_other: "good s \<Longrightarrow> \<not> (is_inc (Metric m) \<and> takes m) \<Longrightarrow> tally (snd (rec_call rec m s)) = tally s"
    and tally_calm: "good s \<Longrightarrow> is_inc (Metric m) \<Longrightarrow> fst (rec_call rec m s) \<longleftrightarrow> \<not> takes m"
    and tally_norm: "good s \<Longrightarrow> norm (tally s) = tally s"
    and norm_add: "norm (norm a + b) = norm (a + b)"
begin

text \<open>Whatever else is recorded, the tally grows by the requests in the log that the recorder takes, and
  the others panic.\<close>

definition taken :: "call \<Rightarrow> bool" where
  "taken c \<longleftrightarrow> is_inc c \<and> (\<forall>m. c = Metric m \<longrightarrow> takes m)"

lemma replay_tally:
  "good s \<Longrightarrow> tally (replay rec cs s) = norm (tally s + int (length (filter taken cs)))"
proof (induction cs arbitrary: s)
  case Nil
  then show ?case using tally_norm by (simp add: replay_def)
next
  case (Cons c cs)
  show ?case
  proof (cases c)
    case (Metric m)
    have r: "replay rec (c # cs) s = replay rec cs (snd (rec_call rec m s))" by (simp add: replay_def Metric)
    have "norm (norm (tally s + 1) + k) = norm (tally s + (1 + k))" for k by (simp add: norm_add add.assoc)
    then show ?thesis unfolding r using Cons.IH [OF tally_good [OF Cons.prems, of m]] Metric
        tally_inc [OF Cons.prems] tally_other [OF Cons.prems, of m]
      by (cases m) (auto simp: taken_def)
  qed (use Cons in \<open>simp_all add: replay_def taken_def\<close>)
qed

end

interpretation counterTally: request_tally counterRecorder "\<lambda>_. True" cRequests "\<lambda>c. int64_range (cRequests c)" wrap64
proof
  fix c :: Counter and m
  show "int64_range (cRequests c) \<Longrightarrow> int64_range (cRequests (snd (rec_call counterRecorder m c)))"
    by (cases m) (auto simp: counterRecorder_def wrap64_range)
  show "\<not> (is_inc (Metric m) \<and> True) \<Longrightarrow> cRequests (snd (rec_call counterRecorder m c)) = cRequests c"
    by (cases m) (auto simp: counterRecorder_def)
qed (simp_all add: counterRecorder_def wrap64_id)

lemma capAdd_uncapped: "cvMax c \<le> 0 \<Longrightarrow> capAdd n vals c = c\<lparr>cvVec := cvVec c @ [(vals, n)]\<rparr>"
  by (simp add: capAdd_def allow_def)

interpretation promTally: request_tally "promRecorder handlerFor" "\<lambda>m. labelsOk (labelsOf m)"
  "\<lambda>p. int (length (cvVec (pRequests p)))" "\<lambda>p. cvMax (pRequests p) \<le> 0" id for handlerFor
proof
  fix p :: Prometheus and m
  show "cvMax (pRequests p) \<le> 0 \<Longrightarrow> cvMax (pRequests (snd (rec_call (promRecorder handlerFor) m p))) \<le> 0"
    by (simp add: promRecorder_def promCall_max)
  show "cvMax (pRequests p) \<le> 0 \<Longrightarrow> \<not> (is_inc (Metric m) \<and> labelsOk (labelsOf m)) \<Longrightarrow>
      int (length (cvVec (pRequests (snd (rec_call (promRecorder handlerFor) m p))))) = int (length (cvVec (pRequests p)))"
    by (cases m) (auto simp: promRecorder_def vecInc_def vecAdd_def split_beta)
  show "cvMax (pRequests p) \<le> 0 \<Longrightarrow> is_inc (Metric m) \<Longrightarrow>
      fst (rec_call (promRecorder handlerFor) m p) \<longleftrightarrow> \<not> labelsOk (labelsOf m)"
    by (cases m) (auto simp: promRecorder_def vecInc_def vecAdd_def allow_def split_beta)
qed (simp_all add: promRecorder_def vecInc_def vecAdd_def capAdd_uncapped split_beta)

text \<open>A worker without \<open>--metrics-listen\<close> records nothing and shows nothing.\<close>

lemma noop_silent: "fold (\<lambda>m s. snd (workerCall m s)) ms (RecNoop n) = RecNoop n"
proof (induction ms)
  case (Cons m ms)
  have "noopCall m n = n" by (cases m) auto
  then show ?case using Cons by simp
qed simp

lemma noopHandler_status:
  "wr_sent w = None \<Longrightarrow> \<exists>hs. wr_sent (noopHandler r w) = Some (404, hs)"
  using rawWriter.httpError_sent [of w 404] by (auto simp: noopHandler_def)

end
