(* ===== verification/Middleware.thy ===== *)
theory Middleware
  imports Module Config Payee Recorders
begin

text \<open>
  \<open>internal/runtime/http/middleware.go\<close> and \<open>workid.go\<close>: the paid-request pipeline.

  \<open>paymentMiddleware\<close> is the handler the source builds, as a function of the request, the
  response writer and the world; its first result says whether a panic left it. The
  three deferred functions are explicit: \<open>closeSession\<close> runs after everything that follows
  a successful \<open>ProcessPayment\<close> (\<open>mwPaid\<close>), \<open>recordRequest\<close> after the body (\<open>mwBody\<close>),
  \<open>releaseSlot\<close> last. The log has every call on the daemon with its reply, and, before a module
  is called, an entry for the call (\<open>Dispatch\<close>); what the module then sends to a backend is in the
  state of the transport (theory \<open>Outbound\<close>).

  The deferred \<open>recordRequest\<close> hands the recorder a model that came with the request, so the recorder
  may panic there. The labels of the other calls are constants of the program or names from the
  configuration, which is UTF-8 text; those calls are plain entries of the log
  (\<open>recPanics_calm\<close>).

  \<open>protoStep\<close> is the payment protocol as an automaton over that log; a request is correct
  when the automaton accepts its trace (\<open>protoOk\<close>).
\<close>

section \<open>The work id\<close>

definition deriveWorkID :: "bytes \<Rightarrow> string" where
  "deriveWorkID paymentBytes = hexEncode (sha256 paymentBytes)"

section \<open>The dependencies and the calls on the daemon\<close>

abbreviation (input) maxPaidRequestBodyBytes :: nat where "maxPaidRequestBodyBytes \<equiv> 16777216"

record ('d, 'b) paidRouteDeps =
  dp_module :: "('d, 'b) Module"
  dp_cfg :: Config
  dp_payee :: "('d, 'b) Client"
  dp_sem :: "nat option"
  dp_recorder :: workerRecorder

definition callRpc :: "rpc \<Rightarrow> ('r \<Rightarrow> reply) \<Rightarrow> ('r, 'd, 'b) act \<Rightarrow> ('r, 'd, 'b) act" where
  "callRpc q mk act w =
     (let (res, w1) = act w
      in (res, note_call (Rpc q (case res of Inl e \<Rightarrow> ReplyErr e | Inr x \<Rightarrow> mk x)) w1))"

definition callOpenSession :: "('d, 'b) paidRouteDeps \<Rightarrow> OpenSessionRequest \<Rightarrow> (OpenSessionResult, 'd, 'b) act" where
  "callOpenSession deps req = callRpc (RpcOpenSession req) ReplyOpened (cl_OpenSession (dp_payee deps) req)"

definition callProcessPayment :: "('d, 'b) paidRouteDeps \<Rightarrow> bytes \<Rightarrow> string \<Rightarrow> (ProcessPaymentResult, 'd, 'b) act" where
  "callProcessPayment deps pay workID =
     callRpc (RpcProcessPayment pay workID) ReplyProcessed (cl_ProcessPayment (dp_payee deps) pay workID)"

definition callDebitBalance :: "('d, 'b) paidRouteDeps \<Rightarrow> bytes \<Rightarrow> string \<Rightarrow> int \<Rightarrow> (DebitBalanceResult, 'd, 'b) act" where
  "callDebitBalance deps sender workID units =
     callRpc (RpcDebitBalance sender workID units) (\<lambda>db. ReplyBalance (db_BalanceWei db))
       (cl_DebitBalance (dp_payee deps) sender workID units)"

definition callCloseSession :: "('d, 'b) paidRouteDeps \<Rightarrow> bytes \<Rightarrow> string \<Rightarrow> (CloseSessionResult, 'd, 'b) act" where
  "callCloseSession deps sender workID =
     callRpc (RpcCloseSession sender workID) ReplyClosed (cl_CloseSession (dp_payee deps) sender workID)"

section \<open>The pipeline\<close>

text \<open>Steps 9 and 10: serve, report the units, reconcile.\<close>

definition mwServe ::
    "('d, 'b) paidRouteDeps \<Rightarrow> Request \<Rightarrow> bytes \<Rightarrow> string \<Rightarrow> ModelRoute \<Rightarrow> bytes \<Rightarrow> string \<Rightarrow> int \<Rightarrow>
       statusWriter \<Rightarrow> ('d, 'b) World \<Rightarrow> bool \<times> statusWriter \<times> ('d, 'b) World" where
  "mwServe deps r body model route sender workID estimate sw w =
     (let m = dp_module deps;
          w0 = note_call (Dispatch (m_Capability m) (mr_BackendURL route)) w
      in case m_Serve m sw r body model (mr_BackendURL route) w0 of
           (Panicked, sw1, w1) \<Rightarrow> (True, sw1, w1)
         | (Returned actual (Some err), sw1, w1) \<Rightarrow> (False, sw1, w1)
         | (Returned actual None, sw1, w1) \<Rightarrow>
             let w2 = (if 0 < actual then emit (AddWorkUnits (m_Capability m) model (m_Unit m) actual) w1 else w1);
                 w3 = (if estimate < actual
                       then snd (callDebitBalance deps sender workID (wrap64 (actual - estimate)) w2) else w2)
             in (False, sw1, w3))"

text \<open>Steps 7 and 8: the estimate and the upfront debit.\<close>

definition mwCharge ::
    "('d, 'b) paidRouteDeps \<Rightarrow> Request \<Rightarrow> bytes \<Rightarrow> string \<Rightarrow> ModelRoute \<Rightarrow> bytes \<Rightarrow> string \<Rightarrow>
       statusWriter \<Rightarrow> ('d, 'b) World \<Rightarrow> bool \<times> statusWriter \<times> ('d, 'b) World" where
  "mwCharge deps r body model route sender workID sw w =
     (case m_EstimateWorkUnits (dp_module deps) body model w of
        (Inl e, w1) \<Rightarrow>
          (False, writeJSONError statusRW 400 ''invalid_request'' (''could not estimate work units: '' @ emsg e) sw, w1)
      | (Inr est0, w1) \<Rightarrow>
          let estimate = (if est0 < 0 then 0 else est0) in
          case callDebitBalance deps sender workID estimate w1 of
            (Inl e, w2) \<Rightarrow>
              (False, writeJSONError statusRW 502 ''backend_unavailable'' (''DebitBalance: '' @ emsg e) sw,
               emit (IncPaymentRejection PaymentRejectDebitError) w2)
          | (Inr db, w2) \<Rightarrow>
              if db_BalanceWei db < 0 then
                (False, writeJSONError statusRW 402 ''insufficient_balance'' ''balance after estimate debit is negative'' sw,
                 emit (IncPaymentRejection PaymentRejectInsufficientBalance) w2)
              else mwServe deps r body model route sender workID estimate sw w2)"

text \<open>Steps 5, 6 and 11: the session around the charge.\<close>

definition mwPaid ::
    "('d, 'b) paidRouteDeps \<Rightarrow> Request \<Rightarrow> bytes \<Rightarrow> string \<Rightarrow> ModelRoute \<Rightarrow> bytes \<Rightarrow> string \<Rightarrow> int \<Rightarrow>
       statusWriter \<Rightarrow> ('d, 'b) World \<Rightarrow> bool \<times> statusWriter \<times> ('d, 'b) World" where
  "mwPaid deps r body model route paymentBytes workID price sw w =
     (case callOpenSession deps
             \<lparr>os_WorkID = workID, os_Capability = mr_Capability route, os_Offering = mr_Model route,
              os_PricePerWorkUnitWei = price, os_WorkUnit = mr_WorkUnit route\<rparr> w of
        (Inl e, w1) \<Rightarrow>
          (False, writeJSONError statusRW 502 ''backend_unavailable'' (''OpenSession: '' @ emsg e) sw, w1)
      | (Inr _, w1) \<Rightarrow>
          (case callProcessPayment deps paymentBytes workID w1 of
             (Inl e, w2) \<Rightarrow>
               (False, writeJSONError statusRW 402 ''payment_rejected'' (emsg e) sw,
                emit (IncPaymentRejection PaymentRejectProcessPayment) w2)
           | (Inr pp, w2) \<Rightarrow>
               let (p, sw1, w3) = mwCharge deps r body model route (pp_Sender pp) workID sw w2
               in (p, sw1, snd (callCloseSession deps (pp_Sender pp) workID w3))))"

text \<open>
  Steps 1 to 4: the body, the payment header, the model, the route and its price. They
  end in an error answer (with the label the deferred metrics will use and the rejection
  counted, if any) or in what the rest of the pipeline needs.
\<close>

record Rejection =
  rj_label :: string
  rj_status :: int
  rj_code :: string
  rj_detail :: string
  rj_reason :: "string option"

record Admitted =
  ad_body :: bytes
  ad_payment :: bytes
  ad_model :: string
  ad_route :: ModelRoute
  ad_price :: int

definition rejection :: "string \<Rightarrow> int \<Rightarrow> string \<Rightarrow> string \<Rightarrow> string option \<Rightarrow> Rejection + Admitted" where
  "rejection label status code detail reason =
     Inl \<lparr>rj_label = label, rj_status = status, rj_code = code, rj_detail = detail, rj_reason = reason\<rparr>"

definition mwAdmit :: "('d, 'b) paidRouteDeps \<Rightarrow> Request \<Rightarrow> Rejection + Admitted" where
  "mwAdmit deps r =
     (case readAllMax maxPaidRequestBodyBytes r of
        Inl e \<Rightarrow> rejection LabelUnset 400 ''invalid_request'' (''failed to read request body: '' @ emsg e) None
      | Inr body \<Rightarrow>
          let hdr = headerGet PaymentHeaderName (rq_Header r) in
          if hdr = [] then
            rejection LabelUnset 402 ''missing_or_invalid_payment'' (''missing '' @ PaymentHeaderName @ '' header'')
              (Some PaymentRejectHeaderMissing)
          else case b64Decode hdr of
            None \<Rightarrow>
              rejection LabelUnset 402 ''missing_or_invalid_payment'' ''header is not valid base64''
                (Some PaymentRejectHeaderInvalid)
          | Some paymentBytes \<Rightarrow>
              (case m_ExtractModel (dp_module deps) body of
                 Inl e \<Rightarrow>
                   rejection LabelUnset 400 ''invalid_request''
                     (''could not extract model from request body: '' @ emsg e) None
               | Inr model \<Rightarrow>
                   (case Lookup (dp_cfg deps) (m_Capability (dp_module deps)) model of
                      None \<Rightarrow>
                        rejection model 404 ''capability_not_found''
                          (''no backend configured for capability='' @ m_Capability (dp_module deps) @ '' model='' @ model)
                          None
                    | Some route \<Rightarrow>
                        (case setString10 (mr_PricePerWorkUnitWei route) of
                           None \<Rightarrow>
                             rejection model 500 ''internal_error''
                               (''invalid configured price_per_work_unit_wei for model='' @ model) None
                         | Some price \<Rightarrow>
                             Inr \<lparr>ad_body = body, ad_payment = paymentBytes, ad_model = model,
                                  ad_route = route, ad_price = price\<rparr>))))"

text \<open>The body of the handler; the second result is the model label.\<close>

definition mwBody ::
    "('d, 'b) paidRouteDeps \<Rightarrow> Request \<Rightarrow> statusWriter \<Rightarrow> ('d, 'b) World \<Rightarrow> bool \<times> string \<times> statusWriter \<times> ('d, 'b) World" where
  "mwBody deps r sw w =
     (case mwAdmit deps r of
        Inl rj \<Rightarrow>
          (False, rj_label rj, writeJSONError statusRW (rj_status rj) (rj_code rj) (rj_detail rj) sw,
           (case rj_reason rj of None \<Rightarrow> w | Some reason \<Rightarrow> emit (IncPaymentRejection reason) w))
      | Inr ad \<Rightarrow>
          let (p, sw1, w1) = mwPaid deps r (ad_body ad) (ad_model ad) (ad_route ad) (ad_payment ad)
                (deriveWorkID (ad_payment ad)) (ad_price ad) sw w
          in (p, ad_model ad, sw1, w1))"

definition capacityDetail :: string where
  "capacityDetail = ''worker at max_concurrent_requests '' @ [CHR 0xE2, CHR 0x80, CHR 0x94] @
     '' retry after in-flight requests drain''"

text \<open>The gate: the non-blocking send, None when the channel is full.\<close>

definition acquireSlot :: "('d, 'b) paidRouteDeps \<Rightarrow> ('d, 'b) World \<Rightarrow> ('d, 'b) World option" where
  "acquireSlot deps w =
     (case dp_sem deps of
        None \<Rightarrow> Some w
      | Some capacity \<Rightarrow>
          if w_sem w < capacity
          then let w1 = w\<lparr>w_sem := w_sem w + 1\<rparr> in Some (emit (SetInflightRequests (w_sem w1)) w1)
          else None)"

definition releaseSlot :: "('d, 'b) paidRouteDeps \<Rightarrow> ('d, 'b) World \<Rightarrow> ('d, 'b) World" where
  "releaseSlot deps w =
     (case dp_sem deps of
        None \<Rightarrow> w
      | Some _ \<Rightarrow> let w1 = w\<lparr>w_sem := w_sem w - 1\<rparr> in emit (SetInflightRequests (w_sem w1)) w1)"

text \<open>A call on the recorder that may panic, and the two that end a request: a panic of the first skips the
  second.\<close>

definition recordCall :: "('d, 'b) paidRouteDeps \<Rightarrow> metric \<Rightarrow> ('d, 'b) World \<Rightarrow> bool \<times> ('d, 'b) World" where
  "recordCall deps m w = (recPanics (dp_recorder deps) (w_calls w) m, emit m w)"

definition recordRequest :: "('d, 'b) paidRouteDeps \<Rightarrow> string \<Rightarrow> string \<Rightarrow> ('d, 'b) World \<Rightarrow> bool \<times> ('d, 'b) World" where
  "recordRequest deps label outcome w =
     (let cap = m_Capability (dp_module deps);
          (panic, w1) = recordCall deps (IncRequest cap label outcome) w
      in if panic then (True, w1) else recordCall deps (ObserveRequest cap label outcome) w1)"

definition rejectCapacity :: "('d, 'b) paidRouteDeps \<Rightarrow> statusWriter \<Rightarrow> ('d, 'b) World \<Rightarrow> statusWriter \<times> ('d, 'b) World" where
  "rejectCapacity deps sw w =
     (let cap = m_Capability (dp_module deps)
      in (writeJSONError statusRW 503 ''capacity_exhausted'' capacityDetail sw,
          emit (ObserveRequest cap LabelUnset OutcomeRequest5xx)
            (emit (IncRequest cap LabelUnset OutcomeRequest5xx) (emit (IncCapacityRejection cap) w))))"

definition paymentMiddleware ::
    "('d, 'b) paidRouteDeps \<Rightarrow> Request \<Rightarrow> RespWriter \<Rightarrow> ('d, 'b) World \<Rightarrow> bool \<times> statusWriter \<times> ('d, 'b) World" where
  "paymentMiddleware deps r rw w =
     (let sw = newStatusWriter rw in
      case acquireSlot deps w of
        None \<Rightarrow> (let (sw1, w1) = rejectCapacity deps sw w in (False, sw1, w1))
      | Some w1 \<Rightarrow>
          let (p, label, sw1, w2) = mwBody deps r sw w1;
              outcome = classifyOutcome (rq_CtxErr r) (sw_status sw1);
              (panic, w3) = recordRequest deps label outcome w2
          in (p \<or> panic, sw1, releaseSlot deps w3))"

text \<open>The model label of a request that got past the gate.\<close>

definition requestLabel :: "('d, 'b) paidRouteDeps \<Rightarrow> Request \<Rightarrow> string" where
  "requestLabel deps r = (case mwAdmit deps r of Inl rj \<Rightarrow> rj_label rj | Inr ad \<Rightarrow> ad_model ad)"

lemma mwBody_label: "mwBody deps r sw w = (p, label, sw', w') \<Longrightarrow> label = requestLabel deps r"
  by (auto simp: mwBody_def requestLabel_def split: sum.splits prod.splits)

section \<open>The protocol\<close>

datatype proto =
    Idle
  | Opened string
  | Refused
  | Funded bytes string
  | Paid bytes string
  | Serving bytes string
  | Closing bytes string
  | Done

fun protoStep :: "proto \<Rightarrow> call \<Rightarrow> proto option" where
  "protoStep Idle (Rpc (RpcOpenSession req) rep) =
     (case rep of
        ReplyErr _ \<Rightarrow> Some Refused
      | ReplyOpened _ \<Rightarrow> if 0 < os_PricePerWorkUnitWei req then Some (Opened (os_WorkID req)) else None
      | _ \<Rightarrow> None)"
| "protoStep (Opened k) (Rpc (RpcProcessPayment pay k') rep) =
     (if k' = k \<and> k = deriveWorkID pay then
        (case rep of ReplyErr _ \<Rightarrow> Some Refused | ReplyProcessed pp \<Rightarrow> Some (Funded (pp_Sender pp) k) | _ \<Rightarrow> None)
      else None)"
| "protoStep (Funded s k) (Rpc (RpcDebitBalance s' k' n) rep) =
     (if s' = s \<and> k' = k \<and> 0 \<le> n then
        (case rep of
           ReplyErr _ \<Rightarrow> Some (Closing s k)
         | ReplyBalance b \<Rightarrow> Some (if b < 0 then Closing s k else Paid s k)
         | _ \<Rightarrow> None)
      else None)"
| "protoStep (Funded s k) (Rpc (RpcCloseSession s' k') rep) = (if s' = s \<and> k' = k then Some Done else None)"
| "protoStep (Paid s k) (Dispatch _ _) = Some (Serving s k)"
| "protoStep (Serving s k) (Rpc (RpcDebitBalance s' k' n) rep) =
     (if s' = s \<and> k' = k \<and> 0 < n then Some (Closing s k) else None)"
| "protoStep (Serving s k) (Rpc (RpcCloseSession s' k') rep) = (if s' = s \<and> k' = k then Some Done else None)"
| "protoStep (Closing s k) (Rpc (RpcCloseSession s' k') rep) = (if s' = s \<and> k' = k then Some Done else None)"
| "protoStep _ _ = None"

fun protoRun :: "proto \<Rightarrow> call list \<Rightarrow> proto option" where
  "protoRun s [] = Some s"
| "protoRun s (c # cs) = (case protoStep s c of None \<Rightarrow> None | Some s' \<Rightarrow> protoRun s' cs)"

definition protoOk :: "call list \<Rightarrow> bool" where
  "protoOk cs \<longleftrightarrow> protoRun Idle cs \<in> {Some Idle, Some Refused, Some Done}"

lemma protoRun_append: "protoRun s (xs @ ys) = (case protoRun s xs of None \<Rightarrow> None | Some s' \<Rightarrow> protoRun s' ys)"
  by (induction xs arbitrary: s) (simp_all split: option.splits)

section \<open>What a step leaves on the log\<close>

text \<open>A call on the daemon as the log shows it, and the daemon's history along a log.\<close>

definition replyOf :: "('r \<Rightarrow> reply) \<Rightarrow> Err + 'r \<Rightarrow> reply" where
  "replyOf mk res = (case res of Inl e \<Rightarrow> ReplyErr e | Inr x \<Rightarrow> mk x)"

lemma replyOf_simps [simp]: "replyOf mk (Inl e) = ReplyErr e" "replyOf mk (Inr x) = mk x"
  by (simp_all add: replyOf_def)

definition rpcAct :: "('d, 'b) Client \<Rightarrow> rpc \<Rightarrow> ('d, 'b) World \<Rightarrow> reply \<times> ('d, 'b) World" where
  "rpcAct c q w =
     (case q of
        RpcOpenSession req \<Rightarrow> map_prod (replyOf ReplyOpened) id (cl_OpenSession c req w)
      | RpcProcessPayment pay k \<Rightarrow> map_prod (replyOf ReplyProcessed) id (cl_ProcessPayment c pay k w)
      | RpcDebitBalance s k n \<Rightarrow> map_prod (replyOf (\<lambda>db. ReplyBalance (db_BalanceWei db))) id (cl_DebitBalance c s k n w)
      | RpcCloseSession s k \<Rightarrow> map_prod (replyOf ReplyClosed) id (cl_CloseSession c s k w)
      | RpcGetTicketParams g \<Rightarrow> map_prod (replyOf ReplyTicketParams) id (cl_GetTicketParams c g w))"

inductive daemonRun :: "('d, 'b) Client \<Rightarrow> 'd \<Rightarrow> call list \<Rightarrow> 'd \<Rightarrow> bool" for c where
  daemonRun_Nil: "daemonRun c d [] d"
| daemonRun_Rpc: "rpcAct c q w = (rep, w1) \<Longrightarrow> daemonRun c (w_daemon w1) tr d' \<Longrightarrow>
    daemonRun c (w_daemon w) (Rpc q rep # tr) d'"
| daemonRun_Dispatch: "daemonRun c d tr d' \<Longrightarrow> daemonRun c d (Dispatch x y # tr) d'"

lemma daemonRun_append: "daemonRun c d tr d' \<Longrightarrow> daemonRun c d' tr' d'' \<Longrightarrow> daemonRun c d (tr @ tr') d''"
  by (induction rule: daemonRun.induct) (auto intro: daemonRun.intros)

text \<open>\<open>traced c w tr ms w'\<close>: from \<open>w\<close> to \<open>w'\<close> the effects are \<open>tr\<close>, the middleware's metrics are
  \<open>ms\<close>, the semaphore is as before, and the daemon behind the client \<open>c\<close> went through \<open>tr\<close>.\<close>

definition traced :: "('d, 'b) Client \<Rightarrow> ('d, 'b) World \<Rightarrow> call list \<Rightarrow> call list \<Rightarrow> ('d, 'b) World \<Rightarrow> bool" where
  "traced c w tr ms w' \<longleftrightarrow> w_sem w' = w_sem w \<and> effects (w_calls w') = effects (w_calls w) @ tr \<and>
     mwMetrics (w_calls w') = mwMetrics (w_calls w) @ ms \<and> daemonRun c (w_daemon w) tr (w_daemon w')"

lemma traced_refl [simp]: "traced c w [] [] w"
  by (simp add: traced_def daemonRun_Nil)

lemma traced_trans: "traced c w tr ms w' \<Longrightarrow> traced c w' tr' ms' w'' \<Longrightarrow> traced c w (tr @ tr') (ms @ ms') w''"
  by (auto simp: traced_def intro: daemonRun_append)

lemma traced_extends: "extends w w' \<Longrightarrow> w_daemon w' = w_daemon w \<Longrightarrow> traced c w [] [] w'"
  by (simp add: traced_def extends_effects extends_mwMetrics extends_sem daemonRun_Nil)

lemma traced_emit: "mw_metric m \<Longrightarrow> traced c w tr ms w' \<Longrightarrow> traced c w tr (ms @ [Metric m]) (emit m w')"
  by (simp add: traced_def)

lemma traced_dispatch: "traced c w [Dispatch x y] [] (note_call (Dispatch x y) w)"
  by (simp add: traced_def daemonRun_Dispatch daemonRun_Nil)

lemma traced_callRpc:
  assumes "quiet act" and "\<And>w. rpcAct c q w = map_prod (replyOf mk) id (act w)" and "callRpc q mk act w = (res, w')"
  shows "traced c w [Rpc q (replyOf mk res)] [] w'"
proof -
  obtain w1 where a: "act w = (res, w1)" and w': "w' = note_call (Rpc q (replyOf mk res)) w1"
    using assms(3) by (cases "act w") (auto simp: callRpc_def replyOf_def)
  have e: "extends w w1" using quietD [OF assms(1) a] .
  have "rpcAct c q w = (replyOf mk res, w1)" by (simp add: assms(2) a)
  then show ?thesis
    using e by (auto simp: traced_def w' extends_effects extends_mwMetrics extends_sem
        intro: daemonRun.intros)
qed

text \<open>The metrics of a request's end; the body makes none of them.\<close>

fun is_request_metric :: "call \<Rightarrow> bool" where
  "is_request_metric (Metric (IncRequest _ _ _)) = True"
| "is_request_metric (Metric (ObserveRequest _ _ _)) = True"
| "is_request_metric _ = False"

abbreviation no_request :: "call list \<Rightarrow> bool" where
  "no_request \<equiv> list_all (\<lambda>c. \<not> is_request_metric c)"

text \<open>What is said of the metrics the body makes: none of those, and a rejection for want of balance
  only after a debit that read a negative balance.\<close>

definition overdrawn :: "call list \<Rightarrow> bool" where
  "overdrawn tr \<longleftrightarrow> (\<exists>q b. Rpc q (ReplyBalance b) \<in> set tr \<and> b < 0)"

abbreviation insufficient :: call where
  "insufficient \<equiv> Metric (IncPaymentRejection PaymentRejectInsufficientBalance)"

definition bodyMetrics :: "call list \<Rightarrow> call list \<Rightarrow> bool" where
  "bodyMetrics tr ms \<longleftrightarrow> no_request ms \<and> (insufficient \<in> set ms \<longrightarrow> overdrawn tr)"

lemma bodyMetrics_Nil [simp]: "bodyMetrics tr []"
  by (simp add: bodyMetrics_def)

lemma bodyMetrics_mono: "bodyMetrics tr ms \<Longrightarrow> set tr \<subseteq> set tr' \<Longrightarrow> bodyMetrics tr' ms"
  by (auto simp: bodyMetrics_def overdrawn_def)

section \<open>The contract of a paid route\<close>

text \<open>
  What the middleware relies on: a quiet client, a quiet module, and a routing table
  whose prices are positive decimal numbers, which validation guarantees.
\<close>

locale paid_route = payee: quiet_client "dp_payee deps" + mdl: quiet_module "dp_module deps"
  for deps :: "('d, 'b) paidRouteDeps" +
  assumes route_price: "Lookup (dp_cfg deps) cap model = Some route \<Longrightarrow> wfPrice (mr_PricePerWorkUnitWei route)"
begin

lemma debit_traced:
  "callDebitBalance deps s k n w = (res, w') \<Longrightarrow>
     traced (dp_payee deps) w [Rpc (RpcDebitBalance s k n) (replyOf (\<lambda>db. ReplyBalance (db_BalanceWei db)) res)] [] w'"
  unfolding callDebitBalance_def using payee.quiet_debit by (rule traced_callRpc) (simp_all add: rpcAct_def)

lemma close_traced: "\<exists>rep. traced (dp_payee deps) w [Rpc (RpcCloseSession s k) rep] [] (snd (callCloseSession deps s k w))"
proof -
  obtain res w' where c: "callCloseSession deps s k w = (res, w')" by fastforce
  have "traced (dp_payee deps) w [Rpc (RpcCloseSession s k) (replyOf ReplyClosed res)] [] w'"
    using payee.quiet_close by (rule traced_callRpc) (use c in \<open>simp_all add: rpcAct_def callCloseSession_def\<close>)
  then show ?thesis using c by auto
qed

lemma mwServe_traced:
  assumes "mwServe deps r body model route s k est sw w = (p, sw', w')" and "0 \<le> est"
  shows "\<exists>tr ms. traced (dp_payee deps) w tr ms w' \<and> bodyMetrics tr ms \<and> protoRun (Paid s k) tr \<in> {Some (Serving s k), Some (Closing s k)}"
proof -
  define d where "d = Dispatch (m_Capability (dp_module deps)) (mr_BackendURL route)"
  define w0 where "w0 = note_call d w"
  obtain out sw1 w1 where o: "m_Serve (dp_module deps) sw r body model (mr_BackendURL route) w0 = (out, sw1, w1)"
    using prod_cases3 by blast
  have "extends w0 w1" "w_daemon w1 = w_daemon w0"
    using mdl.serve_quiet [of w0 sw r body model "mr_BackendURL route"]
      mdl.serve_daemon [of sw r body model "mr_BackendURL route" w0] by (simp_all add: o)
  then have "traced (dp_payee deps) w0 [] [] w1" by (rule traced_extends)
  from traced_trans [OF traced_dispatch this [unfolded w0_def d_def]] have r1: "traced (dp_payee deps) w [d] [] w1"
    by (simp add: d_def)
  show ?thesis
  proof (cases "\<exists>actual. out = Returned actual None")
    case False
    then have "w' = w1" using assms(1) o
      by (auto simp: mwServe_def Let_def d_def w0_def split: served.splits option.splits)
    then show ?thesis using r1 by (intro exI [of _ "[d]"] exI [of _ "[]"]) (simp add: d_def)
  next
    case True
    then obtain actual where out: "out = Returned actual None" by blast
    define m where "m = AddWorkUnits (m_Capability (dp_module deps)) model (m_Unit (dp_module deps)) actual"
    define w2 where "w2 = (if 0 < actual then emit m w1 else w1)"
    have r2: "traced (dp_payee deps) w [d] (if 0 < actual then [Metric m] else []) w2"
      using r1 traced_emit [OF _ r1, of m] by (simp add: w2_def m_def)
    have nr: "bodyMetrics tr (if 0 < actual then [Metric m] else [])" for tr by (simp add: m_def bodyMetrics_def)
    have w': "w' = (if est < actual then snd (callDebitBalance deps s k (wrap64 (actual - est)) w2) else w2)"
      using assms(1) o out by (auto simp: mwServe_def Let_def d_def w0_def m_def w2_def)
    show ?thesis
    proof (cases "est < actual")
      case False
      then show ?thesis using r2 nr w'
        by (intro exI [of _ "[d]"] exI [of _ "if 0 < actual then [Metric m] else []"]) (simp add: d_def)
    next
      case True
      have "int64_range actual" using mdl.serve_range [of sw r body model "mr_BackendURL route" w0 actual None] o out by simp
      then have delta: "0 < wrap64 (actual - est)"
        using True assms(2) by (simp add: wrap64_id int64_range_def)
      obtain res w3 where c: "callDebitBalance deps s k (wrap64 (actual - est)) w2 = (res, w3)" by fastforce
      have "traced (dp_payee deps) w ([d] @ [Rpc (RpcDebitBalance s k (wrap64 (actual - est)))
          (replyOf (\<lambda>db. ReplyBalance (db_BalanceWei db)) res)])
          ((if 0 < actual then [Metric m] else []) @ []) w3"
        using r2 debit_traced [OF c] by (rule traced_trans)
      then have "traced (dp_payee deps) w [d, Rpc (RpcDebitBalance s k (wrap64 (actual - est)))
          (replyOf (\<lambda>db. ReplyBalance (db_BalanceWei db)) res)] (if 0 < actual then [Metric m] else []) w'"
        using w' c True by simp
      then show ?thesis using nr delta
        by (intro exI [of _ "[d, Rpc (RpcDebitBalance s k (wrap64 (actual - est))) (replyOf (\<lambda>db. ReplyBalance (db_BalanceWei db)) res)]"]
            exI [of _ "if 0 < actual then [Metric m] else []"]) (simp add: d_def)
    qed
  qed
qed

lemma mwCharge_traced:
  assumes "mwCharge deps r body model route s k sw w = (p, sw', w')"
  shows "\<exists>tr ms. traced (dp_payee deps) w tr ms w' \<and> bodyMetrics tr ms \<and>
    protoRun (Funded s k) tr \<in> {Some (Funded s k), Some (Serving s k), Some (Closing s k)}"
proof -
  obtain est w1 where e: "m_EstimateWorkUnits (dp_module deps) body model w = (est, w1)" by fastforce
  have r1: "traced (dp_payee deps) w [] [] w1" using mdl.estimate_quiet [of w body model] mdl.estimate_daemon [of body model w] e by (auto intro: traced_extends)
  show ?thesis
  proof (cases est)
    case (Inl x)
    then show ?thesis using assms e r1 by (intro exI [of _ "[]"]) (simp add: mwCharge_def)
  next
    case (Inr est0)
    define n where "n = (if est0 < 0 then 0 else est0)"
    obtain res w2 where c: "callDebitBalance deps s k n w1 = (res, w2)" by fastforce
    define d where "d = Rpc (RpcDebitBalance s k n)
      (replyOf (\<lambda>db. ReplyBalance (db_BalanceWei db)) res)"
    have r2: "traced (dp_payee deps) w [d] [] w2" using traced_trans [OF r1 debit_traced [OF c]] by (simp add: d_def)
    have n: "0 \<le> n" by (simp add: n_def)
    have rej: "traced (dp_payee deps) w [d] [Metric (IncPaymentRejection x)] (emit (IncPaymentRejection x) w2)" for x
      using traced_emit [OF _ r2, of "IncPaymentRejection x"] by simp
    show ?thesis
    proof (cases "\<exists>db. res = Inr db \<and> 0 \<le> db_BalanceWei db")
      case False
      then obtain x where "w' = emit (IncPaymentRejection x) w2" and x: "x = PaymentRejectInsufficientBalance \<longrightarrow> (\<exists>db. res = Inr db)"
        using assms e Inr c by (auto simp: mwCharge_def Let_def n_def [symmetric] split: sum.splits if_splits)
      moreover have "bodyMetrics [d] [Metric (IncPaymentRejection x)]"
        using x False by (auto simp: bodyMetrics_def overdrawn_def d_def)
      ultimately show ?thesis using rej [of x] False n
        by (intro exI [of _ "[d]"] exI [of _ "[Metric (IncPaymentRejection x)]"]) (cases res, auto simp: d_def)
    next
      case True
      then obtain db where db: "res = Inr db" "0 \<le> db_BalanceWei db" by blast
      then have "mwServe deps r body model route s k n sw w2 = (p, sw', w')"
        using assms e Inr c by (simp add: mwCharge_def n_def)
      then obtain tr ms where t: "traced (dp_payee deps) w2 tr ms w'" "bodyMetrics tr ms"
        "protoRun (Paid s k) tr \<in> {Some (Serving s k), Some (Closing s k)}"
        using mwServe_traced n by blast
      have "traced (dp_payee deps) w (d # tr) ms w'" using traced_trans [OF r2 t(1)] by simp
      moreover have "bodyMetrics (d # tr) ms" using t(2) by (rule bodyMetrics_mono) auto
      moreover have "protoRun (Funded s k) (d # tr) = protoRun (Paid s k) tr" using db n by (simp add: d_def)
      ultimately show ?thesis using t by (metis insert_iff)
    qed
  qed
qed

lemma mwPaid_traced:
  assumes "mwPaid deps r body model route pay (deriveWorkID pay) price sw w = (p, sw', w')" and "0 < price"
  shows "\<exists>tr ms. traced (dp_payee deps) w tr ms w' \<and> bodyMetrics tr ms \<and> protoRun Idle tr \<in> {Some Refused, Some Done}"
proof -
  define k where "k = deriveWorkID pay"
  define req where "req = \<lparr>os_WorkID = k, os_Capability = mr_Capability route, os_Offering = mr_Model route,
    os_PricePerWorkUnitWei = price, os_WorkUnit = mr_WorkUnit route\<rparr>"
  obtain ores w1 where o: "callOpenSession deps req w = (ores, w1)" by fastforce
  define eo where "eo = Rpc (RpcOpenSession req) (replyOf ReplyOpened ores)"
  have r1: "traced (dp_payee deps) w [eo] [] w1"
    unfolding eo_def using payee.quiet_open
    by (rule traced_callRpc) (use o in \<open>simp_all add: rpcAct_def callOpenSession_def\<close>)
  show ?thesis
  proof (cases ores)
    case (Inl e)
    then have "w' = w1" using assms(1) o by (simp add: mwPaid_def k_def req_def)
    then show ?thesis using r1 Inl by (intro exI [of _ "[eo]"] exI [of _ "[]"]) (simp add: eo_def)
  next
    case (Inr opened)
    obtain pres w2 where q: "callProcessPayment deps pay k w1 = (pres, w2)" by fastforce
    define ep where "ep = Rpc (RpcProcessPayment pay k) (replyOf ReplyProcessed pres)"
    have "traced (dp_payee deps) w1 [ep] [] w2"
      unfolding ep_def using payee.quiet_process
      by (rule traced_callRpc) (use q in \<open>simp_all add: rpcAct_def callProcessPayment_def\<close>)
    then have r2: "traced (dp_payee deps) w [eo, ep] [] w2" using traced_trans [OF r1] by fastforce
    have p0: "protoRun Idle (eo # cs) = protoRun (Opened k) cs" for cs
      using Inr assms(2) by (simp add: eo_def req_def)
    show ?thesis
    proof (cases pres)
      case (Inl e)
      then have "w' = emit (IncPaymentRejection PaymentRejectProcessPayment) w2"
        using assms(1) o Inr q by (simp add: mwPaid_def k_def req_def)
      then have "traced (dp_payee deps) w [eo, ep] [Metric (IncPaymentRejection PaymentRejectProcessPayment)] w'"
        using traced_emit [OF _ r2, of "IncPaymentRejection PaymentRejectProcessPayment"] by simp
      moreover have "protoRun Idle [eo, ep] = Some Refused" using Inl p0 by (simp add: ep_def k_def)
      ultimately show ?thesis
        by (intro exI [of _ "[eo, ep]"] exI [of _ "[Metric (IncPaymentRejection PaymentRejectProcessPayment)]"])
          (simp add: bodyMetrics_def)
    next
      case (Inr pp)
      obtain p3 sw3 w3 where c: "mwCharge deps r body model route (pp_Sender pp) k sw w2 = (p3, sw3, w3)"
        using prod_cases3 by blast
      obtain tr ms where t: "traced (dp_payee deps) w2 tr ms w3" "bodyMetrics tr ms"
        "protoRun (Funded (pp_Sender pp) k) tr \<in>
           {Some (Funded (pp_Sender pp) k), Some (Serving (pp_Sender pp) k), Some (Closing (pp_Sender pp) k)}"
        using mwCharge_traced [OF c] by blast
      have "w' = snd (callCloseSession deps (pp_Sender pp) k w3)"
        using assms(1) o \<open>ores = Inr opened\<close> q Inr c by (simp add: mwPaid_def k_def req_def)
      then obtain rep where "traced (dp_payee deps) w3 [Rpc (RpcCloseSession (pp_Sender pp) k) rep] [] w'" using close_traced by blast
      from traced_trans [OF traced_trans [OF r2 t(1)] this]
      have r: "traced (dp_payee deps) w (eo # ep # tr @ [Rpc (RpcCloseSession (pp_Sender pp) k) rep]) ms w'" by simp
      have "protoRun Idle (eo # ep # tr @ [Rpc (RpcCloseSession (pp_Sender pp) k) rep]) = Some Done"
        using t(3) Inr unfolding p0 by (auto simp: ep_def k_def protoRun_append)
      moreover have "bodyMetrics (eo # ep # tr @ [Rpc (RpcCloseSession (pp_Sender pp) k) rep]) ms"
        using t(2) by (rule bodyMetrics_mono) auto
      ultimately show ?thesis using r by blast
    qed
  qed
qed

lemma admitted_price: "mwAdmit deps r = Inr ad \<Longrightarrow> 0 < ad_price ad"
  by (auto simp: mwAdmit_def rejection_def wfPrice_def Let_def dest!: route_price
      split: sum.splits if_splits option.splits)

lemma admit_rejects:
  "mwAdmit deps r = Inl rj \<Longrightarrow> (rj_status rj, rj_code rj) \<in>
     {(400, ''invalid_request''), (402, ''missing_or_invalid_payment''), (404, ''capability_not_found'')}"
  by (auto simp: mwAdmit_def rejection_def wfPrice_def Let_def dest!: route_price
      split: sum.splits if_splits option.splits)

lemma admit_reason: "mwAdmit deps r = Inl rj \<Longrightarrow> rj_reason rj \<in> {None, Some PaymentRejectHeaderMissing, Some PaymentRejectHeaderInvalid}"
  by (auto simp: mwAdmit_def rejection_def Let_def split: sum.splits if_splits option.splits)

lemma mwBody_traced:
  assumes "mwBody deps r sw w = (p, label, sw', w')"
  shows "\<exists>tr ms. traced (dp_payee deps) w tr ms w' \<and> bodyMetrics tr ms \<and> protoOk tr"
proof (cases "mwAdmit deps r")
  case (Inl rj)
  show ?thesis
  proof (cases "rj_reason rj")
    case None
    then show ?thesis using assms Inl by (intro exI [of _ "[]"]) (simp add: mwBody_def protoOk_def)
  next
    case (Some reason)
    then have "bodyMetrics [] [Metric (IncPaymentRejection reason)]"
      using admit_reason [OF Inl] by (auto simp: bodyMetrics_def)
    then show ?thesis
      using Some assms Inl traced_emit [OF _ traced_refl, of "IncPaymentRejection reason" "dp_payee deps" w]
      by (intro exI [of _ "[]"] exI [of _ "[Metric (IncPaymentRejection reason)]"]) (simp add: mwBody_def protoOk_def)
  qed
next
  case (Inr ad)
  then have "mwPaid deps r (ad_body ad) (ad_model ad) (ad_route ad) (ad_payment ad)
      (deriveWorkID (ad_payment ad)) (ad_price ad) sw w = (p, sw', w')"
    using assms by (simp add: mwBody_def split: prod.splits)
  from mwPaid_traced [OF this admitted_price [OF Inr]] show ?thesis by (auto simp: protoOk_def)
qed

end

text \<open>The end of a request: its two metrics, between those of the body and of the slot.\<close>

definition endMetrics :: "('d, 'b) paidRouteDeps \<Rightarrow> string \<Rightarrow> string \<Rightarrow> call list" where
  "endMetrics deps label outcome =
     [Metric (IncRequest (m_Capability (dp_module deps)) label outcome),
      Metric (ObserveRequest (m_Capability (dp_module deps)) label outcome)]"

text \<open>The recorder takes a request unless it is the Prometheus one and a label is not UTF-8.\<close>

definition recordable :: "('d, 'b) paidRouteDeps \<Rightarrow> string \<Rightarrow> string \<Rightarrow> bool" where
  "recordable deps label outcome \<longleftrightarrow>
     (isProm (dp_recorder deps) \<longrightarrow> labelsOk [unset (m_Capability (dp_module deps)), unset label, unset outcome])"

lemma recordRequest_cases:
  obtains "recordable deps label outcome"
    and "recordRequest deps label outcome w = (False, w\<lparr>w_calls := w_calls w @ endMetrics deps label outcome\<rparr>)"
  | n where "\<not> recordable deps label outcome" and "n \<in> {1, 2}"
    and "recordRequest deps label outcome w = (True, w\<lparr>w_calls := w_calls w @ take n (endMetrics deps label outcome)\<rparr>)"
proof (cases "recordable deps label outcome")
  case True
  then have "\<not> recPanics (dp_recorder deps) cs (IncRequest (m_Capability (dp_module deps)) label outcome)"
    "\<not> recPanics (dp_recorder deps) cs (ObserveRequest (m_Capability (dp_module deps)) label outcome)" for cs
    using recPanics_noop [of "dp_recorder deps"] recPanics_calm [of "IncRequest (m_Capability (dp_module deps)) label outcome"]
      recPanics_calm [of "ObserveRequest (m_Capability (dp_module deps)) label outcome"] by (auto simp: recordable_def)
  then have "recordRequest deps label outcome w = (False, w\<lparr>w_calls := w_calls w @ endMetrics deps label outcome\<rparr>)"
    by (simp add: recordRequest_def recordCall_def endMetrics_def emit_def Let_def)
  then show thesis using that(1) True by blast
next
  case False
  define n :: nat where "n = (if recPanics (dp_recorder deps) (w_calls w)
    (IncRequest (m_Capability (dp_module deps)) label outcome) then 1 else 2)"
  have "recordRequest deps label outcome w = (True, w\<lparr>w_calls := w_calls w @ take n (endMetrics deps label outcome)\<rparr>)"
    using False by (simp add: recordRequest_def recordCall_def endMetrics_def emit_def n_def recordable_def recPanics_observe Let_def)
  then show thesis using that(2) [of n] False by (simp add: n_def)
qed

lemma endMetrics_mw [simp]:
  "mwMetrics (take n (endMetrics deps label outcome)) = take n (endMetrics deps label outcome)"
  "effects (take n (endMetrics deps label outcome)) = []"
  by (simp_all add: endMetrics_def take_Cons split: nat.splits)

text \<open>What a request leaves with the recorder at its end: both calls, or, when the handler panics, perhaps
  only the first.\<close>

definition ended :: "('d, 'b) paidRouteDeps \<Rightarrow> string \<Rightarrow> string \<Rightarrow> bool \<Rightarrow> call list \<Rightarrow> bool" where
  "ended deps label outcome p es \<longleftrightarrow>
     (if recordable deps label outcome then es = endMetrics deps label outcome
      else p \<and> (\<exists>n\<in>{1, 2}. es = take n (endMetrics deps label outcome)))"

lemma recordRequest_frame [simp]:
  "w_sem (snd (recordRequest deps label outcome w)) = w_sem w" "w_daemon (snd (recordRequest deps label outcome w)) = w_daemon w"
  "w_backend (snd (recordRequest deps label outcome w)) = w_backend w"
  "effects (w_calls (snd (recordRequest deps label outcome w))) = effects (w_calls w)"
  by (simp_all add: recordRequest_def recordCall_def Let_def)

lemma recordRequest_panics: "fst (recordRequest deps label outcome w) \<longleftrightarrow> \<not> recordable deps label outcome"
  by (cases rule: recordRequest_cases [of deps label outcome w]) auto

lemma recordRequest_traced:
  "\<exists>es. traced c w [] es (snd (recordRequest deps label outcome w)) \<and>
     ended deps label outcome (fst (recordRequest deps label outcome w)) es"
proof (cases rule: recordRequest_cases [of deps label outcome w])
  case 1
  moreover have "mwMetrics (endMetrics deps label outcome) = endMetrics deps label outcome" "effects (endMetrics deps label outcome) = []"
    by (simp_all add: endMetrics_def)
  ultimately show ?thesis
    by (intro exI [of _ "endMetrics deps label outcome"]) (simp add: traced_def ended_def daemonRun_Nil)
next
  case (2 n)
  then show ?thesis
    by (intro exI [of _ "take n (endMetrics deps label outcome)"]) (auto simp: traced_def ended_def daemonRun_Nil)
qed

lemma rejectCapacity_traced:
  "traced c w [] (Metric (IncCapacityRejection (m_Capability (dp_module deps))) # endMetrics deps LabelUnset OutcomeRequest5xx)
     (snd (rejectCapacity deps sw w))"
  by (simp add: rejectCapacity_def traced_def endMetrics_def Let_def daemonRun_Nil)

text \<open>Between the gate and the release a slot is held.\<close>

lemma slot_traced:
  assumes "acquireSlot deps w = Some w1" and "traced c w1 tr ms w2"
  shows "\<exists>ms1 ms2. traced c w tr (ms1 @ ms @ ms2) (releaseSlot deps w2) \<and>
    list_all (\<lambda>c. \<exists>n. c = Metric (SetInflightRequests n)) (ms1 @ ms2)"
proof (cases "dp_sem deps")
  case None
  then show ?thesis using assms by (intro exI [of _ "[]"]) (simp add: acquireSlot_def releaseSlot_def)
next
  case (Some cap)
  with assms show ?thesis
    by (intro exI [of _ "[Metric (SetInflightRequests (w_sem w + 1))]"] exI [of _ "[Metric (SetInflightRequests (w_sem w))]"])
      (auto simp: acquireSlot_def releaseSlot_def traced_def Let_def split: if_splits)
qed

context paid_route
begin

text \<open>Every request, however it ends, leaves a trace of the protocol and gives back its slot.\<close>

lemma admitted_traced:
  assumes "paymentMiddleware deps r rw w = (p, sw', w')" and "acquireSlot deps w = Some w1"
  shows "\<exists>tr ms es ms'. traced (dp_payee deps) w tr (ms @ es @ ms') w' \<and> protoOk tr \<and> bodyMetrics tr (ms @ ms') \<and>
    ended deps (requestLabel deps r) (classifyOutcome (rq_CtxErr r) (sw_status sw')) p es"
proof -
  obtain p1 label sw1 w2 where b: "mwBody deps r (newStatusWriter rw) w1 = (p1, label, sw1, w2)"
    using prod_cases4 by blast
  obtain tr ms where t: "traced (dp_payee deps) w1 tr ms w2" "bodyMetrics tr ms" "protoOk tr" using mwBody_traced [OF b] by blast
  define oc where "oc = classifyOutcome (rq_CtxErr r) (sw_status sw1)"
  define q where "q = recordRequest deps label oc w2"
  have w': "w' = releaseSlot deps (snd q)" "sw' = sw1" "p \<longleftrightarrow> p1 \<or> fst q"
    using assms b by (auto simp: paymentMiddleware_def oc_def q_def Let_def split_beta)
  obtain es where es: "traced (dp_payee deps) w2 [] es (snd q)" "ended deps label oc (fst q) es"
    using recordRequest_traced unfolding q_def by blast
  have "traced (dp_payee deps) w1 tr (ms @ es) (snd q)" using traced_trans [OF t(1) es(1)] by simp
  from slot_traced [OF assms(2) this] obtain ms1 ms2 where s:
    "traced (dp_payee deps) w tr (ms1 @ (ms @ es) @ ms2) w'"
    "list_all (\<lambda>c. \<exists>n. c = Metric (SetInflightRequests n)) (ms1 @ ms2)"
    using w'(1) by blast
  then have "\<not> is_request_metric c \<and> c \<noteq> insufficient" if "c \<in> set (ms1 @ ms2)" for c
    using that by (auto simp: list_all_iff dest!: bspec)
  then have "no_request ms1" "no_request ms2" "insufficient \<notin> set (ms1 @ ms2)" by (auto simp: list_all_iff)
  then have "bodyMetrics tr ((ms1 @ ms) @ ms2)" using t(2) by (auto simp: bodyMetrics_def)
  moreover have "ended deps label oc p es" using es(2) w'(3) by (auto simp: ended_def split: if_splits)
  moreover have "traced (dp_payee deps) w tr ((ms1 @ ms) @ es @ ms2) w'" using s(1) by simp
  ultimately show ?thesis using t(3) w'(2) mwBody_label [OF b] unfolding oc_def by blast
qed

lemma paymentMiddleware_traced:
  assumes "paymentMiddleware deps r rw w = (p, sw', w')"
  shows "\<exists>tr ms. traced (dp_payee deps) w tr ms w' \<and> protoOk tr \<and> (insufficient \<in> set ms \<longrightarrow> overdrawn tr)"
proof (cases "acquireSlot deps w")
  case None
  then have "w' = snd (rejectCapacity deps (newStatusWriter rw) w)"
    using assms by (simp add: paymentMiddleware_def split_beta)
  with rejectCapacity_traced [of "dp_payee deps" w deps "newStatusWriter rw"] show ?thesis
    by (intro exI [of _ "[] :: call list"]
        exI [of _ "Metric (IncCapacityRejection (m_Capability (dp_module deps))) # endMetrics deps LabelUnset OutcomeRequest5xx"])
      (simp add: protoOk_def endMetrics_def)
next
  case (Some w1)
  obtain tr ms es ms' where t: "traced (dp_payee deps) w tr (ms @ es @ ms') w'" "protoOk tr" "bodyMetrics tr (ms @ ms')"
    "ended deps (requestLabel deps r) (classifyOutcome (rq_CtxErr r) (sw_status sw')) p es"
    using admitted_traced [OF assms Some] by blast
  have "insufficient \<notin> set es" using t(4) by (auto simp: ended_def endMetrics_def dest!: in_set_takeD split: if_splits)
  then have "insufficient \<in> set (ms @ es @ ms') \<longrightarrow> overdrawn tr" using t(3) by (auto simp: bodyMetrics_def)
  then show ?thesis using t(1,2) by blast
qed

end

end
