(* ===== verification/Handlers.thy ===== *)
theory Handlers
  imports Middleware
begin

text \<open>
  \<open>internal/runtime/http/handlers.go\<close>: the unpaid routes. Health, the registry's view of
  the offerings, and the proxy that asks the daemon for ticket parameters.

  They write to \<open>net/http\<close>'s own writer. A struct is encoded with its fields in order and
  the \<open>omitempty\<close> ones left out; a Go map with its keys sorted. The proxy's decoder sees
  the first 8 KiB of the body. The texts of \<open>encoding/json\<close> errors are \<open>rt_jsonErr\<close>.

  The last group of lemmas reads the answers as a caller does, by parsing the body
  (\<open>JsonTrip\<close>): the daemon's ticket parameters and the configured catalogue come out again.
\<close>

section \<open>Health\<close>

definition jInt :: "int \<Rightarrow> json" where
  "jInt n = JNum (showInt n)"

definition encodeLine :: "json \<Rightarrow> bytes" where
  "encodeLine v = jsonEnc (\<lambda>n. n) v @ [CHR 0x0A]"

definition writeJSON :: "json \<Rightarrow> RespWriter \<Rightarrow> RespWriter" where
  "writeJSON v w = snd (rawWrite (encodeLine v) (rawSet ''Content-Type'' ''application/json'' w))"

definition healthHandler :: "Config \<Rightarrow> nat \<Rightarrow> nat \<Rightarrow> RespWriter \<Rightarrow> RespWriter" where
  "healthHandler cfg maxConcurrent inflight w =
     writeJSON (jsonSort (JObj [(''status'', JStr ''ok''), (''api_version'', jInt (APIVersion cfg)),
       (''protocol_version'', jInt (ProtocolVersion cfg)), (''max_concurrent'', jInt (int maxConcurrent)),
       (''inflight'', jInt (int inflight))])) w"

section \<open>Bearer authentication\<close>

definition requireBearerAuth :: "'w RW \<Rightarrow> Request \<Rightarrow> string \<Rightarrow> 'w \<Rightarrow> bool \<times> 'w" where
  "requireBearerAuth rw r authToken w =
     (if authToken = [] then (True, w)
      else
        let gotAuth = headerGet ''Authorization'' (rq_Header r); want = ''Bearer '' @ authToken in
        if gotAuth \<noteq> want
        then (False, writeJSONError rw 401 ''unauthorized'' ''missing or invalid bearer token'' w)
        else (True, w))"

section \<open>The registry's offerings\<close>

definition omitEmptyMap :: "(string \<times> json) list \<Rightarrow> json option" where
  "omitEmptyMap m = (if m = [] then None else Some (jsonSort (JObj m)))"

definition optField :: "string \<Rightarrow> json option \<Rightarrow> (string \<times> json) list" where
  "optField k v = (case v of None \<Rightarrow> [] | Some x \<Rightarrow> [(k, x)])"

definition offeringJSON :: "OfferingEntry \<Rightarrow> json" where
  "offeringJSON o1 =
     JObj ([(''id'', JStr (oe_Model o1)), (''price_per_work_unit_wei'', JStr (oe_PricePerWorkUnitWei o1))] @
           optField ''constraints'' (omitEmptyMap (oe_Constraints o1)))"

definition registryCapabilityJSON :: "CapabilityEntry \<Rightarrow> json" where
  "registryCapabilityJSON c =
     JObj ([(''name'', JStr (ce_Capability c)), (''work_unit'', JStr (ce_WorkUnit c))] @
           optField ''extra'' (omitEmptyMap (ce_Extra c)) @
           [(''offerings'', JArr (map offeringJSON (ce_Offerings c)))])"

definition registryOfferingsJSON :: "Config \<Rightarrow> json" where
  "registryOfferingsJSON cfg =
     JObj (optField ''worker_eth_address'' (if WorkerEthAddress cfg \<noteq> [] then Some (JStr (WorkerEthAddress cfg)) else None) @
           [(''capabilities'', JArr (map registryCapabilityJSON (Ordered (Capabilities cfg))))])"

definition registryOfferingsHandler :: "Config \<Rightarrow> Request \<Rightarrow> RespWriter \<Rightarrow> RespWriter" where
  "registryOfferingsHandler cfg r w =
     (let (ok, w1) = requireBearerAuth rawRW r (AuthToken cfg) w
      in if \<not> ok then w1 else writeJSON (registryOfferingsJSON cfg) w1)"

section \<open>Parsing a ticket-parameters request\<close>

record ticketParamsRequestJSON =
  tj_SenderETHAddress :: string
  tj_RecipientETHAddress :: string
  tj_FaceValueWei :: string
  tj_Capability :: string
  tj_Offering :: string

definition zeroTicketRequest :: ticketParamsRequestJSON where
  "zeroTicketRequest = \<lparr>tj_SenderETHAddress = [], tj_RecipientETHAddress = [], tj_FaceValueWei = [],
     tj_Capability = [], tj_Offering = []\<rparr>"

text \<open>\<open>DisallowUnknownFields\<close>: a key that is no field is an error.\<close>

definition ticketField :: "bytes \<Rightarrow> json \<Rightarrow> ticketParamsRequestJSON \<Rightarrow> ticketParamsRequestJSON option" where
  "ticketField k v r =
     (if k = ''sender_eth_address'' then map_option (\<lambda>x. r\<lparr>tj_SenderETHAddress := x\<rparr>) (dec_string (tj_SenderETHAddress r) v)
      else if k = ''recipient_eth_address'' then map_option (\<lambda>x. r\<lparr>tj_RecipientETHAddress := x\<rparr>) (dec_string (tj_RecipientETHAddress r) v)
      else if k = ''face_value_wei'' then map_option (\<lambda>x. r\<lparr>tj_FaceValueWei := x\<rparr>) (dec_string (tj_FaceValueWei r) v)
      else if k = ''capability'' then map_option (\<lambda>x. r\<lparr>tj_Capability := x\<rparr>) (dec_string (tj_Capability r) v)
      else if k = ''offering'' then map_option (\<lambda>x. r\<lparr>tj_Offering := x\<rparr>) (dec_string (tj_Offering r) v)
      else None)"

definition parseHexAddress :: "string \<Rightarrow> string \<Rightarrow> Err + bytes" where
  "parseHexAddress field val =
     (let trimmed = trimSpace val in
      if \<not> hasPrefix ''0x'' trimmed \<and> \<not> hasPrefix ''0X'' trimmed then
        Inl (errorsNew (field @ '' must be a 0x-prefixed hex address''))
      else
        let raw = drop 2 trimmed in
        if length raw \<noteq> 40 then Inl (errorsNew (field @ '' must be exactly 20 bytes (40 hex chars)''))
        else case hexDecode raw of
               None \<Rightarrow> Inl (errorsNew (field @ '' must be a valid hex address''))
             | Some out \<Rightarrow> Inr out)"

definition parseTicketParamsRequest :: "ticketParamsRequestJSON \<Rightarrow> Err + GetTicketParamsRequest" where
  "parseTicketParamsRequest q =
     (case parseHexAddress ''sender_eth_address'' (tj_SenderETHAddress q) of
        Inl e \<Rightarrow> Inl e
      | Inr sender \<Rightarrow>
          (case parseHexAddress ''recipient_eth_address'' (tj_RecipientETHAddress q) of
             Inl e \<Rightarrow> Inl e
           | Inr recipient \<Rightarrow>
               (case setString10 (trimSpace (tj_FaceValueWei q)) of
                  None \<Rightarrow> Inl (errorsNew ''face_value_wei must be a decimal integer'')
                | Some faceValue \<Rightarrow>
                    if faceValue \<le> 0 then Inl (errorsNew ''face_value_wei must be > 0'')
                    else if trimSpace (tj_Capability q) = [] then Inl (errorsNew ''capability is required'')
                    else if trimSpace (tj_Offering q) = [] then Inl (errorsNew ''offering is required'')
                    else Inr \<lparr>gt_Sender = sender, gt_Recipient = recipient, gt_FaceValue = faceValue,
                              gt_Capability = trimSpace (tj_Capability q), gt_Offering = trimSpace (tj_Offering q)\<rparr>)))"

abbreviation (input) maxTicketParamsBodyBytes :: nat where "maxTicketParamsBodyBytes \<equiv> 8192"

text \<open>What the decoder can read of the body, and the error that ends it.\<close>

definition limitedBody :: "Request \<Rightarrow> bytes \<times> Err option" where
  "limitedBody r =
     (if maxTicketParamsBodyBytes < length (rq_Body r) then (take maxTicketParamsBodyBytes (rq_Body r), Some errTooLarge)
      else (rq_Body r, rq_BodyErr r))"

text \<open>The second \<open>Decode\<close>: the rest of the input must be blank up to its end.\<close>

definition ensureSingleJSONDocument :: "Runtime \<Rightarrow> bytes \<Rightarrow> Err option \<Rightarrow> Err option" where
  "ensureSingleJSONDocument rt rest fin =
     (if skipWs rest = [] then
        (case fin of None \<Rightarrow> None | Some e \<Rightarrow> Some (wrapf ''invalid JSON body: '' e))
      else case jsonNext rest of
             Some (v, _) \<Rightarrow>
               if decodeStruct (\<lambda>_ _ _. None) v () = Some ()
               then Some (errorsNew ''request body must contain exactly one JSON object'')
               else Some (wrapf ''invalid JSON body: '' (rt_jsonErr rt ''struct{}'' rest))
           | None \<Rightarrow> Some (wrapf ''invalid JSON body: '' (rt_jsonErr rt ''struct{}'' rest)))"

text \<open>The whole of the proxy's input checks: the daemon's request, or the detail of the 400.\<close>

definition decodeTicketParams :: "Runtime \<Rightarrow> Request \<Rightarrow> string + GetTicketParamsRequest" where
  "decodeTicketParams rt r =
     (let (body, fin) = limitedBody r in
      case jsonNext body of
        None \<Rightarrow> Inl (''invalid JSON body: '' @ emsg (rt_jsonErr rt ''ticketParamsRequestJSON'' body))
      | Some (v, rest) \<Rightarrow>
          (case decodeStruct ticketField v zeroTicketRequest of
             None \<Rightarrow> Inl (''invalid JSON body: '' @ emsg (rt_jsonErr rt ''ticketParamsRequestJSON'' body))
           | Some req \<Rightarrow>
               (case ensureSingleJSONDocument rt rest fin of
                  Some e \<Rightarrow> Inl (emsg e)
                | None \<Rightarrow>
                    (case parseTicketParamsRequest req of Inl e \<Rightarrow> Inl (emsg e) | Inr q \<Rightarrow> Inr q))))"

section \<open>The answer\<close>

definition bytesToHexString :: "bytes \<Rightarrow> string" where
  "bytesToHexString b = (if b = [] then ''0x'' else ''0x'' @ hexEncode b)"

definition bytesToDecimalString :: "bytes \<Rightarrow> string" where
  "bytesToDecimalString b = (if b = [] then ''0'' else showInt (setBytes b))"

record ticketExpirationParamsJSON =
  xj_CreationRound :: int
  xj_CreationRoundBlockHash :: string

record ticketParamsJSON =
  pj_Recipient :: string
  pj_FaceValue :: string
  pj_WinProb :: string
  pj_RecipientRandHash :: string
  pj_Seed :: string
  pj_ExpirationBlock :: string
  pj_ExpirationParams :: ticketExpirationParamsJSON

record ticketParamsResponseJSON =
  tr_TicketParams :: ticketParamsJSON

definition renderTicketParamsJSON :: "TicketParams \<Rightarrow> ticketParamsJSON" where
  "renderTicketParamsJSON tp =
     \<lparr>pj_Recipient = bytesToHexString (tp_Recipient tp),
      pj_FaceValue = bytesToDecimalString (tp_FaceValueWei tp),
      pj_WinProb = bytesToHexString (tp_WinProb tp),
      pj_RecipientRandHash = bytesToHexString (tp_RecipientRandHash tp),
      pj_Seed = bytesToHexString (tp_Seed tp),
      pj_ExpirationBlock = bytesToDecimalString (tp_ExpirationBlock tp),
      pj_ExpirationParams =
        \<lparr>xj_CreationRound = te_CreationRound (tp_ExpirationParams tp),
         xj_CreationRoundBlockHash = bytesToHexString (te_CreationRoundBlockHash (tp_ExpirationParams tp))\<rparr>\<rparr>"

text \<open>The structs as the encoder writes them, by their field tags.\<close>

definition marshalExpirationParams :: "ticketExpirationParamsJSON \<Rightarrow> json" where
  "marshalExpirationParams x =
     JObj [(''creation_round'', jInt (xj_CreationRound x)),
           (''creation_round_block_hash'', JStr (xj_CreationRoundBlockHash x))]"

definition marshalTicketParams :: "ticketParamsJSON \<Rightarrow> json" where
  "marshalTicketParams p =
     JObj [(''recipient'', JStr (pj_Recipient p)),
           (''face_value'', JStr (pj_FaceValue p)),
           (''win_prob'', JStr (pj_WinProb p)),
           (''recipient_rand_hash'', JStr (pj_RecipientRandHash p)),
           (''seed'', JStr (pj_Seed p)),
           (''expiration_block'', JStr (pj_ExpirationBlock p)),
           (''expiration_params'', marshalExpirationParams (pj_ExpirationParams p))]"

definition marshalTicketParamsResponse :: "ticketParamsResponseJSON \<Rightarrow> json" where
  "marshalTicketParamsResponse a = JObj [(''ticket_params'', marshalTicketParams (tr_TicketParams a))]"

definition proxyErrorStatus :: "Err \<Rightarrow> int \<times> string" where
  "proxyErrorStatus e =
     (case ecode e of
        CodeInvalidArgument \<Rightarrow> (400, ''invalid_request'')
      | CodeUnavailable \<Rightarrow> (503, ''payment_daemon_unavailable'')
      | CodeDeadlineExceeded \<Rightarrow> (503, ''payment_daemon_unavailable'')
      | CodeOther _ \<Rightarrow> (500, ''ticket_params_unavailable''))"

definition writeTicketParamsProxyError :: "Err \<Rightarrow> RespWriter \<Rightarrow> RespWriter" where
  "writeTicketParamsProxyError e w = (let (status, code) = proxyErrorStatus e in writeJSONError rawRW status code (emsg e) w)"

definition ticketParamsHandler ::
    "Runtime \<Rightarrow> Config \<Rightarrow> ('d, 'b) Client \<Rightarrow> Request \<Rightarrow> RespWriter \<Rightarrow> ('d, 'b) World \<Rightarrow> RespWriter \<times> ('d, 'b) World" where
  "ticketParamsHandler rt cfg payee r w wd =
     (let (ok, w1) = requireBearerAuth rawRW r (AuthToken cfg) w in
      if \<not> ok then (w1, wd)
      else case decodeTicketParams rt r of
             Inl detail \<Rightarrow> (writeJSONError rawRW 400 ''invalid_request'' detail w1, wd)
           | Inr q \<Rightarrow>
               (case callRpc (RpcGetTicketParams q) ReplyTicketParams (cl_GetTicketParams payee q) wd of
                  (Inl e, wd1) \<Rightarrow> (writeTicketParamsProxyError e w1, wd1)
                | (Inr params, wd1) \<Rightarrow>
                    (writeJSON (marshalTicketParamsResponse \<lparr>tr_TicketParams = renderTicketParamsJSON params\<rparr>) w1, wd1)))"

section \<open>Properties\<close>

text \<open>An address printed in hexadecimal is read back, in any case and with blanks around it.\<close>

lemma hexDigit_ascii: "n < 16 \<Longrightarrow> byteOf (hexDigit n) < 0x80 \<and> \<not> isSpace (byteOf (hexDigit n))"
  by (auto simp: hexDigit_def isSpace_def byteOf_chr)

lemma hexEncode_ascii: "c \<in> set (hexEncode bs) \<Longrightarrow> byteOf c < 0x80 \<and> \<not> isSpace (byteOf c)"
proof (induction bs)
  case (Cons b bs)
  have "byteOf b div 16 < 16" "byteOf b mod 16 < 16" using byteOf_lt [of b] by (simp_all add: less_mult_imp_div_less)
  then show ?case using Cons hexDigit_ascii by (auto simp: hexEncode_Cons)
qed simp

lemma parseHexAddress_roundtrip:
  assumes "length a = 20"
  shows "parseHexAddress field (bytesToHexString a) = Inr a"
proof -
  have ne: "a \<noteq> []" using assms by auto
  have "\<forall>c\<in>set (''0x'' @ hexEncode a). byteOf c < 0x80 \<and> \<not> isSpace (byteOf c)"
    using hexEncode_ascii [of _ a] by (auto simp: isSpace_def)
  then have "trimSpace (''0x'' @ hexEncode a) = ''0x'' @ hexEncode a" by (rule trimSpace_noop)
  then show ?thesis
    using ne assms hexDecode_hexEncode [of a] by (simp add: parseHexAddress_def bytesToHexString_def hasPrefix_def)
qed

lemma parseHexAddress_length: "parseHexAddress field v = Inr a \<Longrightarrow> length a = 20"
  by (auto simp: parseHexAddress_def Let_def split: if_splits option.splits dest!: hexDecode_length)

text \<open>The daemon is asked only with 20-byte addresses, a positive value and names.\<close>

lemma parseTicketParamsRequest_ok:
  "parseTicketParamsRequest q = Inr g \<Longrightarrow>
     length (gt_Sender g) = 20 \<and> length (gt_Recipient g) = 20 \<and> 0 < gt_FaceValue g \<and>
     gt_Capability g \<noteq> [] \<and> gt_Offering g \<noteq> []"
  by (auto simp: parseTicketParamsRequest_def split: sum.splits option.splits if_splits dest: parseHexAddress_length)

lemma decodeTicketParams_ok:
  "decodeTicketParams rt r = Inr g \<Longrightarrow>
     length (gt_Sender g) = 20 \<and> length (gt_Recipient g) = 20 \<and> 0 < gt_FaceValue g \<and>
     gt_Capability g \<noteq> [] \<and> gt_Offering g \<noteq> []"
  using parseTicketParamsRequest_ok
  by (auto simp: decodeTicketParams_def split: prod.splits option.splits sum.splits)

lemma requireBearerAuth_iff:
  "fst (requireBearerAuth rw r tok w) \<longleftrightarrow> tok = [] \<or> headerGet ''Authorization'' (rq_Header r) = ''Bearer '' @ tok"
  by (simp add: requireBearerAuth_def Let_def)

lemma requireBearerAuth_pass: "fst (requireBearerAuth rw r tok w) \<Longrightarrow> snd (requireBearerAuth rw r tok w) = w"
  by (auto simp: requireBearerAuth_def Let_def split: if_splits)

section \<open>Reading the answers\<close>

text \<open>What a caller reads from an object: a hexadecimal field, a decimal one, a number, an object.\<close>

definition strField :: "(bytes \<times> json) list \<Rightarrow> string \<Rightarrow> string option" where
  "strField ms k = (case objGet ms k of Some (JStr s) \<Rightarrow> Some s | _ \<Rightarrow> None)"

definition hexField :: "(bytes \<times> json) list \<Rightarrow> string \<Rightarrow> bytes option" where
  "hexField ms k =
     (case strField ms k of Some s \<Rightarrow> if hasPrefix ''0x'' s then hexDecode (drop 2 s) else None | None \<Rightarrow> None)"

definition decField :: "(bytes \<times> json) list \<Rightarrow> string \<Rightarrow> int option" where
  "decField ms k = (case strField ms k of Some s \<Rightarrow> setString10 s | None \<Rightarrow> None)"

definition numField :: "(bytes \<times> json) list \<Rightarrow> string \<Rightarrow> int option" where
  "numField ms k = (case objGet ms k of Some (JNum n) \<Rightarrow> setString10 n | _ \<Rightarrow> None)"

definition objField :: "(bytes \<times> json) list \<Rightarrow> string \<Rightarrow> (bytes \<times> json) list" where
  "objField ms k = (case objGet ms k of Some (JObj os) \<Rightarrow> os | _ \<Rightarrow> [])"

lemma showInt_ascii: "c \<in> set (showInt i) \<Longrightarrow> byteOf c < 0x80"
  using showNat_digits [of c "nat i"] showNat_digits [of c "nat (- i)"]
  by (auto simp: showInt_def isDigit_def split: if_splits)

lemma toValidUTF8_hex [simp]: "toValidUTF8 (bytesToHexString b) = bytesToHexString b"
  using hexEncode_ascii [of _ b] by (intro toValidUTF8_ascii) (auto simp: bytesToHexString_def split: if_splits)

lemma toValidUTF8_dec [simp]: "toValidUTF8 (bytesToDecimalString b) = bytesToDecimalString b"
  using showInt_ascii by (intro toValidUTF8_ascii) (auto simp: bytesToDecimalString_def split: if_splits)

lemma hexDecode_printed: "hasPrefix ''0x'' (bytesToHexString b) \<and> hexDecode (drop 2 (bytesToHexString b)) = Some b"
  by (simp add: bytesToHexString_def hasPrefix_def hexDecode_hexEncode)

lemma setString10_printed: "setString10 (bytesToDecimalString b) = Some (setBytes b)"
proof (cases "b = []")
  case True
  then have "bytesToDecimalString b = showInt (setBytes b)" by (simp add: bytesToDecimalString_def) code_simp
  then show ?thesis by (simp add: setString10_showInt)
qed (simp add: bytesToDecimalString_def setString10_showInt)

lemma writeJSON_body:
  assumes "wr_sent w = None" and "wr_accepts w = None"
  shows "wr_body (writeJSON v w) = wr_body w @ encodeLine v"
  using assms by (simp add: writeJSON_def rawWrite_def rawWriteHeader_def rawSet_def bodyAllowed_def Let_def encodeLine_def)

text \<open>The document of the answer and what it holds.\<close>

definition answerMembers :: "TicketParams \<Rightarrow> (bytes \<times> json) list" where
  "answerMembers tp = (case marshalTicketParams (renderTicketParamsJSON tp) of JObj ms \<Rightarrow> ms | _ \<Rightarrow> [])"

lemma answer_read:
  "jsonUnmarshal (encodeLine (marshalTicketParamsResponse \<lparr>tr_TicketParams = renderTicketParamsJSON tp\<rparr>)) =
     Some (JObj [(''ticket_params'', JObj (answerMembers tp))])"
proof -
  let ?v = "marshalTicketParamsResponse \<lparr>tr_TicketParams = renderTicketParamsJSON tp\<rparr>"
  note defs = marshalTicketParamsResponse_def marshalTicketParams_def marshalExpirationParams_def renderTicketParamsJSON_def jInt_def
  have "jsonFits 0 ?v" by (simp add: defs numLit_showInt maxNestingDepth_def)
  then have "jsonUnmarshal (encodeLine ?v) = Some (validJson ?v)" unfolding encodeLine_def by (rule jsonUnmarshal_jsonEnc)
  then show ?thesis by (simp add: defs answerMembers_def toValidUTF8_ascii)
qed

lemma answer_fields:
  "hexField (answerMembers tp) ''recipient'' = Some (tp_Recipient tp)"
  "decField (answerMembers tp) ''face_value'' = Some (setBytes (tp_FaceValueWei tp))"
  "hexField (answerMembers tp) ''win_prob'' = Some (tp_WinProb tp)"
  "hexField (answerMembers tp) ''recipient_rand_hash'' = Some (tp_RecipientRandHash tp)"
  "hexField (answerMembers tp) ''seed'' = Some (tp_Seed tp)"
  "decField (answerMembers tp) ''expiration_block'' = Some (setBytes (tp_ExpirationBlock tp))"
  "numField (objField (answerMembers tp) ''expiration_params'') ''creation_round'' = Some (te_CreationRound (tp_ExpirationParams tp))"
  "hexField (objField (answerMembers tp) ''expiration_params'') ''creation_round_block_hash'' =
     Some (te_CreationRoundBlockHash (tp_ExpirationParams tp))"
  by (simp_all add: answerMembers_def marshalTicketParams_def marshalExpirationParams_def renderTicketParamsJSON_def jInt_def
      hexField_def decField_def numField_def objField_def strField_def objGet_def hexDecode_printed setString10_printed
      setString10_showInt)

text \<open>The catalogue a registry reads from the offerings document.\<close>

definition readOffering :: "json \<Rightarrow> string option \<times> string option" where
  "readOffering v = (case v of JObj ms \<Rightarrow> (strField ms ''id'', strField ms ''price_per_work_unit_wei'') | _ \<Rightarrow> (None, None))"

definition arrField :: "(bytes \<times> json) list \<Rightarrow> string \<Rightarrow> json list" where
  "arrField ms k = (case objGet ms k of Some (JArr vs) \<Rightarrow> vs | _ \<Rightarrow> [])"

definition readCapability :: "json \<Rightarrow> string option \<times> string option \<times> (string option \<times> string option) list" where
  "readCapability v =
     (case v of
        JObj ms \<Rightarrow> (strField ms ''name'', strField ms ''work_unit'', map readOffering (arrField ms ''offerings''))
      | _ \<Rightarrow> (None, None, []))"

definition readCatalog :: "json \<Rightarrow> (string option \<times> string option \<times> (string option \<times> string option) list) list" where
  "readCatalog v = (case v of JObj ms \<Rightarrow> map readCapability (arrField ms ''capabilities'') | _ \<Rightarrow> [])"

text \<open>An entry the document can carry: text in UTF-8 and options the encoder can write.\<close>

definition plainOffering :: "OfferingEntry \<Rightarrow> bool" where
  "plainOffering o1 \<longleftrightarrow> utf8Valid (oe_Model o1) \<and> utf8Valid (oe_PricePerWorkUnitWei o1) \<and> jsonFits 5 (JObj (oe_Constraints o1))"

definition plainCapability :: "CapabilityEntry \<Rightarrow> bool" where
  "plainCapability c \<longleftrightarrow> utf8Valid (ce_Capability c) \<and> utf8Valid (ce_WorkUnit c) \<and> jsonFits 3 (JObj (ce_Extra c)) \<and>
     list_all plainOffering (ce_Offerings c)"

lemma jsonFits_omitEmpty: "jsonFits d (JObj m) \<Longrightarrow> omitEmptyMap m = Some v \<Longrightarrow> jsonFits d v"
  using jsonFits_sort [of d "JObj m"] by (auto simp: omitEmptyMap_def split: if_splits)

lemma offering_read:
  assumes "plainOffering o1"
  shows "jsonFits 4 (offeringJSON o1)" and
    "readOffering (validJson (offeringJSON o1)) = (Some (oe_Model o1), Some (oe_PricePerWorkUnitWei o1))"
proof -
  note u = assms [unfolded plainOffering_def]
  show "jsonFits 4 (offeringJSON o1)"
    using u jsonFits_omitEmpty [of 5 "oe_Constraints o1"]
    by (cases "omitEmptyMap (oe_Constraints o1)") (simp_all add: offeringJSON_def optField_def maxNestingDepth_def)
  show "readOffering (validJson (offeringJSON o1)) = (Some (oe_Model o1), Some (oe_PricePerWorkUnitWei o1))"
    using u by (cases "omitEmptyMap (oe_Constraints o1)")
      (simp_all add: offeringJSON_def optField_def readOffering_def strField_def objGet_def toValidUTF8_ascii toValidUTF8_valid)
qed

lemma capability_read:
  assumes "plainCapability c"
  shows "jsonFits 2 (registryCapabilityJSON c)" and
    "readCapability (validJson (registryCapabilityJSON c)) =
       (Some (ce_Capability c), Some (ce_WorkUnit c),
        map (\<lambda>o1. (Some (oe_Model o1), Some (oe_PricePerWorkUnitWei o1))) (ce_Offerings c))"
proof -
  note u = assms [unfolded plainCapability_def]
  show "jsonFits 2 (registryCapabilityJSON c)"
    using u offering_read(1) jsonFits_omitEmpty [of 3 "ce_Extra c"]
    by (cases "omitEmptyMap (ce_Extra c)") (auto simp: registryCapabilityJSON_def optField_def maxNestingDepth_def list_all_iff)
  have "map (\<lambda>x. readOffering (validJson (offeringJSON x))) (ce_Offerings c) =
      map (\<lambda>o1. (Some (oe_Model o1), Some (oe_PricePerWorkUnitWei o1))) (ce_Offerings c)"
    using u offering_read(2) by (auto simp: list_all_iff)
  then show "readCapability (validJson (registryCapabilityJSON c)) =
       (Some (ce_Capability c), Some (ce_WorkUnit c),
        map (\<lambda>o1. (Some (oe_Model o1), Some (oe_PricePerWorkUnitWei o1))) (ce_Offerings c))"
    using u by (cases "omitEmptyMap (ce_Extra c)")
      (simp_all add: registryCapabilityJSON_def optField_def readCapability_def strField_def arrField_def objGet_def
        toValidUTF8_ascii toValidUTF8_valid comp_def)
qed

section \<open>Correctness\<close>

text \<open>An address printed by the worker is read back as itself, blanks around it and all, and
  whatever is accepted as an address has twenty bytes.\<close>

theorem hex_address_roundtrip:
  assumes "length a = 20"
  shows "parseHexAddress field (bytesToHexString a) = Inr a \<and>
    (\<forall>v b. parseHexAddress field v = Inr b \<longrightarrow> length b = 20)"
  using parseHexAddress_roundtrip [OF assms] parseHexAddress_length by blast

theorem hex_address_roundtrip_witness:
  "length (replicate 20 (CHR ''a'')) = 20 \<and> parseHexAddress ''f'' (bytesToHexString (replicate 20 (CHR ''a''))) = Inr (replicate 20 (CHR ''a''))"
  using hex_address_roundtrip [of "replicate 20 (CHR ''a'')" "''f''"] by simp

text \<open>C32 The daemon is asked for ticket parameters only by an authorised caller and only with a valid
  request: two addresses of twenty bytes, a positive face value, a capability and an
  offering; it is asked at most once, and no other effect is made.\<close>

theorem ticketParams_guarded:
  assumes "ticketParamsHandler rt cfg (WithMetrics (grpcClient st) recNil) r w wd = (w', wd')"
  shows "effects (w_calls wd') = effects (w_calls wd) \<or>
    (AuthToken cfg = [] \<or> headerGet ''Authorization'' (rq_Header r) = ''Bearer '' @ AuthToken cfg) \<and>
    (\<exists>q rep. effects (w_calls wd') = effects (w_calls wd) @ [Rpc (RpcGetTicketParams q) rep] \<and>
       length (gt_Sender q) = 20 \<and> length (gt_Recipient q) = 20 \<and> 0 < gt_FaceValue q \<and>
       gt_Capability q \<noteq> [] \<and> gt_Offering q \<noteq> [])"
proof (cases "fst (requireBearerAuth rawRW r (AuthToken cfg) w) \<and> (\<exists>q. decodeTicketParams rt r = Inr q)")
  case False
  then show ?thesis using assms
    by (auto simp: ticketParamsHandler_def Let_def split: prod.splits sum.splits if_splits)
next
  case True
  then obtain q where q: "decodeTicketParams rt r = Inr q" by blast
  obtain res wd1 where c: "callRpc (RpcGetTicketParams q) ReplyTicketParams
      (cl_GetTicketParams (WithMetrics (grpcClient st) recNil) q) wd = (res, wd1)" by fastforce
  have "traced (WithMetrics (grpcClient st) recNil) wd [Rpc (RpcGetTicketParams q) (replyOf ReplyTicketParams res)] [] wd1"
    using grpcMetered.quiet_ticket by (rule traced_callRpc) (use c in \<open>simp_all add: rpcAct_def\<close>)
  moreover have "wd' = wd1" using assms True q c
    by (auto simp: ticketParamsHandler_def Let_def split: prod.splits sum.splits if_splits)
  ultimately show ?thesis
    using decodeTicketParams_ok [OF q] requireBearerAuth_iff [of rawRW r "AuthToken cfg" w] True
    by (auto simp: traced_def)
qed

text \<open>C34 When the daemon grants ticket parameters to an authorised, well-formed request, the body of the
  answer is one JSON document, and a caller that parses it gets the daemon's parameters back:
  every byte string of the hexadecimal fields, the value of the decimal ones, the round.\<close>

theorem ticketParams_roundtrip:
  assumes "wr_sent w = None" and "wr_accepts w = None" and "wr_body w = []"
    and "AuthToken cfg = [] \<or> headerGet ''Authorization'' (rq_Header r) = ''Bearer '' @ AuthToken cfg"
    and "decodeTicketParams rt r = Inr q" and "fst (cl_GetTicketParams payee q wd) = Inr tp"
  shows "\<exists>ms. jsonUnmarshal (wr_body (fst (ticketParamsHandler rt cfg payee r w wd))) =
      Some (JObj [(''ticket_params'', JObj ms)]) \<and>
    hexField ms ''recipient'' = Some (tp_Recipient tp) \<and>
    decField ms ''face_value'' = Some (setBytes (tp_FaceValueWei tp)) \<and>
    hexField ms ''win_prob'' = Some (tp_WinProb tp) \<and>
    hexField ms ''recipient_rand_hash'' = Some (tp_RecipientRandHash tp) \<and>
    hexField ms ''seed'' = Some (tp_Seed tp) \<and>
    decField ms ''expiration_block'' = Some (setBytes (tp_ExpirationBlock tp)) \<and>
    numField (objField ms ''expiration_params'') ''creation_round'' = Some (te_CreationRound (tp_ExpirationParams tp)) \<and>
    hexField (objField ms ''expiration_params'') ''creation_round_block_hash'' =
      Some (te_CreationRoundBlockHash (tp_ExpirationParams tp))"
proof -
  have a: "fst (requireBearerAuth rawRW r (AuthToken cfg) w)" using assms(4) by (simp add: requireBearerAuth_iff)
  then have "wr_body (fst (ticketParamsHandler rt cfg payee r w wd)) =
      wr_body (writeJSON (marshalTicketParamsResponse \<lparr>tr_TicketParams = renderTicketParamsJSON tp\<rparr>) w)"
    using assms(5,6) requireBearerAuth_pass [OF a]
    by (simp add: ticketParamsHandler_def callRpc_def Let_def split_beta split: sum.splits prod.splits)
  then have "jsonUnmarshal (wr_body (fst (ticketParamsHandler rt cfg payee r w wd))) =
      Some (JObj [(''ticket_params'', JObj (answerMembers tp))])"
    using answer_read [of tp] assms(1-3) by (simp add: writeJSON_body)
  then show ?thesis using answer_fields [of tp] by (intro exI [of _ "answerMembers tp"]) simp
qed

text \<open>C35 The registry that scrapes the offerings reads back exactly the configured catalogue: the
  capabilities in the order of the configuration, each with its work unit and its models at
  their prices. The capabilities' text is UTF-8 and their options are JSON the encoder writes.\<close>

theorem offerings_roundtrip:
  assumes "wr_sent w = None" and "wr_accepts w = None" and "wr_body w = []"
    and "AuthToken cfg = [] \<or> headerGet ''Authorization'' (rq_Header r) = ''Bearer '' @ AuthToken cfg"
    and "list_all plainCapability (Ordered (Capabilities cfg))"
  shows "\<exists>v. jsonUnmarshal (wr_body (registryOfferingsHandler cfg r w)) = Some v \<and>
    readCatalog v = map (\<lambda>c. (Some (ce_Capability c), Some (ce_WorkUnit c),
      map (\<lambda>o1. (Some (oe_Model o1), Some (oe_PricePerWorkUnitWei o1))) (ce_Offerings c))) (Ordered (Capabilities cfg))"
proof -
  let ?v = "registryOfferingsJSON cfg"
  have a: "fst (requireBearerAuth rawRW r (AuthToken cfg) w)" using assms(4) by (simp add: requireBearerAuth_iff)
  have "jsonFits 0 ?v"
    using assms(5) capability_read(1)
    by (auto simp: registryOfferingsJSON_def optField_def maxNestingDepth_def list_all_iff numeral_2_eq_2)
  then have "jsonUnmarshal (encodeLine ?v) = Some (validJson ?v)" unfolding encodeLine_def by (rule jsonUnmarshal_jsonEnc)
  moreover have "wr_body (registryOfferingsHandler cfg r w) = encodeLine ?v"
    using assms(1-3) a requireBearerAuth_pass [OF a] by (simp add: registryOfferingsHandler_def split_beta writeJSON_body)
  moreover have "readCatalog (validJson ?v) = map (\<lambda>c. readCapability (validJson (registryCapabilityJSON c))) (Ordered (Capabilities cfg))"
    by (simp add: registryOfferingsJSON_def optField_def readCatalog_def arrField_def objGet_def toValidUTF8_ascii comp_def)
  ultimately show ?thesis using assms(5) capability_read(2) by (auto simp: list_all_iff)
qed

definition sampleTicketRequest :: Request where
  "sampleTicketRequest =
     \<lparr>rq_Method = ''POST'', rq_Path = ''/v1/payment/ticket-params'', rq_Header = [],
      rq_Body = ''{\"sender_eth_address\":\"0x1111111111111111111111111111111111111111\",'' @
        ''\"recipient_eth_address\":\"0x2222222222222222222222222222222222222222\",'' @
        ''\"face_value_wei\":\"5\",\"capability\":\"c\",\"offering\":\"m\"}'',
      rq_BodyErr = None, rq_CtxErr = None\<rparr>"

lemma decode_sampleTicketRequest:
  "decodeTicketParams sampleRuntime sampleTicketRequest =
     Inr \<lparr>gt_Sender = replicate 20 (CHR 0x11), gt_Recipient = replicate 20 (CHR 0x22), gt_FaceValue = 5,
          gt_Capability = ''c'', gt_Offering = ''m''\<rparr>"
  by code_simp

definition grantingWorld :: "(Fake, unit) World" where
  "grantingWorld = \<lparr>w_daemon = NewFake\<lparr>fk_GetTicketParamsResponse := zeroTicketParams\<lparr>tp_Seed := [chr 7]\<rparr>\<rparr>,
     w_backend = (), w_modelEnc = Map.empty, w_sem = 0, w_calls = []\<rparr>"

lemma sample_no_token: "AuthToken (projectFromYAML sampleYaml) = []"
proof -
  have "trimSpace [] = []" by code_simp
  then show ?thesis by (simp add: projectFromYAML_def sampleYaml_def)
qed

theorem ticketParams_roundtrip_witness:
  "\<exists>ms. jsonUnmarshal (wr_body (fst (ticketParamsHandler sampleRuntime (projectFromYAML sampleYaml) fakeClient
      sampleTicketRequest (NewRespWriter None) grantingWorld))) = Some (JObj [(''ticket_params'', JObj ms)]) \<and>
     hexField ms ''seed'' = Some [chr 7]"
proof -
  have "fst (cl_GetTicketParams fakeClient q grantingWorld) = Inr (zeroTicketParams\<lparr>tp_Seed := [chr 7]\<rparr>)" for q
    by (simp add: fakeClient_def onDaemon_def fakeGetTicketParams_def grantingWorld_def NewFake_def Let_def)
  then show ?thesis
    using ticketParams_roundtrip [OF _ _ _ _ decode_sampleTicketRequest, of "NewRespWriter None" "projectFromYAML sampleYaml"
        fakeClient grantingWorld "zeroTicketParams\<lparr>tp_Seed := [chr 7]\<rparr>"] sample_no_token
    by (auto simp: NewRespWriter_def)
qed

theorem offerings_roundtrip_witness:
  "list_all plainCapability (Ordered (Capabilities (projectFromYAML sampleYaml))) \<and>
   (\<exists>v. jsonUnmarshal (wr_body (registryOfferingsHandler (projectFromYAML sampleYaml) sampleTicketRequest (NewRespWriter None))) = Some v \<and>
     map fst (readCatalog v) = map (\<lambda>c. Some (ce_Capability c)) (Ordered (Capabilities (projectFromYAML sampleYaml))))"
proof -
  have p: "list_all plainCapability (Ordered (Capabilities (projectFromYAML sampleYaml)))" by code_simp
  show ?thesis
    using p offerings_roundtrip [OF _ _ _ _ p, of "NewRespWriter None" sampleTicketRequest] sample_no_token
    by (auto simp: NewRespWriter_def)
qed

theorem ticketParams_guarded_witness:
  "\<exists>wd'. snd (ticketParamsHandler sampleRuntime (projectFromYAML sampleYaml) (WithMetrics (grpcClient sampleStub) False)
        sampleTicketRequest (NewRespWriter None) sampleWorld) = wd' \<and>
     (effects (w_calls wd') = [] \<or> (\<exists>q rep. effects (w_calls wd') = [Rpc (RpcGetTicketParams q) rep] \<and> 0 < gt_FaceValue q))"
proof -
  obtain w' wd' where h: "ticketParamsHandler sampleRuntime (projectFromYAML sampleYaml) (WithMetrics (grpcClient sampleStub) False)
      sampleTicketRequest (NewRespWriter None) sampleWorld = (w', wd')" by fastforce
  from ticketParams_guarded [OF this] show ?thesis by (auto simp: h)
qed

text \<open>C33 The proxy's answer on a fresh response: 401 without authorisation, 400 for a request that does
  not check, the daemon's error as 400, 503 or 500 by its gRPC code, and 200 otherwise.\<close>

theorem ticketParams_status:
  assumes "wr_sent w = None"
  shows "\<exists>hs. wr_sent (fst (ticketParamsHandler rt cfg payee r w wd)) =
    Some (if AuthToken cfg \<noteq> [] \<and> headerGet ''Authorization'' (rq_Header r) \<noteq> ''Bearer '' @ AuthToken cfg then 401
          else case decodeTicketParams rt r of
                 Inl _ \<Rightarrow> 400
               | Inr q \<Rightarrow>
                   (case fst (cl_GetTicketParams payee q wd) of
                      Inl e \<Rightarrow> (case ecode e of CodeInvalidArgument \<Rightarrow> 400 | CodeUnavailable \<Rightarrow> 503
                                 | CodeDeadlineExceeded \<Rightarrow> 503 | CodeOther _ \<Rightarrow> 500)
                    | Inr _ \<Rightarrow> 200), hs)"
proof -
  have j: "\<exists>hs. wr_sent (writeJSONError rawRW st c d w) = Some (st, hs)" if "200 \<le> st" "st \<le> 999" for st c d
    using rawWriter.writeJSONError_sent [OF assms that] by blast
  have ok: "\<exists>hs. wr_sent (writeJSON v w) = Some (200, hs)" for v
    using assms by (simp add: writeJSON_def rawWrite_def rawWriteHeader_def rawSet_def Let_def split: option.splits)
  show ?thesis
    using j ok
    by (auto simp: ticketParamsHandler_def requireBearerAuth_def writeTicketParamsProxyError_def proxyErrorStatus_def
        callRpc_def Let_def split: sum.splits prod.splits Code.splits)
qed

theorem ticketParams_status_witness:
  "wr_sent (NewRespWriter None) = None \<and>
   (\<exists>hs. wr_sent (fst (ticketParamsHandler sampleRuntime (projectFromYAML sampleYaml) (grpcClient sampleStub)
      sampleTicketRequest (NewRespWriter None) sampleWorld)) = Some (500, hs))"
proof -
  have "\<exists>m. fst (cl_GetTicketParams (grpcClient sampleStub) q sampleWorld) = Inl (errorsNew m)" for q
    by (auto simp: grpcClient_def onDaemon_def grpcGetTicketParams_def sampleStub_def)
  then obtain m where "fst (cl_GetTicketParams (grpcClient sampleStub)
      \<lparr>gt_Sender = replicate 20 (CHR 0x11), gt_Recipient = replicate 20 (CHR 0x22), gt_FaceValue = 5,
       gt_Capability = ''c'', gt_Offering = ''m''\<rparr> sampleWorld) = Inl (errorsNew m)" by blast
  moreover have "wr_sent (NewRespWriter None) = None" by (simp add: NewRespWriter_def)
  ultimately show ?thesis
    using ticketParams_status [of "NewRespWriter None" sampleRuntime "projectFromYAML sampleYaml" "grpcClient sampleStub"
        sampleTicketRequest sampleWorld] sample_no_token decode_sampleTicketRequest by (simp add: errorsNew_def)
qed

end
