(* ===== verification/Session.thy ===== *)
theory Session
  imports Middleware
begin

text \<open>
  What the payment protocol of \<open>Middleware\<close> means: the shape of an accepted trace, and
  the account of a session on a client that keeps a ledger.

  \<open>paid_ledger\<close> joins the contract of a paid route with the ledger contract of the client;
  it is interpreted on the in-memory daemon.
\<close>

section \<open>The shape of an accepted trace\<close>

text \<open>The traces that lead to a state.\<close>

definition fundedTrace :: "bytes \<Rightarrow> string \<Rightarrow> call list \<Rightarrow> bool" where
  "fundedTrace s k xs \<longleftrightarrow>
     (\<exists>req o1 pay pp. xs = [Rpc (RpcOpenSession req) (ReplyOpened o1), Rpc (RpcProcessPayment pay k) (ReplyProcessed pp)] \<and>
        os_WorkID req = k \<and> 0 < os_PricePerWorkUnitWei req \<and> k = deriveWorkID pay \<and> s = pp_Sender pp)"

definition paidTrace :: "bytes \<Rightarrow> string \<Rightarrow> call list \<Rightarrow> bool" where
  "paidTrace s k xs \<longleftrightarrow>
     (\<exists>ys n b. fundedTrace s k ys \<and> xs = ys @ [Rpc (RpcDebitBalance s k n) (ReplyBalance b)] \<and> 0 \<le> n \<and> 0 \<le> b)"

fun leadsTo :: "proto \<Rightarrow> call list \<Rightarrow> bool" where
  "leadsTo Idle xs = (xs = [])"
| "leadsTo (Opened k) xs =
     (\<exists>req o1. xs = [Rpc (RpcOpenSession req) (ReplyOpened o1)] \<and> k = os_WorkID req \<and> 0 < os_PricePerWorkUnitWei req)"
| "leadsTo (Funded s k) xs = fundedTrace s k xs"
| "leadsTo (Paid s k) xs = paidTrace s k xs"
| "leadsTo _ xs = True"

lemma protoStep_shape:
  "protoStep st c = Some st' \<Longrightarrow> leadsTo st xs \<Longrightarrow> leadsTo st' (xs @ [c])"
  by (induction st c rule: protoStep.induct)
    (auto simp: fundedTrace_def paidTrace_def split: reply.splits if_splits)

lemma protoRun_shape: "protoRun st cs = Some st' \<Longrightarrow> leadsTo st xs \<Longrightarrow> leadsTo st' (xs @ cs)"
proof (induction cs arbitrary: st xs)
  case (Cons c cs)
  then obtain st1 where "protoStep st c = Some st1" "protoRun st1 cs = Some st'"
    by (auto split: option.splits)
  then show ?case using Cons.IH [of st1 "xs @ [c]"] protoStep_shape Cons.prems(2) by simp
qed simp

text \<open>A dispatch is preceded by exactly an opened session, an accepted payment and a debit
  that left a balance.\<close>

lemma protoOk_prefix:
  assumes "protoOk (xs @ c # ys)"
  shows "\<exists>st st'. protoRun Idle xs = Some st \<and> protoStep st c = Some st' \<and>
    protoRun st' ys \<in> {Some Idle, Some Refused, Some Done}"
  using assms by (auto simp: protoOk_def protoRun_append split: option.splits)

lemma dispatch_paid:
  assumes "protoOk (xs @ Dispatch cap url # ys)"
  shows "\<exists>s k. paidTrace s k xs"
proof -
  obtain st st' where "protoRun Idle xs = Some st" "protoStep st (Dispatch cap url) = Some st'"
    using protoOk_prefix [OF assms] by blast
  moreover from this(2) obtain s k where "st = Paid s k" by (cases st) auto
  ultimately show ?thesis using protoRun_shape [of Idle xs st "[]"] by auto
qed

fun is_close :: "call \<Rightarrow> bool" where
  "is_close (Rpc (RpcCloseSession _ _) _) = True"
| "is_close _ = False"

fun is_processed :: "call \<Rightarrow> bool" where
  "is_processed (Rpc (RpcProcessPayment _ _) (ReplyProcessed _)) = True"
| "is_processed _ = False"

fun is_dispatch :: "call \<Rightarrow> bool" where
  "is_dispatch (Dispatch _ _) = True"
| "is_dispatch _ = False"

text \<open>How many of them a state has still to see, or may have seen.\<close>

fun openSessions :: "proto \<Rightarrow> nat" where
  "openSessions (Funded _ _) = 1"
| "openSessions (Paid _ _) = 1"
| "openSessions (Serving _ _) = 1"
| "openSessions (Closing _ _) = 1"
| "openSessions _ = 0"

lemma protoStep_count:
  "protoStep st c = Some st' \<Longrightarrow>
     openSessions st + (if is_processed c then 1 else 0) = openSessions st' + (if is_close c then 1 else 0)"
  by (induction st c rule: protoStep.induct) (auto split: reply.splits if_splits)

lemma protoRun_count:
  "protoRun st cs = Some st' \<Longrightarrow>
     openSessions st + length (filter is_processed cs) = openSessions st' + length (filter is_close cs)"
proof (induction cs arbitrary: st)
  case (Cons c cs)
  then obtain st1 where "protoStep st c = Some st1" "protoRun st1 cs = Some st'"
    by (auto split: option.splits)
  then show ?case using Cons.IH [of st1] protoStep_count [of st c st1] by (auto split: if_splits)
qed simp

text \<open>Sessions that took a payment and sessions that are closed are the same in number.\<close>

lemma protoOk_balanced:
  assumes "protoOk cs"
  shows "length (filter is_close cs) = length (filter is_processed cs)"
proof -
  obtain st where "protoRun Idle cs = Some st" "st \<in> {Idle, Refused, Done}"
    using assms by (auto simp: protoOk_def)
  then show ?thesis using protoRun_count [of Idle cs st] by auto
qed

text \<open>After a dispatch there is no second one.\<close>

definition afterDispatch :: "proto \<Rightarrow> bool" where
  "afterDispatch st \<longleftrightarrow> (case st of Serving _ _ \<Rightarrow> True | Closing _ _ \<Rightarrow> True | Done \<Rightarrow> True | Refused \<Rightarrow> True | _ \<Rightarrow> False)"

lemma protoStep_served: "protoStep st c = Some st' \<Longrightarrow> afterDispatch st \<Longrightarrow> afterDispatch st' \<and> \<not> is_dispatch c"
  by (induction st c rule: protoStep.induct) (auto simp: afterDispatch_def split: reply.splits if_splits)

lemma protoRun_served: "protoRun st cs = Some st' \<Longrightarrow> afterDispatch st \<Longrightarrow> list_all (\<lambda>c. \<not> is_dispatch c) cs"
proof (induction cs arbitrary: st)
  case (Cons c cs)
  then obtain st1 where "protoStep st c = Some st1" "protoRun st1 cs = Some st'" by (auto split: option.splits)
  then show ?case using Cons.IH [of st1] Cons.prems(2) protoStep_served by auto
qed simp

lemma dispatch_once: "protoOk (xs @ Dispatch cap url # ys) \<Longrightarrow> list_all (\<lambda>c. \<not> is_dispatch c) ys"
proof -
  assume "protoOk (xs @ Dispatch cap url # ys)"
  then obtain st st' where "protoStep st (Dispatch cap url) = Some st'"
    "protoRun st' ys \<in> {Some Idle, Some Refused, Some Done}"
    using protoOk_prefix by blast
  moreover from this(1) have "afterDispatch st'" by (cases st) (auto simp: afterDispatch_def)
  ultimately show ?thesis using protoRun_served by auto
qed

lemma daemonRun_unsigned:
  "daemonRun (WithMetrics (grpcClient st) recNil) d tr d' \<Longrightarrow> Rpc q (ReplyBalance b) \<in> set tr \<Longrightarrow> 0 \<le> b"
proof (induction rule: daemonRun.induct)
  case (daemonRun_Rpc q' w rep w1 tr d')
  have "0 \<le> b" if "rep = ReplyBalance b"
  proof -
    from that daemonRun_Rpc.hyps(1) obtain s k n where "q' = RpcDebitBalance s k n"
      by (cases q') (auto simp: rpcAct_def replyOf_def map_prod_def split: prod.splits sum.splits)
    with that daemonRun_Rpc.hyps(1) grpc_balance_unsigned [of st recNil s k n w] show ?thesis
      by (auto simp: rpcAct_def replyOf_def map_prod_def split: prod.splits sum.splits)
  qed
  then show ?case using daemonRun_Rpc by auto
qed auto

section \<open>The account of a session\<close>

text \<open>The work id a call names.\<close>

fun usesKey :: "string \<Rightarrow> call \<Rightarrow> bool" where
  "usesKey k (Rpc (RpcProcessPayment _ k') _) = (k' = k)"
| "usesKey k (Rpc (RpcDebitBalance _ k' _) _) = (k' = k)"
| "usesKey k (Rpc (RpcCloseSession _ k') _) = (k' = k)"
| "usesKey k (Rpc (RpcOpenSession req) _) = (os_WorkID req = k)"
| "usesKey k (Rpc (RpcGetTicketParams _) _) = False"
| "usesKey k (Dispatch _ _) = True"
| "usesKey k (Metric _) = False"

fun keyOf :: "proto \<Rightarrow> string option" where
  "keyOf (Opened k) = Some k"
| "keyOf (Funded _ k) = Some k"
| "keyOf (Paid _ k) = Some k"
| "keyOf (Serving _ k) = Some k"
| "keyOf (Closing _ k) = Some k"
| "keyOf _ = None"

lemma protoStep_key:
  "protoStep st c = Some st' \<Longrightarrow> keyOf st = Some k \<Longrightarrow> usesKey k c \<and> (keyOf st' = Some k \<or> st' \<in> {Refused, Done})"
  by (induction st c rule: protoStep.induct) (auto split: reply.splits if_splits)

lemma protoRun_key:
  "protoRun st cs = Some st' \<Longrightarrow> keyOf st = Some k \<or> st \<in> {Refused, Done} \<Longrightarrow> list_all (usesKey k) cs"
proof (induction cs arbitrary: st)
  case (Cons c cs)
  then obtain st1 where 1: "protoStep st c = Some st1" "protoRun st1 cs = Some st'"
    by (auto split: option.splits)
  then have "keyOf st = Some k" using Cons.prems(2) by auto
  then show ?case using Cons.IH [OF 1(2)] protoStep_key [OF 1(1)] by auto
qed simp

text \<open>All calls of a request are on one session.\<close>

lemma protoOk_one_key: "protoOk cs \<Longrightarrow> \<exists>k. list_all (usesKey k) cs"
proof (cases cs)
  case (Cons c cs')
  assume "protoOk cs"
  then obtain st1 st' where 1: "protoStep Idle c = Some st1" "protoRun st1 cs' = Some st'"
    using Cons by (auto simp: protoOk_def split: option.splits)
  then obtain req rep where c: "c = Rpc (RpcOpenSession req) rep"
    by (cases "(Idle, c)" rule: protoStep.cases) auto
  have "keyOf st1 = Some (os_WorkID req) \<or> st1 \<in> {Refused, Done}"
    using 1(1) c by (auto split: reply.splits if_splits)
  from protoRun_key [OF 1(2) this] show ?thesis using Cons c by auto
qed simp

text \<open>What a call adds to the balance of a sender, at a price of \<open>r\<close> wei per unit.\<close>

fun credit :: "int \<Rightarrow> bytes \<Rightarrow> call \<Rightarrow> int" where
  "credit r s (Rpc (RpcProcessPayment _ _) (ReplyProcessed pp)) = (if s = pp_Sender pp then pp_CreditedEVWei pp else 0)"
| "credit r s (Rpc (RpcDebitBalance s' _ n) (ReplyBalance _)) = (if s = s' then - (r * n) else 0)"
| "credit r s _ = 0"

definition account :: "int \<Rightarrow> bytes \<Rightarrow> call list \<Rightarrow> int" where
  "account r s tr = (\<Sum>c\<leftarrow>tr. credit r s c)"

context session_ledger
begin

lemma rpcAct_account:
  assumes "rpcAct c q w = (rep, w')" and "usesKey k (Rpc q rep)"
  shows "rate (w_daemon w') = rate (w_daemon w) \<and>
    balance s k (w_daemon w') = balance s k (w_daemon w) + credit (rate (w_daemon w)) s (Rpc q rep)"
proof (cases q)
  case (RpcOpenSession req)
  then obtain res where "cl_OpenSession c req w = (res, w')" "rep = replyOf ReplyOpened res"
    using assms(1) by (cases "cl_OpenSession c req w") (auto simp: rpcAct_def)
  then show ?thesis using open_balance [of req w res w'] RpcOpenSession by simp
next
  case (RpcProcessPayment pay k')
  then obtain res where r: "cl_ProcessPayment c pay k w = (res, w')" "rep = replyOf ReplyProcessed res"
    using assms by (cases "cl_ProcessPayment c pay k' w") (auto simp: rpcAct_def)
  then show ?thesis
    using process_credit [of pay k w _ w' s] process_error [of pay k w _ w' s] RpcProcessPayment by (cases res) auto
next
  case (RpcDebitBalance s' k' n)
  then obtain res where r: "cl_DebitBalance c s' k n w = (res, w')"
    "rep = replyOf (\<lambda>db. ReplyBalance (db_BalanceWei db)) res"
    using assms by (cases "cl_DebitBalance c s' k' n w") (auto simp: rpcAct_def)
  then show ?thesis
    using debit_ok [of s' k n w _ w' s] debit_error [of s' k n w _ w' s] RpcDebitBalance by (cases res) auto
next
  case (RpcCloseSession s' k')
  then obtain res where "cl_CloseSession c s' k w = (res, w')" "rep = replyOf ReplyClosed res"
    using assms by (cases "cl_CloseSession c s' k' w") (auto simp: rpcAct_def)
  then show ?thesis using close_balance [of s' k w res w' s] RpcCloseSession by simp
next
  case (RpcGetTicketParams g)
  then show ?thesis using assms(2) by simp
qed

lemma daemonRun_account:
  assumes "daemonRun c d tr d'" and "list_all (usesKey k) tr"
  shows "rate d' = rate d \<and> balance s k d' = balance s k d + account (rate d) s tr"
  using assms
proof (induction rule: daemonRun.induct)
  case (daemonRun_Rpc q w rep w1 tr d')
  then show ?case using rpcAct_account [OF daemonRun_Rpc.hyps(1), of k s] by (simp add: account_def)
qed (simp_all add: account_def)

end

locale paid_ledger = paid_route deps + ledger: session_ledger "dp_payee deps" balance rate
  for deps :: "('d, 'b) paidRouteDeps"
    and balance :: "bytes \<Rightarrow> string \<Rightarrow> 'd \<Rightarrow> int"
    and rate :: "'d \<Rightarrow> int"
begin

text \<open>A request changes a balance by what its own trace accounts for.\<close>

lemma paymentMiddleware_account:
  assumes "paymentMiddleware deps r rw w = (p, sw', w')"
  shows "\<exists>tr k. effects (w_calls w') = effects (w_calls w) @ tr \<and> protoOk tr \<and> list_all (usesKey k) tr \<and>
    (\<forall>s. balance s k (w_daemon w') = balance s k (w_daemon w) + account (rate (w_daemon w)) s tr)"
proof -
  obtain tr ms where t: "traced (dp_payee deps) w tr ms w'" "protoOk tr"
    using paymentMiddleware_traced [OF assms] by blast
  obtain k where k: "list_all (usesKey k) tr" using protoOk_one_key [OF t(2)] by blast
  have "daemonRun (dp_payee deps) (w_daemon w) tr (w_daemon w')" using t(1) by (simp add: traced_def)
  with ledger.daemonRun_account k t show ?thesis by (auto simp: traced_def)
qed

end

end
