(* ===== verification/Mux.thy ===== *)
theory Mux
  imports Handlers Session
begin

text \<open>
  \<open>internal/runtime/http/mux.go\<close>: the routing surface. A route is either an unpaid handler
  or a module behind \<open>paymentMiddleware\<close>; registering a route twice panics (\<open>None\<close>). The
  semaphore's length is \<open>w_sem\<close> of the world, its capacity a field of the mux.

  Of \<open>http.ServeMux\<close> the model has what the worker's patterns use: a pattern is a method and
  an exact path, a GET pattern also answers HEAD, a known path with another method is a
  405 and an unknown path a 404. The redirects for unclean paths and the suppression of a
  HEAD answer's body are left out.
\<close>

section \<open>Routes\<close>

datatype ('d, 'b) route =
    UnpaidRoute "Request \<Rightarrow> RespWriter \<Rightarrow> ('d, 'b) World \<Rightarrow> RespWriter \<times> ('d, 'b) World"
  | PaidRoute "('d, 'b) Module"

record ('d, 'b) Mux =
  mx_cfg :: Config
  mx_payee :: "('d, 'b) Client"
  mx_routes :: "((string \<times> string) \<times> ('d, 'b) route) list"
  mx_paidCapabilities :: "string list"
  mx_paidSem :: nat
  mx_recorder :: workerRecorder

definition NewMux :: "Config \<Rightarrow> ('d, 'b) Client \<Rightarrow> ('d, 'b) Mux" where
  "NewMux cfg payee =
     (let mc = MaxConcurrentRequests (Worker cfg);
          maxConcurrent = (if mc \<le> 0 then 1 else mc)
      in \<lparr>mx_cfg = cfg, mx_payee = payee, mx_routes = [], mx_paidCapabilities = [], mx_paidSem = nat maxConcurrent,
           mx_recorder = RecNoop NewNoop\<rparr>)"

text \<open>\<open>None\<close> is a nil recorder.\<close>

definition WithRecorder :: "workerRecorder option \<Rightarrow> ('d, 'b) Mux \<Rightarrow> ('d, 'b) Mux" where
  "WithRecorder rec m = m\<lparr>mx_recorder := (case rec of None \<Rightarrow> RecNoop NewNoop | Some r \<Rightarrow> r)\<rparr>"

definition InflightPaid :: "('d, 'b) Mux \<Rightarrow> ('d, 'b) World \<Rightarrow> nat" where
  "InflightPaid m w = w_sem w"

definition MaxConcurrentPaid :: "('d, 'b) Mux \<Rightarrow> nat" where
  "MaxConcurrentPaid m = mx_paidSem m"

definition Register ::
    "string \<Rightarrow> string \<Rightarrow> (Request \<Rightarrow> RespWriter \<Rightarrow> ('d, 'b) World \<Rightarrow> RespWriter \<times> ('d, 'b) World) \<Rightarrow>
       ('d, 'b) Mux \<Rightarrow> ('d, 'b) Mux option" where
  "Register meth path h m =
     (if (meth, path) \<in> fst ` set (mx_routes m) then None
      else Some (m\<lparr>mx_routes := mx_routes m @ [((meth, path), UnpaidRoute h)]\<rparr>))"

definition RegisterPaidRoute :: "('d, 'b) Module \<Rightarrow> ('d, 'b) Mux \<Rightarrow> ('d, 'b) Mux option" where
  "RegisterPaidRoute md m =
     (if (m_HTTPMethod md, m_HTTPPath md) \<in> fst ` set (mx_routes m) then None
      else Some (m\<lparr>mx_routes := mx_routes m @ [((m_HTTPMethod md, m_HTTPPath md), PaidRoute md)],
                   mx_paidCapabilities := m_Capability md # mx_paidCapabilities m\<rparr>))"

definition HasPaidCapability :: "('d, 'b) Mux \<Rightarrow> string \<Rightarrow> bool" where
  "HasPaidCapability m c \<longleftrightarrow> c \<in> set (mx_paidCapabilities m)"

text \<open>The bundle a paid handler closes over; the config, the client, the semaphore and the recorder are the
  mux's, which gets its recorder before any route.\<close>

definition depsOf :: "('d, 'b) Mux \<Rightarrow> ('d, 'b) Module \<Rightarrow> ('d, 'b) paidRouteDeps" where
  "depsOf m md = \<lparr>dp_module = md, dp_cfg = mx_cfg m, dp_payee = mx_payee m, dp_sem = Some (mx_paidSem m),
     dp_recorder = mx_recorder m\<rparr>"

section \<open>Serving\<close>

definition findRoute :: "('d, 'b) Mux \<Rightarrow> Request \<Rightarrow> ('d, 'b) route option" where
  "findRoute m r =
     (case map_of (mx_routes m) (rq_Method r, rq_Path r) of
        Some rt \<Rightarrow> Some rt
      | None \<Rightarrow> if rq_Method r = ''HEAD'' then map_of (mx_routes m) (''GET'', rq_Path r) else None)"

definition commaJoin :: "string list \<Rightarrow> string" where
  "commaJoin ss = (case ss of [] \<Rightarrow> [] | x # xs \<Rightarrow> x @ concat (map (\<lambda>y. '', '' @ y) xs))"

definition allowedMethods :: "('d, 'b) Mux \<Rightarrow> string \<Rightarrow> string list" where
  "allowedMethods m path =
     (let ms = map (fst \<circ> fst) (filter (\<lambda>e. snd (fst e) = path) (mx_routes m))
      in sort (remdups (ms @ (if ''GET'' \<in> set ms then [''HEAD''] else []))))"

definition ServeHTTP ::
    "('d, 'b) Mux \<Rightarrow> Request \<Rightarrow> RespWriter \<Rightarrow> ('d, 'b) World \<Rightarrow> bool \<times> RespWriter \<times> ('d, 'b) World" where
  "ServeHTTP m r rw w =
     (case findRoute m r of
        Some (UnpaidRoute h) \<Rightarrow> (False, h r rw w)
      | Some (PaidRoute md) \<Rightarrow>
          (let (p, sw, w1) = paymentMiddleware (depsOf m md) r rw w in (p, sw_ResponseWriter sw, w1))
      | None \<Rightarrow>
          (let allowed = allowedMethods m (rq_Path r) in
           if allowed = [] then (False, httpError rawRW ''404 page not found'' 404 rw, w)
           else (False, httpError rawRW ''Method Not Allowed'' 405 (rawSet ''Allow'' (commaJoin allowed) rw), w)))"

section \<open>The unpaid routes\<close>

definition RegisterUnpaidHandlers :: "Runtime \<Rightarrow> Config \<Rightarrow> ('d, 'b) Mux \<Rightarrow> ('d, 'b) Mux option" where
  "RegisterUnpaidHandlers rt cfg m =
     Option.bind (Register ''GET'' ''/health''
       (\<lambda>r rw w. (healthHandler cfg (MaxConcurrentPaid m) (InflightPaid m w) rw, w)) m)
     (\<lambda>m1. Option.bind (Register ''GET'' ''/registry/offerings'' (\<lambda>r rw w. (registryOfferingsHandler cfg r rw, w)) m1)
     (\<lambda>m2. Register ''POST'' ''/v1/payment/ticket-params'' (\<lambda>r rw w. ticketParamsHandler rt cfg (mx_payee m) r rw w) m2))"

definition unpaidRoutes :: "(string \<times> string) list" where
  "unpaidRoutes = [(''GET'', ''/health''), (''GET'', ''/registry/offerings''), (''POST'', ''/v1/payment/ticket-params'')]"

section \<open>The routing invariant\<close>

fun is_paid :: "('d, 'b) route \<Rightarrow> bool" where
  "is_paid (PaidRoute _) = True"
| "is_paid (UnpaidRoute _) = False"

text \<open>No two routes share a pattern, a paid one is where its module says, and the unpaid ones
  are the three of \<open>handlers.go\<close>.\<close>

definition routeOk :: "string set \<Rightarrow> (string \<times> string) \<times> ('d, 'b) route \<Rightarrow> bool" where
  "routeOk caps e =
     (case snd e of
        PaidRoute md \<Rightarrow> fst e = (m_HTTPMethod md, m_HTTPPath md) \<and> m_Capability md \<in> caps
      | UnpaidRoute _ \<Rightarrow> fst e \<in> set unpaidRoutes)"

definition muxOk :: "('d, 'b) Mux \<Rightarrow> bool" where
  "muxOk m \<longleftrightarrow> distinct (map fst (mx_routes m)) \<and>
     list_all (routeOk (set (mx_paidCapabilities m))) (mx_routes m) \<and>
     (\<forall>c\<in>set (mx_paidCapabilities m). \<exists>md. m_Capability md = c \<and> PaidRoute md \<in> snd ` set (mx_routes m)) \<and>
     0 < mx_paidSem m"

lemma routeOk_mono: "routeOk A e \<Longrightarrow> A \<subseteq> B \<Longrightarrow> routeOk B e"
  by (auto simp: routeOk_def split: route.splits)

lemma muxOk_New: "muxOk (NewMux cfg payee)"
  by (simp add: muxOk_def NewMux_def Let_def)

lemma muxOk_WithRecorder: "muxOk m \<Longrightarrow> muxOk (WithRecorder rec m)"
  by (simp add: muxOk_def WithRecorder_def)

lemma muxOk_Register:
  assumes "muxOk m" and "Register meth path h m = Some m'" and "(meth, path) \<in> set unpaidRoutes"
  shows "muxOk m'"
proof -
  have m': "m' = m\<lparr>mx_routes := mx_routes m @ [((meth, path), UnpaidRoute h)]\<rparr>"
    and new: "(meth, path) \<notin> set (map fst (mx_routes m))"
    using assms(2) by (auto simp: Register_def split: if_splits)
  have "distinct (map fst (mx_routes m'))" using assms(1) new by (simp add: m' muxOk_def)
  moreover have "list_all (routeOk (set (mx_paidCapabilities m'))) (mx_routes m')"
    using assms(1,3) by (simp add: m' muxOk_def routeOk_def [of _ "((meth, path), UnpaidRoute h)"])
  ultimately show ?thesis using assms(1) by (fastforce simp: m' muxOk_def)
qed

lemma muxOk_RegisterPaidRoute:
  assumes "muxOk m" and "RegisterPaidRoute md m = Some m'"
  shows "muxOk m'"
proof -
  define e where "e = ((m_HTTPMethod md, m_HTTPPath md), PaidRoute md)"
  have m': "m' = m\<lparr>mx_routes := mx_routes m @ [e], mx_paidCapabilities := m_Capability md # mx_paidCapabilities m\<rparr>"
    and new: "fst e \<notin> set (map fst (mx_routes m))"
    using assms(2) by (auto simp: RegisterPaidRoute_def e_def split: if_splits)
  have "distinct (map fst (mx_routes m'))" using assms(1) new by (simp add: m' muxOk_def)
  moreover have "list_all (routeOk (set (mx_paidCapabilities m'))) (mx_routes m')"
    using assms(1) routeOk_mono [of "set (mx_paidCapabilities m)" _ "insert (m_Capability md) (set (mx_paidCapabilities m))"]
    by (auto simp: m' muxOk_def list_all_iff) (simp add: routeOk_def e_def)
  moreover have "\<exists>md'. m_Capability md' = c \<and> PaidRoute md' \<in> snd ` set (mx_routes m')"
    if "c \<in> set (mx_paidCapabilities m')" for c
  proof (cases "c = m_Capability md")
    case True
    then show ?thesis by (auto simp: m' e_def)
  next
    case False
    then have "c \<in> set (mx_paidCapabilities m)" using that by (simp add: m')
    then obtain md' where "m_Capability md' = c" "PaidRoute md' \<in> snd ` set (mx_routes m)"
      using assms(1) unfolding muxOk_def by blast
    then show ?thesis by (intro exI [of _ md']) (simp add: m')
  qed
  ultimately show ?thesis using assms(1) by (simp add: m' muxOk_def)
qed

lemma muxOk_RegisterUnpaidHandlers:
  assumes "muxOk m" and "RegisterUnpaidHandlers rt cfg m = Some m'"
  shows "muxOk m'"
proof -
  obtain m1 m2 where
    1: "Register ''GET'' ''/health'' (\<lambda>r rw w. (healthHandler cfg (MaxConcurrentPaid m) (InflightPaid m w) rw, w)) m = Some m1"
    and 2: "Register ''GET'' ''/registry/offerings'' (\<lambda>r rw w. (registryOfferingsHandler cfg r rw, w)) m1 = Some m2"
    and 3: "Register ''POST'' ''/v1/payment/ticket-params'' (\<lambda>r rw w. ticketParamsHandler rt cfg (mx_payee m) r rw w) m2 = Some m'"
    using assms(2) by (auto simp: RegisterUnpaidHandlers_def Option.bind_eq_Some_conv)
  show ?thesis
    using muxOk_Register [OF muxOk_Register [OF muxOk_Register [OF assms(1) 1] 2] 3] by (simp add: unpaidRoutes_def)
qed

text \<open>A request to any other path is served by the middleware or not at all.\<close>

lemma ServeHTTP_paid:
  assumes "muxOk m" and "rq_Path r \<notin> snd ` set unpaidRoutes" and "ServeHTTP m r rw w = (p, rw', w')"
  shows "(w' = w \<and> \<not> p) \<or>
    (\<exists>md sw. PaidRoute md \<in> snd ` set (mx_routes m) \<and> m_HTTPPath md = rq_Path r \<and>
       paymentMiddleware (depsOf m md) r rw w = (p, sw, w') \<and> rw' = sw_ResponseWriter sw)"
proof (cases "findRoute m r")
  case None
  then show ?thesis using assms(3) by (auto simp: ServeHTTP_def Let_def split: if_splits)
next
  case (Some rt)
  then obtain meth where in_routes: "((meth, rq_Path r), rt) \<in> set (mx_routes m)"
    by (auto simp: findRoute_def split: option.splits if_splits dest: map_of_SomeD)
  show ?thesis
  proof (cases rt)
    case (UnpaidRoute h)
    then have "(meth, rq_Path r) \<in> set unpaidRoutes" using assms(1) in_routes
      by (auto simp: muxOk_def list_all_iff routeOk_def dest!: bspec)
    then show ?thesis using assms(2) by force
  next
    case (PaidRoute md)
    have "m_HTTPPath md = rq_Path r" using assms(1) in_routes PaidRoute
      by (auto simp: muxOk_def list_all_iff routeOk_def dest!: bspec)
    then show ?thesis using PaidRoute assms(3) Some in_routes
      by (force simp: ServeHTTP_def split: prod.splits)
  qed
qed

text \<open>A request no route answers leaves the world as it was and gets a 404, or a 405 when the path has
  routes for other methods.\<close>

lemma serve_unrouted:
  assumes "findRoute m r = None" and "wr_sent rw = None"
  shows "\<exists>rw' hs. ServeHTTP m r rw w = (False, rw', w) \<and>
    wr_sent rw' = Some (if rq_Path r \<in> snd ` fst ` set (mx_routes m) then 405 else 404, hs)"
proof -
  have e: "allowedMethods m (rq_Path r) = [] \<longleftrightarrow> rq_Path r \<notin> snd ` fst ` set (mx_routes m)"
    by (force simp: allowedMethods_def Let_def filter_empty_conv image_iff simp flip: set_empty)
  have s: "wr_sent (rawSet k v rw) = None" for k v using assms(2) by (simp add: rawSet_def)
  show ?thesis
    using assms e rawWriter.httpError_sent [OF assms(2), of 404] rawWriter.httpError_sent [OF s, of 405]
    by (auto simp: ServeHTTP_def Let_def)
qed

end
