(* ===== verification/Chat.thy ===== *)
theory Chat
  imports Module
begin

text \<open>
  \<open>internal/service/modules/chat_completions\<close>: the chat module. \<open>chatRequest\<close> is the part
  of the request it reads, \<open>chatEstimate\<close> the upfront reservation, \<open>serveJSON\<close> the
  buffered answer and \<open>serveStream\<close> the relay of the server-sent events.

  The lemmas show what the reservation is (the token counts of roles and contents plus
  the output bound), that the relay passes the backend's bytes through unchanged and
  stops where the client stopped, and that the units reported are those of the last
  event that carries a usage block.
\<close>

section \<open>The request\<close>

record requestMessage =
  rm_Role :: string
  rm_Content :: json

record chatRequest =
  cr_Model :: string
  cr_MaxTokens :: "int option"
  cr_Stream :: bool
  cr_Messages :: "requestMessage list"

definition zeroMessage :: requestMessage where
  "zeroMessage = \<lparr>rm_Role = [], rm_Content = JNull\<rparr>"

definition zeroChat :: chatRequest where
  "zeroChat = \<lparr>cr_Model = [], cr_MaxTokens = None, cr_Stream = False, cr_Messages = []\<rparr>"

definition messageField :: "bytes \<Rightarrow> json \<Rightarrow> requestMessage \<Rightarrow> requestMessage option" where
  "messageField k v m =
     (if k = ''role'' then map_option (\<lambda>x. m\<lparr>rm_Role := x\<rparr>) (dec_string (rm_Role m) v)
      else if k = ''content'' then map_option (\<lambda>x. m\<lparr>rm_Content := x\<rparr>) (dec_any v)
      else Some m)"

text \<open>An array is decoded over the elements an earlier occurrence of the key left.\<close>

fun decMessages :: "requestMessage list \<Rightarrow> json list \<Rightarrow> requestMessage list option" where
  "decMessages old [] = Some []"
| "decMessages old (v # vs) =
     (case decodeStruct messageField v (case old of [] \<Rightarrow> zeroMessage | m # _ \<Rightarrow> m) of
        None \<Rightarrow> None
      | Some m \<Rightarrow> map_option (\<lambda>ms. m # ms) (decMessages (drop 1 old) vs))"

definition dec_messages :: "requestMessage list \<Rightarrow> json \<Rightarrow> requestMessage list option" where
  "dec_messages old v =
     (case v of JNull \<Rightarrow> Some [] | JArr vs \<Rightarrow> decMessages old vs | _ \<Rightarrow> None)"

definition chatField :: "bytes \<Rightarrow> json \<Rightarrow> chatRequest \<Rightarrow> chatRequest option" where
  "chatField k v r =
     (if k = ''model'' then map_option (\<lambda>x. r\<lparr>cr_Model := x\<rparr>) (dec_string (cr_Model r) v)
      else if k = ''max_tokens'' then map_option (\<lambda>x. r\<lparr>cr_MaxTokens := x\<rparr>) (dec_int_ptr (cr_MaxTokens r) v)
      else if k = ''stream'' then map_option (\<lambda>x. r\<lparr>cr_Stream := x\<rparr>) (dec_bool (cr_Stream r) v)
      else if k = ''messages'' then map_option (\<lambda>x. r\<lparr>cr_Messages := x\<rparr>) (dec_messages (cr_Messages r) v)
      else Some r)"

definition parseChat :: "bytes \<Rightarrow> chatRequest option" where
  "parseChat body =
     (case jsonUnmarshal body of None \<Rightarrow> None | Some v \<Rightarrow> decodeStruct chatField v zeroChat)"

definition chatParse :: "Runtime \<Rightarrow> bytes \<Rightarrow> Err + chatRequest" where
  "chatParse rt body =
     (case parseChat body of None \<Rightarrow> Inl (rt_jsonErr rt ''chat_completions.request'' body) | Some r \<Rightarrow> Inr r)"

definition chatExtractModel :: "Runtime \<Rightarrow> bytes \<Rightarrow> Err + string" where
  "chatExtractModel rt body = modelOf ''chat_completions'' (map_sum (\<lambda>e. e) cr_Model (chatParse rt body))"

section \<open>The estimate\<close>

definition contentPart :: "(string \<Rightarrow> string) \<Rightarrow> json \<Rightarrow> string" where
  "contentPart num part =
     (case part of
        JObj ms \<Rightarrow>
          (case objGet ms ''text'' of
             Some (JStr t) \<Rightarrow> t @ '' ''
           | _ \<Rightarrow> jsonMarshalAny num part @ '' '')
      | _ \<Rightarrow> jsonMarshalAny num part @ '' '')"

definition messageContentString :: "(string \<Rightarrow> string) \<Rightarrow> json \<Rightarrow> string" where
  "messageContentString num v =
     (case v of
        JStr s \<Rightarrow> s
      | JArr parts \<Rightarrow> concat (map (contentPart num) parts)
      | _ \<Rightarrow> jsonMarshalAny num v)"

fun countMessages :: "Runtime \<Rightarrow> ('d, 'b) Tokenizer \<Rightarrow> string \<Rightarrow> requestMessage list \<Rightarrow> int \<Rightarrow> ('d, 'b) World \<Rightarrow> int \<times> ('d, 'b) World" where
  "countMessages rt tok mid [] input w = (input, w)"
| "countMessages rt tok mid (msg # msgs) input w =
     (let (n1, w1) = tk_CountTokensForModel tok mid (rm_Role msg) w;
          input1 = wrap64 (input + n1);
          (n2, w2) = tk_CountTokensForModel tok mid (messageContentString (rt_float rt) (rm_Content msg)) w1
      in countMessages rt tok mid msgs (wrap64 (input1 + n2)) w2)"

definition chatOutput :: "int \<Rightarrow> chatRequest \<Rightarrow> int" where
  "chatOutput dflt r =
     (case cr_MaxTokens r of None \<Rightarrow> dflt | Some n \<Rightarrow> if 0 < n then n else dflt)"

definition chatEstimate ::
    "Runtime \<Rightarrow> ('d, 'b) Tokenizer \<Rightarrow> int \<Rightarrow> bytes \<Rightarrow> string \<Rightarrow> ('d, 'b) World \<Rightarrow> (Err + int) \<times> ('d, 'b) World" where
  "chatEstimate rt tok dflt body model w =
     (case chatParse rt body of
        Inl e \<Rightarrow> (Inl (wrapf ''chat_completions: parse request: '' e), w)
      | Inr r \<Rightarrow>
          let (input, w1) = countMessages rt tok model (cr_Messages r) 0 w
          in (Inr (wrap64 (input + chatOutput dflt r)), w1))"

section \<open>Serving\<close>

definition usageField :: "bytes \<Rightarrow> json \<Rightarrow> usage \<Rightarrow> usage option" where
  "usageField k v u =
     (if k = ''prompt_tokens'' then setPrompt v u
      else if k = ''completion_tokens'' then setCompletion v u
      else if k = ''total_tokens'' then setTotal v u
      else Some u)"

definition responseField :: "bytes \<Rightarrow> json \<Rightarrow> usage option \<Rightarrow> usage option option" where
  "responseField k v u = (if k = ''usage'' then dec_ptr (decodeStruct usageField) zeroUsage u v else Some u)"

text \<open>The usage block of a JSON text: none when it does not decode or has no such block.\<close>

definition parseUsage :: "bytes \<Rightarrow> usage option" where
  "parseUsage b =
     (case jsonUnmarshal b of
        None \<Rightarrow> None
      | Some v \<Rightarrow> (case decodeStruct responseField v None of None \<Rightarrow> None | Some u \<Rightarrow> u))"

text \<open>A stream event has the same one field, in a struct of its own.\<close>

definition streamChunkField :: "bytes \<Rightarrow> json \<Rightarrow> usage option \<Rightarrow> usage option option" where
  "streamChunkField k v u = (if k = ''usage'' then dec_ptr (decodeStruct usageField) zeroUsage u v else Some u)"

definition parseChunk :: "bytes \<Rightarrow> usage option" where
  "parseChunk b =
     (case jsonUnmarshal b of
        None \<Rightarrow> None
      | Some v \<Rightarrow> (case decodeStruct streamChunkField v None of None \<Rightarrow> None | Some u \<Rightarrow> u))"

lemma parseChunk_eq: "parseChunk b = parseUsage b"
proof -
  have e: "streamChunkField = responseField" by (intro ext) (simp add: streamChunkField_def responseField_def)
  show ?thesis unfolding parseChunk_def parseUsage_def e by (rule refl)
qed

definition usageToUnits :: "usage option \<Rightarrow> int" where
  "usageToUnits u = (case u of None \<Rightarrow> 0 | Some x \<Rightarrow> us_TotalTokens x)"

definition tryParseStreamUsage :: "bytes \<Rightarrow> usage option" where
  "tryParseStreamUsage line0 =
     (let line = trimSpace line0 in
      if \<not> hasPrefix ''data:'' line then None
      else let payload = trimSpace (drop 5 line) in
           if payload = ''[DONE]'' then None else parseChunk payload)"

abbreviation chatCapability :: string where "chatCapability \<equiv> ''openai:/v1/chat/completions''"
abbreviation chatHTTPPath :: string where "chatHTTPPath \<equiv> ''/v1/chat/completions''"

definition serveJSON ::
    "('d, 'b) Backend \<Rightarrow> bool \<Rightarrow> statusWriter \<Rightarrow> string \<Rightarrow> bytes \<Rightarrow> string \<Rightarrow> ('d, 'b) World \<Rightarrow>
       served \<times> statusWriter \<times> ('d, 'b) World" where
  "serveJSON backend recNil s url body model w =
     (let ((status, respBody, err), w1) = bk_DoJSON (backendWithMetrics backend recNil chatCapability model) url body w
      in case err of
           Some e \<Rightarrow> backendDown ''chat_completions: backend DoJSON: '' e s w1
         | None \<Rightarrow>
             let (p, s1) = relayJSON status respBody s in
             if p then (Panicked, s1, w1)
             else (Returned (usageToUnits (parseUsage respBody)) None, s1, w1))"

text \<open>
  \<open>ReadBytes('\n')\<close> in a loop: the stream cut after every line feed; what follows the
  last one comes with the stream's end.
\<close>

fun sseLines :: "bytes \<Rightarrow> bytes \<Rightarrow> bytes list" where
  "sseLines acc [] = (if acc = [] then [] else [rev acc])"
| "sseLines acc (c # cs) =
     (if c = CHR 0x0A then rev (c # acc) # sseLines [] cs else sseLines (c # acc) cs)"

text \<open>The loop over the lines: how it ended, the last usage block, the writer.\<close>

fun streamLoop :: "bytes list \<Rightarrow> usage option \<Rightarrow> statusWriter \<Rightarrow> Err option \<times> usage option \<times> statusWriter" where
  "streamLoop [] lastUsage s = (None, lastUsage, s)"
| "streamLoop (line # ls) lastUsage s =
     (case swWrite line s of
        (Some werr, s1) \<Rightarrow> (Some werr, lastUsage, s1)
      | (None, s1) \<Rightarrow>
          let s2 = swFlush s1;
              u = tryParseStreamUsage line
          in streamLoop ls (if u \<noteq> None then u else lastUsage) s2)"

definition serveStream ::
    "('d, 'b) Backend \<Rightarrow> bool \<Rightarrow> statusWriter \<Rightarrow> string \<Rightarrow> bytes \<Rightarrow> string \<Rightarrow> ('d, 'b) World \<Rightarrow>
       served \<times> statusWriter \<times> ('d, 'b) World" where
  "serveStream backend recNil s url body model w =
     (let ((status, _, stream, err), w1) = bk_DoStream (backendWithMetrics backend recNil chatCapability model) url body w
      in case err of
           Some e \<Rightarrow> backendDown ''chat_completions: backend DoStream: '' e s w1
         | None \<Rightarrow>
             let s1 = swSet ''Connection'' ''keep-alive'' (swSet ''Cache-Control'' ''no-cache''
                        (swSet ''Content-Type'' ''text/event-stream'' s));
                 (p, s2) = swWriteHeader status s1
             in if p then (Panicked, s2, w1)
                else
                  let (werr, lastUsage, s3) = streamLoop (sseLines [] (sm_data stream)) None s2
                  in case werr of
                       Some e \<Rightarrow> (Returned (usageToUnits lastUsage) (Some e), s3, w1)
                     | None \<Rightarrow>
                         (case sm_err stream of
                            Some e \<Rightarrow>
                              (Returned (usageToUnits lastUsage)
                                 (Some (wrapf ''chat_completions: read backend stream: '' e)), s3, w1)
                          | None \<Rightarrow> (Returned (usageToUnits lastUsage) None, s3, w1)))"

definition chatServe ::
    "Runtime \<Rightarrow> ('d, 'b) Backend \<Rightarrow> bool \<Rightarrow> statusWriter \<Rightarrow> Request \<Rightarrow> bytes \<Rightarrow> string \<Rightarrow> string \<Rightarrow>
       ('d, 'b) World \<Rightarrow> served \<times> statusWriter \<times> ('d, 'b) World" where
  "chatServe rt backend recNil s _ body model backendURL w =
     (case chatParse rt body of
        Inl e \<Rightarrow> (Returned 0 (Some (wrapf ''chat_completions: parse request: '' e)), s, w)
      | Inr r \<Rightarrow>
          let url = targetURL backendURL chatHTTPPath in
          if cr_Stream r then serveStream backend recNil s url body model w
          else serveJSON backend recNil s url body model w)"

definition chatModule :: "Runtime \<Rightarrow> ('d, 'b) Tokenizer \<Rightarrow> ('d, 'b) Backend \<Rightarrow> bool \<Rightarrow> ('d, 'b) Module" where
  "chatModule rt tok backend recNil =
     \<lparr>m_Capability = chatCapability, m_HTTPMethod = MethodPost, m_HTTPPath = chatHTTPPath, m_Unit = UnitToken,
      m_ExtractModel = chatExtractModel rt, m_EstimateWorkUnits = chatEstimate rt tok 2048,
      m_Serve = chatServe rt backend recNil\<rparr>"

section \<open>The estimate is the sum of the counts\<close>

definition messageTokens :: "Runtime \<Rightarrow> (string \<Rightarrow> string \<Rightarrow> int) \<Rightarrow> string \<Rightarrow> requestMessage \<Rightarrow> int" where
  "messageTokens rt cnt mid msg =
     cnt mid (rm_Role msg) + cnt mid (messageContentString (rt_float rt) (rm_Content msg))"

context token_counter
begin

lemma countMessages_result:
  "inv (w_modelEnc w) \<Longrightarrow> wrap64 input = input \<Longrightarrow>
     fst (countMessages rt t mid msgs input w) = wrap64 (input + (\<Sum>msg\<leftarrow>msgs. messageTokens rt count mid msg))"
proof (induction msgs arbitrary: input w)
  case (Cons msg msgs)
  obtain n1 w1 where 1: "tk_CountTokensForModel t mid (rm_Role msg) w = (n1, w1)" by fastforce
  obtain n2 w2 where 2: "tk_CountTokensForModel t mid (messageContentString (rt_float rt) (rm_Content msg)) w1 = (n2, w2)"
    by fastforce
  have i1: "inv (w_modelEnc w1)" and n1: "n1 = count mid (rm_Role msg)"
    using count_inv [OF Cons.prems(1)] count_result [OF Cons.prems(1)] 1 by (metis fst_conv snd_conv)+
  have i2: "inv (w_modelEnc w2)" and n2: "n2 = count mid (messageContentString (rt_float rt) (rm_Content msg))"
    using count_inv [OF i1] count_result [OF i1] 2 by (metis fst_conv snd_conv)+
  have "fst (countMessages rt t mid (msg # msgs) input w) =
      wrap64 (input + n1 + n2 + (\<Sum>msg\<leftarrow>msgs. messageTokens rt count mid msg))"
    using Cons.IH [OF i2] by (simp add: 1 2)
  moreover have "messageTokens rt count mid msg = n1 + n2" by (simp add: messageTokens_def n1 n2)
  ultimately show ?case by (simp add: algebra_simps)
qed simp

lemma countMessages_quiet: "extends w (snd (countMessages rt t mid msgs input w))"
proof (induction msgs arbitrary: input w)
  case (Cons msg msgs)
  show ?case
    using Cons count_quiet by (simp add: split_beta Let_def) (meson extends_trans)
qed simp

lemma countMessages_state:
  "w_daemon (snd (countMessages rt t mid msgs input w)) = w_daemon w"
  by (induction msgs arbitrary: input w) (simp_all add: split_beta Let_def count_state)

lemma chatEstimate_result:
  assumes "inv (w_modelEnc w)" and "parseChat body = Some r"
  shows "fst (chatEstimate rt t dflt body model w) =
    Inr (wrap64 ((\<Sum>msg\<leftarrow>cr_Messages r. messageTokens rt count model msg) + chatOutput dflt r))"
proof -
  have "wrap64 0 = 0" by (simp add: wrap64_small)
  then show ?thesis
    using assms countMessages_result [OF assms(1), of 0 rt model "cr_Messages r"]
    by (simp add: chatEstimate_def chatParse_def split_beta Let_def)
qed

lemma chatEstimate_quiet:
  "extends w (snd (chatEstimate rt t dflt body model w))"
  "w_daemon (snd (chatEstimate rt t dflt body model w)) = w_daemon w"
  by (simp_all add: chatEstimate_def split_beta Let_def countMessages_quiet countMessages_state split: sum.splits)

end

section \<open>The units are 64-bit\<close>

lemma parseUsage_range: "int64_range (usageToUnits (parseUsage b))"
proof -
  have f: "usageRange y" if "usageRange x" "usageField k v x = Some y" for k v x y
    using that(2) usageRange_set [OF that(1), of v y] that(1) by (simp add: usageField_def split: if_splits)
  have "usageRange u" if "decodeStruct responseField v None = Some (Some u)" for v u
    using f responseField_def that by (rule response_range)
  then show ?thesis
    by (auto simp: parseUsage_def usageToUnits_def usageRange_def int64_range_def split: option.splits)
qed

text \<open>What is decoded has its Go type: counts are 64-bit, contents hold \<open>float64\<close> numbers only.\<close>

definition messageTyped :: "requestMessage \<Rightarrow> bool" where
  "messageTyped m \<longleftrightarrow> any_ok (rm_Content m)"

definition chatTyped :: "chatRequest \<Rightarrow> bool" where
  "chatTyped r \<longleftrightarrow> pred_option int64_range (cr_MaxTokens r) \<and> list_all messageTyped (cr_Messages r)"

lemma messageField_typed: "messageTyped m \<Longrightarrow> messageField k v m = Some m' \<Longrightarrow> messageTyped m'"
  by (auto simp: messageField_def messageTyped_def dec_any_def split: if_splits)

lemma decMessages_typed:
  "list_all messageTyped old \<Longrightarrow> decMessages old vs = Some ms \<Longrightarrow> list_all messageTyped ms"
proof (induction old vs arbitrary: ms rule: decMessages.induct)
  case (2 old v vs)
  then obtain m ns where m: "decodeStruct messageField v (case old of [] \<Rightarrow> zeroMessage | m # _ \<Rightarrow> m) = Some m"
    "decMessages (drop 1 old) vs = Some ns" "ms = m # ns" by (auto split: option.splits)
  have "messageTyped (case old of [] \<Rightarrow> zeroMessage | m # _ \<Rightarrow> m)"
    using 2(2) by (auto simp: zeroMessage_def messageTyped_def split: list.splits)
  then have "messageTyped m" using decodeStruct_inv [of messageTyped messageField _ v m] messageField_typed m(1) by blast
  moreover have "list_all messageTyped ns" using 2(1) [OF m(1) _ m(2)] 2(2) by (cases old) auto
  ultimately show ?case using m(3) by simp
qed simp

lemma chatField_typed:
  assumes "chatTyped r" and "chatField k v r = Some r'"
  shows "chatTyped r'"
proof -
  have "pred_option int64_range x" if "dec_int_ptr (cr_MaxTokens r) v = Some x" for x
    using that by (cases v) (auto dest: atoi_range)
  moreover have "list_all messageTyped ms" if "dec_messages (cr_Messages r) v = Some ms" for ms
    using that assms(1) decMessages_typed by (cases v) (auto simp: dec_messages_def chatTyped_def)
  ultimately show ?thesis using assms by (auto simp: chatField_def chatTyped_def split: if_splits)
qed

lemma parseChat_typed:
  assumes "parseChat body = Some r"
  shows "chatTyped r"
proof -
  obtain v where v: "decodeStruct chatField v zeroChat = Some r" using assms by (auto simp: parseChat_def split: option.splits)
  have "chatTyped zeroChat" by (simp add: chatTyped_def zeroChat_def)
  then show ?thesis using decodeStruct_inv [of chatTyped chatField zeroChat v r] chatField_typed v by blast
qed

lemma streamUsage_range: "tryParseStreamUsage l = Some u \<Longrightarrow> int64_range (us_TotalTokens u)"
  using parseUsage_range [of "trimSpace (drop 5 (trimSpace l))"]
  by (auto simp: tryParseStreamUsage_def parseChunk_eq usageToUnits_def Let_def split: if_splits)

lemma streamLoop_range:
  "int64_range (usageToUnits u) \<Longrightarrow> int64_range (usageToUnits (fst (snd (streamLoop ls u s))))"
proof (induction ls arbitrary: u s)
  case (Cons l ls)
  have "int64_range (usageToUnits (if tryParseStreamUsage l \<noteq> None then tryParseStreamUsage l else u))"
    using Cons.prems streamUsage_range [of l] by (auto simp: usageToUnits_def)
  then show ?case using Cons by (auto simp: Let_def split: prod.splits option.splits)
qed simp

lemma zero_range [simp]: "int64_range 0"
  by (simp add: int64_range_def)

lemma serveJSON_range: "fst (serveJSON c recNil s url body model w) = Returned n e \<Longrightarrow> int64_range n"
  using parseUsage_range by (auto simp: serveJSON_def backendDown_def Let_def split_beta split: option.splits if_splits)

lemma serveStream_range: "fst (serveStream c recNil s url body model w) = Returned n e \<Longrightarrow> int64_range n"
proof -
  have "int64_range (usageToUnits (fst (snd (streamLoop ls None s))))" for ls s
    by (rule streamLoop_range) (simp add: usageToUnits_def)
  then show "fst (serveStream c recNil s url body model w) = Returned n e \<Longrightarrow> int64_range n"
    by (auto simp: serveStream_def backendDown_def Let_def split_beta split: option.splits if_splits)
qed

lemma chatServe_range: "fst (chatServe rt c recNil s r body model url w) = Returned n e \<Longrightarrow> int64_range n"
  by (auto simp: chatServe_def Let_def serveJSON_range serveStream_range split: sum.splits if_splits)

section \<open>The chat module is quiet\<close>

context quiet_backend
begin

lemma chatServe_quiet:
  "extends w (snd (snd (chatServe rt c recNil s r body model url w)))"
  "w_daemon (snd (snd (chatServe rt c recNil s r body model url w))) = w_daemon w"
  using quiet_backend.quiet_json [OF WithMetrics_quiet] quiet_backend.daemon_json [OF WithMetrics_quiet]
    quiet_backend.quiet_stream [OF WithMetrics_quiet] quiet_backend.daemon_stream [OF WithMetrics_quiet]
  by (simp_all add: chatServe_def serveJSON_def serveStream_def backendDown_def Let_def split_beta
      split: sum.splits option.splits)

end

lemma chatModule_quiet:
  assumes "token_counter tok cacheInv cnt" and "quiet_backend c"
  shows "quiet_module (chatModule rt tok c recNil)"
  using token_counter.chatEstimate_quiet [OF assms(1)] quiet_backend.chatServe_quiet [OF assms(2)] chatServe_range
  by unfold_locales (simp_all add: chatModule_def)

section \<open>The relay\<close>

lemma sseLines_concat: "concat (sseLines acc s) = rev acc @ s"
  by (induction acc s rule: sseLines.induct) simp_all

lemma sseLines_nonempty: "l \<in> set (sseLines acc s) \<Longrightarrow> l \<noteq> []"
  by (induction acc s rule: sseLines.induct) (auto split: if_splits)

text \<open>With a writer none of whose writes fails, every byte of the stream is given to it, in order.\<close>

lemma swWrite_open:
  assumes "wr_sent (sw_ResponseWriter s) = Some (code, h)" and "bodyAllowed code"
    and "wr_accepts (sw_ResponseWriter s) = None"
  shows "\<exists>s'. swWrite b s = (None, s') \<and> wr_body (sw_ResponseWriter s') = wr_body (sw_ResponseWriter s) @ b \<and>
    wr_sent (sw_ResponseWriter s') = Some (code, h) \<and> wr_accepts (sw_ResponseWriter s') = None"
  using assms by (auto simp: swWrite_def swMark_def rawWrite_def Let_def split: prod.splits)

lemma swFlush_open:
  assumes "wr_sent (sw_ResponseWriter s) = Some (code, h)"
  shows "wr_sent (sw_ResponseWriter (swFlush s)) = Some (code, h)"
    "wr_body (sw_ResponseWriter (swFlush s)) = wr_body (sw_ResponseWriter s)"
    "wr_accepts (sw_ResponseWriter (swFlush s)) = wr_accepts (sw_ResponseWriter s)"
  using assms by (simp_all add: swFlush_def rawFlush_def Let_def)

fun lastUsageOf :: "bytes list \<Rightarrow> usage option \<Rightarrow> usage option" where
  "lastUsageOf [] u = u"
| "lastUsageOf (l # ls) u = lastUsageOf ls (if tryParseStreamUsage l \<noteq> None then tryParseStreamUsage l else u)"

lemma lastUsageOf_append:
  "lastUsageOf (ls @ [l]) u =
     (if tryParseStreamUsage l \<noteq> None then tryParseStreamUsage l else lastUsageOf ls u)"
  by (induction ls arbitrary: u) simp_all

lemma streamLoop_open:
  assumes "wr_sent (sw_ResponseWriter s) = Some (code, h)" and "bodyAllowed code"
    and "wr_accepts (sw_ResponseWriter s) = None"
  shows "\<exists>s'. streamLoop ls u s = (None, lastUsageOf ls u, s') \<and>
    wr_body (sw_ResponseWriter s') = wr_body (sw_ResponseWriter s) @ concat ls \<and>
    wr_sent (sw_ResponseWriter s') = Some (code, h)"
  using assms
proof (induction ls arbitrary: s u)
  case (Cons l ls)
  obtain s1 where 1: "swWrite l s = (None, s1)" "wr_body (sw_ResponseWriter s1) = wr_body (sw_ResponseWriter s) @ l"
    "wr_sent (sw_ResponseWriter s1) = Some (code, h)" "wr_accepts (sw_ResponseWriter s1) = None"
    using swWrite_open [OF Cons.prems, of l] by blast
  show ?case
    using Cons.IH [of "swFlush s1" "if tryParseStreamUsage l \<noteq> None then tryParseStreamUsage l else u"]
      swFlush_open [OF 1(3)] 1 Cons.prems(2) by (auto simp: Let_def)
qed simp

text \<open>A writer that fails after some bytes has taken exactly those: a prefix of the stream.\<close>

lemma streamLoop_prefix:
  assumes "wr_sent (sw_ResponseWriter s) = Some (code, h)" and "bodyAllowed code"
    and "wr_accepts (sw_ResponseWriter s) = Some n" and "length (wr_body (sw_ResponseWriter s)) \<le> n"
  shows "wr_body (sw_ResponseWriter (snd (snd (streamLoop ls u s)))) =
      take n (wr_body (sw_ResponseWriter s) @ concat ls) \<and>
    (fst (streamLoop ls u s) = None \<longleftrightarrow> length (wr_body (sw_ResponseWriter s) @ concat ls) \<le> n)"
  using assms
proof (induction ls arbitrary: s u)
  case (Cons l ls)
  define b where "b = wr_body (sw_ResponseWriter s) @ l"
  note raw = rawWrite_limited [OF Cons.prems, of l]
  let ?u = "if tryParseStreamUsage l \<noteq> None then tryParseStreamUsage l else u"
  show ?case
  proof (cases "length b \<le> n")
    case fits: True
    obtain s1 where 1: "swWrite l s = (None, s1)" "wr_body (sw_ResponseWriter s1) = b"
      "wr_sent (sw_ResponseWriter s1) = Some (code, h)" "wr_accepts (sw_ResponseWriter s1) = Some n"
      using fits swWrite_raw [of l s] raw Cons.prems by (cases "swWrite l s") (auto simp: b_def)
    have "streamLoop (l # ls) u s = streamLoop ls ?u (swFlush s1)" by (simp add: 1(1) Let_def)
    then show ?thesis
      using Cons.IH [of "swFlush s1" ?u] swFlush_open [OF 1(3)] 1 Cons.prems(2) fits by (simp add: b_def)
  next
    case over: False
    obtain s1 where "swWrite l s = (Some errBrokenPipe, s1)" "wr_body (sw_ResponseWriter s1) = take n b"
      using over swWrite_raw [of l s] raw by (cases "swWrite l s") (auto simp: b_def)
    then show ?thesis using over by (simp add: b_def)
  qed
qed simp

section \<open>Correctness\<close>

text \<open>C23 The chat reservation: with the worker's tokenizer and any consistent cache, the estimate is
  the token count of every role and every content plus the output bound (\<open>max_tokens\<close> when
  it is positive, 2048 otherwise), as long as that number is an \<open>int64\<close>.\<close>

theorem chatEstimate_exact:
  assumes "cacheOk lib (w_modelEnc w)" and "parseChat body = Some r"
    and "int64_range ((\<Sum>msg\<leftarrow>cr_Messages r. messageTokens rt (tiktokenSpec lib (\<lambda>_. wordCountTokens 133)) model msg) +
      (case cr_MaxTokens r of None \<Rightarrow> 2048 | Some n \<Rightarrow> if 0 < n then n else 2048))"
  shows "fst (chatEstimate rt (tokenizerWithMetrics (NewTiktoken lib (Some (NewWordCount 133))) recNil) 2048 body model w) =
    Inr ((\<Sum>msg\<leftarrow>cr_Messages r. messageTokens rt (tiktokenSpec lib (\<lambda>_. wordCountTokens 133)) model msg) +
      (case cr_MaxTokens r of None \<Rightarrow> 2048 | Some n \<Rightarrow> if 0 < n then n else 2048))"
  using workerTokenizer.chatEstimate_result [OF assms(1,2)] assms(3) by (simp add: wrap64_id chatOutput_def)

definition sampleChat :: bytes where
  "sampleChat = ''{\"model\":\"m\",\"max_tokens\":9223372036854775807,\"messages\":[{\"role\":\"user\",\"content\":\"hi\"}]}''"

lemma parse_sampleChat: "parseChat sampleChat =
  Some \<lparr>cr_Model = ''m'', cr_MaxTokens = Some 9223372036854775807, cr_Stream = False,
        cr_Messages = [\<lparr>rm_Role = ''user'', rm_Content = JStr ''hi''\<rparr>]\<rparr>"
  by code_simp

lemma sampleChat_tokens:
  "messageTokens sampleRuntime (tiktokenSpec sampleLib (\<lambda>_. wordCountTokens 133)) ''m''
     \<lparr>rm_Role = ''user'', rm_Content = JStr ''hi''\<rparr> = 6"
  by code_simp

definition sampleChat2 :: bytes where
  "sampleChat2 = ''{\"model\":\"m\",\"Max_Tokens\":10,\"messages\":[{\"role\":\"user\",\"content\":\"hi\"}]}''"

theorem chatEstimate_exact_witness:
  "fst (chatEstimate sampleRuntime (tokenizerWithMetrics (NewTiktoken sampleLib (Some (NewWordCount 133))) False) 2048
     sampleChat2 ''m'' sampleWorld) = Inr 16"
proof -
  have p: "parseChat sampleChat2 = Some \<lparr>cr_Model = ''m'', cr_MaxTokens = Some 10, cr_Stream = False,
      cr_Messages = [\<lparr>rm_Role = ''user'', rm_Content = JStr ''hi''\<rparr>]\<rparr>" by code_simp
  show ?thesis
    using chatEstimate_exact [where w = sampleWorld, OF _ p, of sampleLib sampleRuntime "''m''" False] sampleChat_tokens
    by (simp add: cacheOk_empty int64_range_def chatOutput_def)
qed

text \<open>C38 The reservation wraps around: with \<open>max_tokens\<close> at the largest \<open>int64\<close> and a prompt of at
  least one token the estimate is negative, which the middleware charges as zero.\<close>

theorem chatEstimate_wraps:
  assumes "cacheOk lib (w_modelEnc w)" and "parseChat body = Some r" and "cr_MaxTokens r = Some (2 ^ 63 - 1)"
    and "0 < (\<Sum>msg\<leftarrow>cr_Messages r. messageTokens rt (tiktokenSpec lib (\<lambda>_. wordCountTokens 133)) model msg)"
    and "(\<Sum>msg\<leftarrow>cr_Messages r. messageTokens rt (tiktokenSpec lib (\<lambda>_. wordCountTokens 133)) model msg) < 2 ^ 63"
  shows "\<exists>n. fst (chatEstimate rt (tokenizerWithMetrics (NewTiktoken lib (Some (NewWordCount 133))) recNil) 2048 body model w) =
    Inr n \<and> n < 0"
proof -
  define t where "t = (\<Sum>msg\<leftarrow>cr_Messages r. messageTokens rt (tiktokenSpec lib (\<lambda>_. wordCountTokens 133)) model msg)"
  have "wrap64 (t + (2 ^ 63 - 1)) = t + (2 ^ 63 - 1) - 2 ^ 64"
    using assms(4,5) unfolding t_def [symmetric] by (intro wrap64_above) simp_all
  then show ?thesis
    using workerTokenizer.chatEstimate_result [OF assms(1,2), where dflt = 2048 and recNil = recNil] assms(3,5)
    by (simp add: chatOutput_def t_def)
qed

theorem chatEstimate_wraps_witness:
  "\<exists>n. fst (chatEstimate sampleRuntime (tokenizerWithMetrics (NewTiktoken sampleLib (Some (NewWordCount 133))) False) 2048
     sampleChat ''m'' sampleWorld) = Inr n \<and> n < 0"
  using chatEstimate_wraps [where w = sampleWorld, OF _ parse_sampleChat, of sampleLib sampleRuntime "''m''" False] sampleChat_tokens
  by (simp add: cacheOk_empty)

text \<open>The chat module is well typed at its boundaries: a decoded request holds 64-bit counts and
  \<open>float64\<close> contents only, and whatever the tokenizer answers the estimate handed to the
  middleware is an \<open>int64\<close>, as are the units read from any answer of the backend.\<close>

theorem chat_well_typed:
  assumes "parseChat body = Some r"
  shows "pred_option int64_range (cr_MaxTokens r) \<and> (\<forall>msg\<in>set (cr_Messages r). any_ok (rm_Content msg)) \<and>
    (\<exists>n. fst (chatEstimate rt tok dflt body model w) = Inr n \<and> int64_range n) \<and>
    int64_range (usageToUnits (parseUsage resp)) \<and> int64_range (usageToUnits (tryParseStreamUsage resp))"
proof -
  have "\<exists>n. fst (chatEstimate rt tok dflt body model w) = Inr n \<and> int64_range n"
    using assms by (auto simp: chatEstimate_def chatParse_def wrap64_range Let_def split: prod.splits)
  moreover have "int64_range (usageToUnits (tryParseStreamUsage resp))"
    using streamUsage_range [of resp] by (auto simp: usageToUnits_def int64_range_def split: option.splits)
  ultimately show ?thesis
    using parseChat_typed [OF assms] parseUsage_range [of resp] by (auto simp: chatTyped_def messageTyped_def list_all_iff)
qed

theorem chat_well_typed_witness:
  "parseChat sampleChat \<noteq> None \<and>
   (\<exists>n. fst (chatEstimate sampleRuntime (NewWordCount 133) 2048 sampleChat ''m'' sampleWorld) = Inr n \<and> int64_range n)"
  using chat_well_typed [OF parse_sampleChat, of sampleRuntime "NewWordCount 133" 2048 "''m''" sampleWorld "[]"] parse_sampleChat by simp

text \<open>C26 A buffered answer reaches the client unchanged: on a fresh response to a client that reads
  on, the client gets the backend's status and body as JSON, and the units reported are
  the total of the answer's usage block, or zero.\<close>

theorem serveJSON_relays:
  assumes "bk_DoJSON (backendWithMetrics backend recNil chatCapability model) url body w = ((status, resp, None), w1)"
    and "wr_sent (sw_ResponseWriter s) = None" and "wr_accepts (sw_ResponseWriter s) = None"
    and "finalStatus status" and "bodyAllowed status"
  shows "\<exists>s'. serveJSON backend recNil s url body model w = (Returned (usageToUnits (parseUsage resp)) None, s', w1) \<and>
    wr_sent (sw_ResponseWriter s') =
      Some (status, headerSet ''Content-Type'' ''application/json'' (wr_header (sw_ResponseWriter s))) \<and>
    wr_body (sw_ResponseWriter s') = wr_body (sw_ResponseWriter s) @ resp"
  using assms relayJSON_no_panic [OF assms(4), of resp s] relayJSON_fresh [OF assms(2-5), of resp]
  by (cases "relayJSON status resp s") (simp add: serveJSON_def)

theorem serveJSON_relays_witness:
  "\<exists>s'. serveJSON (fetchClient (sampleTransport ''{\"usage\":{\"total_tokens\":9}}'')) True (newStatusWriter (NewRespWriter None))
      ''http://h'' [] ''m'' sampleWorld = (Returned 9 None, s', sampleWorld) \<and> wr_body (sw_ResponseWriter s') = ''{\"usage\":{\"total_tokens\":9}}''"
proof -
  let ?tr = "sampleTransport ''{\"usage\":{\"total_tokens\":9}}''"
  have u: "urlParseOk ''http://h''" by code_simp
  have p: "usageToUnits (parseUsage ''{\"usage\":{\"total_tokens\":9}}'') = 9" by code_simp
  have "bk_DoJSON (backendWithMetrics (fetchClient ?tr) True chatCapability ''m'') ''http://h'' [] sampleWorld =
      ((200, ''{\"usage\":{\"total_tokens\":9}}'', None), sampleWorld)"
    using u by (simp add: backendWithMetrics_def fetchClient_def fetchDoJSON_def fetchDoRaw_def sampleTransport_def)
  from serveJSON_relays [OF this, of "newStatusWriter (NewRespWriter None)"] p show ?thesis
    by (auto simp: newStatusWriter_def NewRespWriter_def finalStatus_def bodyAllowed_def)
qed

text \<open>The last usage block of the lines of a stream.\<close>

lemma lastUsageOf_last: "lastUsageOf ls u = last (u # filter (\<lambda>x. x \<noteq> None) (map tryParseStreamUsage ls))"
  by (induction ls arbitrary: u) auto

text \<open>The status line of a stream on a fresh response.\<close>

lemma stream_header:
  assumes "wr_sent (sw_ResponseWriter s) = None" and "finalStatus status"
  shows "\<exists>s2 hs. swWriteHeader status (swSet ''Connection'' ''keep-alive'' (swSet ''Cache-Control'' ''no-cache''
      (swSet ''Content-Type'' ''text/event-stream'' s))) = (False, s2) \<and>
    wr_sent (sw_ResponseWriter s2) = Some (status, hs) \<and> wr_body (sw_ResponseWriter s2) = wr_body (sw_ResponseWriter s) \<and>
    wr_accepts (sw_ResponseWriter s2) = wr_accepts (sw_ResponseWriter s)"
  using assms by (simp add: swSet_def rawSet_def swWriteHeader_def swMark_def rawWriteHeader_def finalStatus_def Let_def)

text \<open>C25 A stream reaches a client that reads on byte for byte, under the backend's status, and the
  units reported are those of the last line with a usage block; an error of the backend's
  stream is reported after everything read has been sent.\<close>

theorem serveStream_relays:
  assumes "bk_DoStream (backendWithMetrics backend recNil chatCapability model) url body w = ((status, h, stream, None), w1)"
    and "wr_sent (sw_ResponseWriter s) = None" and "wr_accepts (sw_ResponseWriter s) = None"
    and "finalStatus status" and "bodyAllowed status"
  shows "\<exists>s' hs. serveStream backend recNil s url body model w =
      (Returned (usageToUnits (last (None # filter (\<lambda>x. x \<noteq> None) (map tryParseStreamUsage (sseLines [] (sm_data stream))))))
         (map_option (wrapf ''chat_completions: read backend stream: '') (sm_err stream)), s', w1) \<and>
    wr_sent (sw_ResponseWriter s') = Some (status, hs) \<and>
    wr_body (sw_ResponseWriter s') = wr_body (sw_ResponseWriter s) @ sm_data stream"
proof -
  obtain s2 hs where s2: "swWriteHeader status (swSet ''Connection'' ''keep-alive'' (swSet ''Cache-Control'' ''no-cache''
      (swSet ''Content-Type'' ''text/event-stream'' s))) = (False, s2)"
    "wr_sent (sw_ResponseWriter s2) = Some (status, hs)" "wr_body (sw_ResponseWriter s2) = wr_body (sw_ResponseWriter s)"
    "wr_accepts (sw_ResponseWriter s2) = None"
    using stream_header [OF assms(2,4)] assms(3) by auto
  obtain s3 where "streamLoop (sseLines [] (sm_data stream)) None s2 = (None, lastUsageOf (sseLines [] (sm_data stream)) None, s3)"
    "wr_body (sw_ResponseWriter s3) = wr_body (sw_ResponseWriter s2) @ concat (sseLines [] (sm_data stream))"
    "wr_sent (sw_ResponseWriter s3) = Some (status, hs)"
    using streamLoop_open [OF s2(2) assms(5) s2(4)] by blast
  then show ?thesis using assms(1) s2 unfolding lastUsageOf_last [symmetric]
    by (simp add: serveStream_def sseLines_concat split: option.splits)
qed

definition sampleEvents :: bytes where
  "sampleEvents = ''data: {\"id\":1}'' @ [CHR 0x0A] @ ''data: {\"usage\":{\"total_tokens\":9}}'' @ [CHR 0x0A] @ ''data: [DONE]'' @ [CHR 0x0A]"

lemma sampleStream:
  "bk_DoStream (backendWithMetrics (fetchClient (sampleTransport sampleEvents)) True chatCapability ''m'') ''http://h'' [] sampleWorld =
     ((200, [], \<lparr>sm_data = sampleEvents, sm_err = None\<rparr>, None), sampleWorld)"
proof -
  have "urlParseOk ''http://h''" by code_simp
  then show ?thesis by (simp add: backendWithMetrics_def fetchClient_def fetchDoStream_def sampleTransport_def)
qed

theorem serveStream_relays_witness:
  "\<exists>s'. serveStream (fetchClient (sampleTransport sampleEvents)) True (newStatusWriter (NewRespWriter None))
      ''http://h'' [] ''m'' sampleWorld = (Returned 9 None, s', sampleWorld) \<and> wr_body (sw_ResponseWriter s') = sampleEvents"
proof -
  have "usageToUnits (last (None # filter (\<lambda>x. x \<noteq> None) (map tryParseStreamUsage (sseLines [] sampleEvents)))) = 9"
    by code_simp
  then show ?thesis
    using serveStream_relays [OF sampleStream, of "newStatusWriter (NewRespWriter None)"]
    by (auto simp: newStatusWriter_def NewRespWriter_def finalStatus_def bodyAllowed_def)
qed

text \<open>C24 A stream stops at the first write that fails: when the response writer takes \<open>n\<close> bytes before a
  \<open>Write\<close> returns an error, which may be at any time after the client left or never, it has been given
  exactly the first \<open>n\<close> bytes of the stream, in order; and the module reports an error, so that no
  extra units are debited, exactly when a \<open>Write\<close> failed before the end of the stream or the stream
  itself ended in an error.\<close>

theorem serveStream_disconnect:
  assumes "bk_DoStream (backendWithMetrics backend recNil chatCapability model) url body w = ((status, h, stream, None), w1)"
    and "wr_sent (sw_ResponseWriter s) = None" and "wr_accepts (sw_ResponseWriter s) = Some n"
    and "wr_body (sw_ResponseWriter s) = []" and "finalStatus status" and "bodyAllowed status"
  shows "\<exists>units err s'. serveStream backend recNil s url body model w = (Returned units err, s', w1) \<and>
    wr_body (sw_ResponseWriter s') = take n (sm_data stream) \<and>
    (err = None \<longleftrightarrow> length (sm_data stream) \<le> n \<and> sm_err stream = None)"
proof -
  obtain s2 hs where s2: "swWriteHeader status (swSet ''Connection'' ''keep-alive'' (swSet ''Cache-Control'' ''no-cache''
      (swSet ''Content-Type'' ''text/event-stream'' s))) = (False, s2)"
    "wr_sent (sw_ResponseWriter s2) = Some (status, hs)" "wr_body (sw_ResponseWriter s2) = []"
    "wr_accepts (sw_ResponseWriter s2) = Some n"
    using stream_header [OF assms(2,5)] assms(3,4) by auto
  obtain we u s3 where lp: "streamLoop (sseLines [] (sm_data stream)) None s2 = (we, u, s3)" using prod_cases3 by blast
  have "wr_body (sw_ResponseWriter s3) = take n (sm_data stream)" "we = None \<longleftrightarrow> length (sm_data stream) \<le> n"
    using streamLoop_prefix [OF s2(2) assms(6) s2(4), of "sseLines [] (sm_data stream)" None] lp s2(3)
      sseLines_concat [of "[]" "sm_data stream"] by auto
  then show ?thesis using assms(1) lp s2(1)
    by (cases we; cases "sm_err stream") (auto simp: serveStream_def)
qed

theorem serveStream_disconnect_witness:
  "\<exists>units err s'. serveStream (fetchClient (sampleTransport sampleEvents)) True (newStatusWriter (NewRespWriter (Some 5)))
      ''http://h'' [] ''m'' sampleWorld = (Returned units err, s', sampleWorld) \<and>
    wr_body (sw_ResponseWriter s') = ''data:'' \<and> err \<noteq> None"
  using serveStream_disconnect [OF sampleStream, of "newStatusWriter (NewRespWriter (Some 5))" 5]
  by (auto simp: newStatusWriter_def NewRespWriter_def finalStatus_def bodyAllowed_def sampleEvents_def)

end
