(* ===== verification/Embeddings.thy ===== *)
theory Embeddings
  imports Module
begin

text \<open>
  \<open>internal/service/modules/embeddings\<close>: the embeddings module. The estimate depends on
  the shape of \<open>input\<close>: the tokens of a string, the sum over an array with one token for
  every element that is not a string, and nothing for any other shape.
\<close>

section \<open>The request\<close>

record embRequest =
  er_Model :: string
  er_Input :: json

definition zeroEmb :: embRequest where
  "zeroEmb = \<lparr>er_Model = [], er_Input = JNull\<rparr>"

definition embField :: "bytes \<Rightarrow> json \<Rightarrow> embRequest \<Rightarrow> embRequest option" where
  "embField k v r =
     (if k = ''model'' then map_option (\<lambda>x. r\<lparr>er_Model := x\<rparr>) (dec_string (er_Model r) v)
      else if k = ''input'' then map_option (\<lambda>x. r\<lparr>er_Input := x\<rparr>) (dec_any v)
      else Some r)"

definition embParse :: "Runtime \<Rightarrow> bytes \<Rightarrow> Err + embRequest" where
  "embParse rt body =
     (case (case jsonUnmarshal body of None \<Rightarrow> None | Some v \<Rightarrow> decodeStruct embField v zeroEmb) of
        None \<Rightarrow> Inl (rt_jsonErr rt ''embeddings.request'' body)
      | Some r \<Rightarrow> Inr r)"

definition embExtractModel :: "Runtime \<Rightarrow> bytes \<Rightarrow> Err + string" where
  "embExtractModel rt body = modelOf ''embeddings'' (map_sum (\<lambda>e. e) er_Model (embParse rt body))"

section \<open>The estimate\<close>

fun countItems :: "('d, 'b) Tokenizer \<Rightarrow> string \<Rightarrow> json list \<Rightarrow> int \<Rightarrow> ('d, 'b) World \<Rightarrow> int \<times> ('d, 'b) World" where
  "countItems tok model [] ttl w = (ttl, w)"
| "countItems tok model (JStr s # vs) ttl w =
     (let (n, w1) = tk_CountTokensForModel tok model s w in countItems tok model vs (wrap64 (ttl + n)) w1)"
| "countItems tok model (_ # vs) ttl w = countItems tok model vs (wrap64 (ttl + 1)) w"

definition countTokens :: "('d, 'b) Tokenizer \<Rightarrow> string \<Rightarrow> json \<Rightarrow> ('d, 'b) World \<Rightarrow> int \<times> ('d, 'b) World" where
  "countTokens tok model input w =
     (case input of
        JStr s \<Rightarrow> tk_CountTokensForModel tok model s w
      | JArr vs \<Rightarrow> countItems tok model vs 0 w
      | _ \<Rightarrow> (0, w))"

definition embEstimate ::
    "Runtime \<Rightarrow> ('d, 'b) Tokenizer \<Rightarrow> bytes \<Rightarrow> string \<Rightarrow> ('d, 'b) World \<Rightarrow> (Err + int) \<times> ('d, 'b) World" where
  "embEstimate rt tok body model w =
     (case embParse rt body of
        Inl e \<Rightarrow> (Inl (wrapf ''embeddings: parse request: '' e), w)
      | Inr r \<Rightarrow> let (n, w1) = countTokens tok model (er_Input r) w in (Inr n, w1))"

section \<open>Serving\<close>

definition embUsageField :: "bytes \<Rightarrow> json \<Rightarrow> usage \<Rightarrow> usage option" where
  "embUsageField k v u =
     (if k = ''prompt_tokens'' then setPrompt v u
      else if k = ''total_tokens'' then setTotal v u
      else Some u)"

definition embResponseField :: "bytes \<Rightarrow> json \<Rightarrow> usage option \<Rightarrow> usage option option" where
  "embResponseField k v u = (if k = ''usage'' then dec_ptr (decodeStruct embUsageField) zeroUsage u v else Some u)"

definition embUnits :: "bytes \<Rightarrow> int" where
  "embUnits b =
     (case jsonUnmarshal b of
        None \<Rightarrow> 0
      | Some v \<Rightarrow>
          (case decodeStruct embResponseField v None of
             Some (Some u) \<Rightarrow> us_TotalTokens u
           | _ \<Rightarrow> 0))"

abbreviation embCapability :: string where "embCapability \<equiv> ''openai:/v1/embeddings''"
abbreviation embHTTPPath :: string where "embHTTPPath \<equiv> ''/v1/embeddings''"

definition embServe ::
    "('d, 'b) Backend \<Rightarrow> bool \<Rightarrow> statusWriter \<Rightarrow> Request \<Rightarrow> bytes \<Rightarrow> string \<Rightarrow> string \<Rightarrow>
       ('d, 'b) World \<Rightarrow> served \<times> statusWriter \<times> ('d, 'b) World" where
  "embServe backend recNil s _ body model backendURL w =
     (let ((status, respBody, err), w1) =
        bk_DoJSON (backendWithMetrics backend recNil embCapability model) (targetURL backendURL embHTTPPath) body w
      in case err of
           Some e \<Rightarrow> backendDown ''embeddings: backend DoJSON: '' e s w1
         | None \<Rightarrow>
             let (p, s1) = relayJSON status respBody s in
             if p then (Panicked, s1, w1) else (Returned (embUnits respBody) None, s1, w1))"

definition embModule :: "Runtime \<Rightarrow> ('d, 'b) Tokenizer \<Rightarrow> ('d, 'b) Backend \<Rightarrow> bool \<Rightarrow> ('d, 'b) Module" where
  "embModule rt tok backend recNil =
     \<lparr>m_Capability = embCapability, m_HTTPMethod = MethodPost, m_HTTPPath = embHTTPPath, m_Unit = UnitToken,
      m_ExtractModel = embExtractModel rt, m_EstimateWorkUnits = embEstimate rt tok,
      m_Serve = embServe backend recNil\<rparr>"

section \<open>What the estimate is\<close>

definition itemTokens :: "(string \<Rightarrow> string \<Rightarrow> int) \<Rightarrow> string \<Rightarrow> json \<Rightarrow> int" where
  "itemTokens cnt model v = (case v of JStr s \<Rightarrow> cnt model s | _ \<Rightarrow> 1)"

definition inputTokens :: "(string \<Rightarrow> string \<Rightarrow> int) \<Rightarrow> string \<Rightarrow> json \<Rightarrow> int" where
  "inputTokens cnt model input =
     (case input of
        JStr s \<Rightarrow> cnt model s
      | JArr vs \<Rightarrow> (\<Sum>v\<leftarrow>vs. itemTokens cnt model v)
      | _ \<Rightarrow> 0)"

context token_counter
begin

lemma countItems_result:
  "inv (w_modelEnc w) \<Longrightarrow> wrap64 ttl = ttl \<Longrightarrow>
     fst (countItems t model vs ttl w) = wrap64 (ttl + (\<Sum>v\<leftarrow>vs. itemTokens count model v))"
proof (induction vs arbitrary: ttl w)
  case (Cons v vs)
  show ?case
  proof (cases v)
    case (JStr s)
    obtain n w1 where 1: "tk_CountTokensForModel t model s w = (n, w1)" by fastforce
    have "inv (w_modelEnc w1)" and "n = count model s"
      using count_inv [OF Cons.prems(1), of model s] count_result [OF Cons.prems(1), of model s] 1 by auto
    then show ?thesis using Cons.IH [of w1 "wrap64 (ttl + n)"] 1 JStr by (simp add: itemTokens_def add.assoc)
  qed (use Cons in \<open>simp_all add: itemTokens_def add.assoc\<close>)
qed simp

lemma countItems_quiet:
  "extends w (snd (countItems t model vs ttl w)) \<and> w_daemon (snd (countItems t model vs ttl w)) = w_daemon w"
proof (induction vs arbitrary: ttl w)
  case (Cons v vs)
  show ?case
  proof (cases v)
    case (JStr s)
    show ?thesis
      using Cons [where w = "snd (tk_CountTokensForModel t model s w)"]
        count_quiet [of w model s]
      by (auto simp: JStr Let_def split_beta count_state intro: extends_trans)
  qed (use Cons in simp_all)
qed simp

lemma countTokens_quiet:
  "extends w (snd (countTokens t model v w))" "w_daemon (snd (countTokens t model v w)) = w_daemon w"
  by (simp_all add: countTokens_def count_quiet count_state countItems_quiet split: json.splits)

lemma embEstimate_quiet:
  "extends w (snd (embEstimate rt t body model w))" "w_daemon (snd (embEstimate rt t body model w)) = w_daemon w"
  by (simp_all add: embEstimate_def split_beta Let_def countTokens_quiet split: sum.splits)

lemma embEstimate_result:
  assumes "inv (w_modelEnc w)" and "embParse rt body = Inr r"
    and "\<And>s. er_Input r = JStr s \<Longrightarrow> int64_range (count model s)"
  shows "fst (embEstimate rt t body model w) = Inr (wrap64 (inputTokens count model (er_Input r)))"
proof -
  have "wrap64 0 = 0" by (simp add: wrap64_small)
  then have "fst (countTokens t model (er_Input r) w) = wrap64 (inputTokens count model (er_Input r))"
    using assms countItems_result [OF assms(1), of 0 model]
    by (simp add: countTokens_def inputTokens_def count_result wrap64_id split: json.splits)
  then show ?thesis using assms(2) by (simp add: embEstimate_def split_beta Let_def)
qed

end

lemma embUnits_range: "int64_range (embUnits b)"
proof -
  have f: "usageRange y" if "usageRange x" "embUsageField k v x = Some y" for k v x y
    using that(2) usageRange_set(1,2) [OF that(1), of v y] that(1) by (simp add: embUsageField_def split: if_splits)
  have "usageRange u" if "decodeStruct embResponseField v None = Some (Some u)" for v u
    using f embResponseField_def that by (rule response_range)
  then show ?thesis
    by (auto simp: embUnits_def usageRange_def int64_range_def split: option.splits)
qed

lemma embServe_range: "fst (embServe c recNil s r body model url w) = Returned n e \<Longrightarrow> int64_range n"
  using embUnits_range
  by (auto simp: embServe_def backendDown_def Let_def split_beta int64_range_def split: option.splits if_splits)

context quiet_backend
begin

lemma embServe_quiet:
  "extends w (snd (snd (embServe c recNil s r body model url w)))"
  "w_daemon (snd (snd (embServe c recNil s r body model url w))) = w_daemon w"
  using quiet_backend.quiet_json [OF WithMetrics_quiet] quiet_backend.daemon_json [OF WithMetrics_quiet]
  by (simp_all add: embServe_def backendDown_def Let_def split_beta split: option.splits)

end

lemma embModule_quiet:
  assumes "token_counter tok cacheInv cnt" and "quiet_backend c"
  shows "quiet_module (embModule rt tok c recNil)"
  using token_counter.embEstimate_quiet [OF assms(1)] quiet_backend.embServe_quiet [OF assms(2)] embServe_range
  by unfold_locales (simp_all add: embModule_def)

section \<open>Correctness\<close>

text \<open>C28 The embeddings reservation: the tokens of a string input, or for an array the tokens of its
  strings plus one for every other element (a nested array of token ids counts as one), or
  nothing for any other shape, as long as that number is an \<open>int64\<close>.\<close>

theorem embEstimate_exact:
  assumes "cacheOk lib (w_modelEnc w)" and "embParse rt body = Inr r"
    and "int64_range (inputTokens (tiktokenSpec lib (\<lambda>_. wordCountTokens 133)) model (er_Input r))"
  shows "fst (embEstimate rt (tokenizerWithMetrics (NewTiktoken lib (Some (NewWordCount 133))) recNil) body model w) =
    Inr (inputTokens (tiktokenSpec lib (\<lambda>_. wordCountTokens 133)) model (er_Input r))"
proof -
  have "int64_range (tiktokenSpec lib (\<lambda>_. wordCountTokens 133) model s)" if "er_Input r = JStr s" for s
    using assms(3) that by (simp add: inputTokens_def)
  from workerTokenizer.embEstimate_result [OF assms(1,2) this] assms(3) show ?thesis by (simp add: wrap64_id)
qed

theorem embEstimate_exact_witness:
  "fst (embEstimate sampleRuntime (tokenizerWithMetrics (NewTiktoken sampleLib (Some (NewWordCount 133))) False)
     ''{\"model\":\"m\",\"input\":[\"ab\",[\"c\",\"d\"],null]}'' ''m'' sampleWorld) = Inr 4"
proof -
  have p: "embParse sampleRuntime ''{\"model\":\"m\",\"input\":[\"ab\",[\"c\",\"d\"],null]}'' =
      Inr \<lparr>er_Model = ''m'', er_Input = JArr [JStr ''ab'', JArr [JStr ''c'', JStr ''d''], JNull]\<rparr>"
    by code_simp
  have c: "inputTokens (tiktokenSpec sampleLib (\<lambda>_. wordCountTokens 133)) ''m''
      (JArr [JStr ''ab'', JArr [JStr ''c'', JStr ''d''], JNull]) = 4" by code_simp
  show ?thesis
    using embEstimate_exact [where w = sampleWorld, OF _ p, of sampleLib "''m''" False] c
    by (simp add: cacheOk_empty int64_range_def)
qed

end
