(* ===== verification/Multipart.thy ===== *)
theory Multipart
  imports Module
begin

text \<open>
  \<open>internal/service/modules/multipartutil\<close>: the boundary of a multipart body read from
  its first line, and the lookup of a text field. The part reader of \<open>mime/multipart\<close> is
  \<open>rt_parts\<close>: for a boundary and a body, the parts \<open>NextPart\<close> returns and the error that
  ends them (none is EOF).
\<close>

definition indexByte :: "char \<Rightarrow> bytes \<Rightarrow> nat option" where
  "indexByte c s = (if c \<in> set s then Some (length (takeWhile (\<lambda>x. x \<noteq> c) s)) else None)"

definition BoundaryFromBody :: "Runtime \<Rightarrow> bytes \<Rightarrow> Err + string" where
  "BoundaryFromBody rt body =
     (if length body < 3 then Inl (errorsNew ''multipartutil: body too short to be multipart'')
      else
        let window = (if 1024 < length body then take 1024 body else body) in
        case indexByte (CHR 0x0A) window of
          None \<Rightarrow> Inl (errorsNew ''multipartutil: first line has no terminator in first 1 KiB'')
        | Some idx \<Rightarrow>
            let first = trimRight [CHR 0x0D] (take idx window) in
            if \<not> hasPrefix ''--'' first then
              Inl (errorsNew (''multipartutil: first line does not begin with `--`: '' @ rt_quote rt first))
            else
              let b = drop 2 first in
              if b = [] then Inl (errorsNew ''multipartutil: empty boundary'') else Inr b)"

abbreviation (input) maxFieldBytes :: nat where "maxFieldBytes \<equiv> 65536"

text \<open>\<open>io.ReadAll(io.LimitReader(part, 64<<10))\<close>: past the cap the part is not read.\<close>

definition readPart :: "Part \<Rightarrow> Err + bytes" where
  "readPart p =
     (if maxFieldBytes \<le> length (pt_data p) then Inr (take maxFieldBytes (pt_data p))
      else case pt_err p of Some e \<Rightarrow> Inl e | None \<Rightarrow> Inr (pt_data p))"

fun findField :: "Runtime \<Rightarrow> string \<Rightarrow> Part list \<Rightarrow> Err option \<Rightarrow> Err + string option" where
  "findField rt name [] fin =
     (case fin of None \<Rightarrow> Inr None | Some e \<Rightarrow> Inl (wrapf ''multipartutil: read part: '' e))"
| "findField rt name (p # ps) fin =
     (if pt_FormName p \<noteq> name then findField rt name ps fin
      else case readPart p of
             Inl e \<Rightarrow> Inl (wrapf (''multipartutil: read field '' @ rt_quote rt name @ '': '') e)
           | Inr buf \<Rightarrow> Inr (Some (trimSpace buf)))"

definition FormField :: "Runtime \<Rightarrow> bytes \<Rightarrow> string \<Rightarrow> Err + string option" where
  "FormField rt body name =
     (case BoundaryFromBody rt body of
        Inl e \<Rightarrow> Inl e
      | Inr boundary \<Rightarrow> (let (ps, fin) = rt_parts rt boundary body in findField rt name ps fin))"

section \<open>The boundary\<close>

text \<open>A body that starts with \<open>--boundary\<close> and a line end yields that boundary.\<close>

lemma indexByte_append: "c \<notin> set a \<Longrightarrow> indexByte c (a @ c # b) = Some (length a)"
  by (simp add: indexByte_def takeWhile_append)

lemma BoundaryFromBody_roundtrip:
  assumes "b \<noteq> []" and "CHR 0x0A \<notin> set b" and "last b \<noteq> CHR 0x0D" and "length b \<le> 1020"
    and "e = [CHR 0x0A] \<or> e = [CHR 0x0D, CHR 0x0A]"
  shows "BoundaryFromBody rt (''--'' @ b @ e @ rest) = Inr b"
proof -
  define line where "line = ''--'' @ b"
  define r where "r = (if e = [CHR 0x0A] then [] else [CHR 0x0D])"
  have body: "''--'' @ b @ e @ rest = (line @ r) @ CHR 0x0A # rest"
    using assms(5) by (auto simp: line_def r_def)
  have nl: "CHR 0x0A \<notin> set (line @ r)" using assms(2) by (auto simp: line_def r_def)
  define n where "n = length (line @ r)"
  have n: "n \<le> 1023" using assms(4) by (simp add: line_def r_def n_def)
  have len: "\<not> length (''--'' @ b @ e @ rest) < 3" using assms(1,5) by (cases b) auto
  have win: "\<exists>rest'. (if 1024 < length (''--'' @ b @ e @ rest) then take 1024 (''--'' @ b @ e @ rest)
      else ''--'' @ b @ e @ rest) = (line @ r) @ CHR 0x0A # rest'"
    using n unfolding body n_def by (auto simp: take_Cons')
  then obtain rest' where w: "(if 1024 < length (''--'' @ b @ e @ rest) then take 1024 (''--'' @ b @ e @ rest)
      else ''--'' @ b @ e @ rest) = (line @ r) @ CHR 0x0A # rest'" by blast
  have last: "line \<noteq> []" "last line \<noteq> CHR 0x0D" using assms(1,3) by (simp_all add: line_def)
  have "trimRight [CHR 0x0D] (line @ r) = line"
    using last trimRight_id [of line "[CHR 0x0D]"] by (auto simp: r_def trimRight_def)
  then show ?thesis
    unfolding BoundaryFromBody_def w Let_def indexByte_append [OF nl] if_not_P [OF len]
    using assms(1) by (simp add: line_def hasPrefix_def)
qed

text \<open>A value that is found is never longer than the cap.\<close>

lemma trimSpace_length: "length (trimSpace s) \<le> length s"
proof -
  have d: "length (concat (map snd (dropWhile P xs))) \<le> length (concat (map snd xs))"
    for P and xs :: "(nat \<times> bytes) list"
    by (induction xs) auto
  have r: "length (concat (map snd (rev xs))) = length (concat (map snd xs))" for xs :: "(nat \<times> bytes) list"
    by (induction xs) auto
  define P where "P = (\<lambda>seg :: nat \<times> bytes. isSpace (fst seg))"
  define segs where "segs = dropWhile P (runes s)"
  have "length (trimSpace s) = length (concat (map snd (dropWhile P (rev segs))))"
    by (simp add: trimSpace_def Let_def P_def segs_def r)
  also have "\<dots> \<le> length (concat (map snd (rev segs)))" by (rule d)
  also have "\<dots> \<le> length (concat (map snd (runes s)))" unfolding r segs_def by (rule d)
  finally show ?thesis by (simp add: runes_concat)
qed

lemma findField_cap: "findField rt name ps fin = Inr (Some v) \<Longrightarrow> length v \<le> maxFieldBytes"
proof (induction rt name ps fin rule: findField.induct)
  case (2 rt name p ps fin)
  have "length buf \<le> maxFieldBytes" if "readPart p = Inr buf" for buf
    using that by (auto simp: readPart_def split: if_splits option.splits)
  moreover have "length (trimSpace buf) \<le> length buf" for buf by (rule trimSpace_length)
  ultimately have "length (trimSpace buf) \<le> maxFieldBytes" if "readPart p = Inr buf" for buf
    using that by (meson le_trans)
  then show ?case using 2 by (auto split: if_splits sum.splits)
qed (auto split: option.splits)

section \<open>Correctness\<close>

text \<open>C30 The boundary is recovered from the body: a body that starts with the delimiter line of a
  boundary, ended by LF or CRLF within the first 1024 bytes, yields that boundary, whatever follows.\<close>

theorem boundary_recovered:
  assumes "b \<noteq> []" and "CHR 0x0A \<notin> set b" and "last b \<noteq> CHR 0x0D" and "length b \<le> 1020"
  shows "BoundaryFromBody rt (''--'' @ b @ [CHR 0x0A] @ rest) = Inr b \<and>
    BoundaryFromBody rt (''--'' @ b @ [CHR 0x0D, CHR 0x0A] @ rest) = Inr b"
  using BoundaryFromBody_roundtrip [OF assms] by blast

theorem boundary_recovered_witness:
  "BoundaryFromBody sampleRuntime (''--'' @ ''xyz'' @ [CHR 0x0D, CHR 0x0A] @ ''rest'') = Inr ''xyz''"
  using boundary_recovered [of "''xyz''"] by simp

text \<open>A form field is at most 64 KiB whatever the form holds, and it is the first part with that
  name: parts of other names are passed over.\<close>

theorem FormField_first:
  assumes "FormField rt body name = Inr (Some v)"
  shows "length v \<le> 65536 \<and>
    (\<exists>boundary ps fin before p after buf. BoundaryFromBody rt body = Inr boundary \<and> rt_parts rt boundary body = (ps, fin) \<and>
       ps = before @ p # after \<and> pt_FormName p = name \<and> (\<forall>q\<in>set before. pt_FormName q \<noteq> name) \<and>
       readPart p = Inr buf \<and> v = trimSpace buf)"
proof -
  obtain boundary ps fin where b: "BoundaryFromBody rt body = Inr boundary" "rt_parts rt boundary body = (ps, fin)"
    "findField rt name ps fin = Inr (Some v)"
    using assms by (auto simp: FormField_def split: sum.splits prod.splits)
  have "\<exists>before p after buf. ps = before @ p # after \<and> pt_FormName p = name \<and> (\<forall>q\<in>set before. pt_FormName q \<noteq> name) \<and>
      readPart p = Inr buf \<and> v = trimSpace buf"
    using b(3)
  proof (induction ps)
    case (Cons p ps)
    show ?case
    proof (cases "pt_FormName p = name")
      case True
      then show ?thesis using Cons.prems by (intro exI [of _ "[]"]) (auto split: sum.splits)
    next
      case False
      then obtain before q after buf where "ps = before @ q # after" "pt_FormName q = name"
        "\<forall>q\<in>set before. pt_FormName q \<noteq> name" "readPart q = Inr buf" "v = trimSpace buf"
        using Cons by auto
      then show ?thesis using False by (intro exI [of _ "p # before"]) auto
    qed
  qed (auto split: option.splits)
  then show ?thesis using b findField_cap [OF b(3)] by blast
qed

lemma formField_sample: "FormField sampleRuntime (''--'' @ ''xyz'' @ [CHR 0x0A] @ []) ''model'' = Inr (Some ''m'')"
proof -
  have "BoundaryFromBody sampleRuntime (''--'' @ ''xyz'' @ [CHR 0x0A] @ []) = Inr ''xyz''"
    by (rule BoundaryFromBody_roundtrip) simp_all
  moreover have "trimSpace '' m '' = ''m''"
  proof -
    have "runes '' m '' = map (\<lambda>c. (byteOf c, [c])) '' m ''" by (rule runes_ascii) simp
    then show ?thesis by (simp add: trimSpace_def isSpace_def)
  qed
  ultimately show ?thesis by (simp add: FormField_def sampleRuntime_def readPart_def)
qed

theorem FormField_first_witness: "length ''m'' \<le> 65536 \<and> (\<exists>boundary. BoundaryFromBody sampleRuntime (''--'' @ ''xyz'' @ [CHR 0x0A] @ []) = Inr boundary)"
  using FormField_first [OF formField_sample] by blast

end
