(* ===== verification/Images.thy ===== *)
theory Images
  imports Multipart
begin

text \<open>
  \<open>internal/service/modules/images_generations\<close> and \<open>images_edits\<close>: the two image
  modules. They share the metering formula, steps times megapixels times images rounded
  up, on 64-bit integers; one reads its inputs from JSON, the other from form fields.

  The lemmas show that away from overflow the formula is the rounded-up quotient, and
  what it gives when the product wraps around.
\<close>

section \<open>The metering formula\<close>

definition megapixelUnits :: "int \<Rightarrow> int \<Rightarrow> int \<Rightarrow> int \<Rightarrow> int" where
  "megapixelUnits n steps w h =
     (let pixels = wrap64 (wrap64 (wrap64 (n * steps) * w) * h)
      in quot (wrap64 (pixels + 999999)) 1000000)"

text \<open>The part of \<open>parseSize\<close> both packages have: \<open>sz\<close> is what the error quotes.\<close>

definition parseWxH :: "Runtime \<Rightarrow> string \<Rightarrow> string \<Rightarrow> Err + int \<times> int" where
  "parseWxH rt sz s =
     (case splitOn (CHR ''x'') (toLower s) of
        [a, b] \<Rightarrow>
          (case (atoi (trimSpace a), atoi (trimSpace b)) of
             (Some w, Some h) \<Rightarrow>
               if w \<le> 0 \<or> h \<le> 0
               then Inl (errorsNew (''size '' @ rt_quote rt sz @ '': width and height must be positive integers''))
               else Inr (w, h)
           | _ \<Rightarrow> Inl (errorsNew (''size '' @ rt_quote rt sz @ '': width and height must be positive integers'')))
      | _ \<Rightarrow> Inl (errorsNew (''size '' @ rt_quote rt sz @ '': want WxH (e.g. 1024x1024)'')))"

abbreviation (input) defaultN :: int where "defaultN \<equiv> 1"
abbreviation (input) defaultSteps :: int where "defaultSteps \<equiv> 30"
abbreviation defaultSize :: string where "defaultSize \<equiv> ''1024x1024''"

section \<open>images/generations\<close>

record genRequest =
  gr_Model :: string
  gr_N :: "int option"
  gr_Size :: string
  gr_Steps :: "int option"
  gr_Prompt :: string

definition zeroGen :: genRequest where
  "zeroGen = \<lparr>gr_Model = [], gr_N = None, gr_Size = [], gr_Steps = None, gr_Prompt = []\<rparr>"

definition genField :: "bytes \<Rightarrow> json \<Rightarrow> genRequest \<Rightarrow> genRequest option" where
  "genField k v r =
     (if k = ''model'' then map_option (\<lambda>x. r\<lparr>gr_Model := x\<rparr>) (dec_string (gr_Model r) v)
      else if k = ''n'' then map_option (\<lambda>x. r\<lparr>gr_N := x\<rparr>) (dec_int_ptr (gr_N r) v)
      else if k = ''size'' then map_option (\<lambda>x. r\<lparr>gr_Size := x\<rparr>) (dec_string (gr_Size r) v)
      else if k = ''steps'' then map_option (\<lambda>x. r\<lparr>gr_Steps := x\<rparr>) (dec_int_ptr (gr_Steps r) v)
      else if k = ''prompt'' then map_option (\<lambda>x. r\<lparr>gr_Prompt := x\<rparr>) (dec_string (gr_Prompt r) v)
      else Some r)"

definition genParse :: "Runtime \<Rightarrow> bytes \<Rightarrow> Err + genRequest" where
  "genParse rt body =
     (case (case jsonUnmarshal body of None \<Rightarrow> None | Some v \<Rightarrow> decodeStruct genField v zeroGen) of
        None \<Rightarrow> Inl (rt_jsonErr rt ''images_generations.request'' body)
      | Some r \<Rightarrow> Inr r)"

definition genExtractModel :: "Runtime \<Rightarrow> bytes \<Rightarrow> Err + string" where
  "genExtractModel rt body = modelOf ''images_generations'' (map_sum (\<lambda>e. e) gr_Model (genParse rt body))"

definition genParseSize :: "Runtime \<Rightarrow> string \<Rightarrow> Err + int \<times> int" where
  "genParseSize rt sz = parseWxH rt sz (if sz = [] \<or> sz = ''auto'' then defaultSize else sz)"

definition posOr :: "int \<Rightarrow> int option \<Rightarrow> int" where
  "posOr dflt v = (case v of Some n \<Rightarrow> if 0 < n then n else dflt | None \<Rightarrow> dflt)"

definition genEstimate :: "Runtime \<Rightarrow> bytes \<Rightarrow> string \<Rightarrow> ('d, 'b) World \<Rightarrow> (Err + int) \<times> ('d, 'b) World" where
  "genEstimate rt body model wd =
     (case genParse rt body of
        Inl e \<Rightarrow> (Inl (wrapf ''images_generations: parse request: '' e), wd)
      | Inr r \<Rightarrow>
          let n = posOr defaultN (gr_N r); steps = posOr defaultSteps (gr_Steps r) in
          case genParseSize rt (gr_Size r) of
            Inl e \<Rightarrow> (Inl (wrapf ''images_generations: '' e), wd)
          | Inr (w, h) \<Rightarrow> (Inr (megapixelUnits n steps w h), wd))"

abbreviation genCapability :: string where "genCapability \<equiv> ''openai:/v1/images/generations''"
abbreviation genHTTPPath :: string where "genHTTPPath \<equiv> ''/v1/images/generations''"

definition genServe ::
    "('d, 'b) Backend \<Rightarrow> bool \<Rightarrow> statusWriter \<Rightarrow> Request \<Rightarrow> bytes \<Rightarrow> string \<Rightarrow> string \<Rightarrow>
       ('d, 'b) World \<Rightarrow> served \<times> statusWriter \<times> ('d, 'b) World" where
  "genServe backend recNil s _ body model backendURL w =
     (let ((status, respBody, err), w1) =
        bk_DoJSON (backendWithMetrics backend recNil genCapability model) (targetURL backendURL genHTTPPath) body w
      in case err of
           Some e \<Rightarrow> backendDown ''images_generations: backend DoJSON: '' e s w1
         | None \<Rightarrow>
             let (p, s1) = relayJSON status respBody s in
             if p then (Panicked, s1, w1) else (Returned 0 None, s1, w1))"

definition genModule :: "Runtime \<Rightarrow> ('d, 'b) Backend \<Rightarrow> bool \<Rightarrow> ('d, 'b) Module" where
  "genModule rt backend recNil =
     \<lparr>m_Capability = genCapability, m_HTTPMethod = MethodPost, m_HTTPPath = genHTTPPath,
      m_Unit = UnitImageStepMegapixel, m_ExtractModel = genExtractModel rt,
      m_EstimateWorkUnits = genEstimate rt, m_Serve = genServe backend recNil\<rparr>"

section \<open>images/edits\<close>

text \<open>The \<open>model\<close> field of a form, as both form modules read it.\<close>

definition formModel :: "Runtime \<Rightarrow> string \<Rightarrow> bytes \<Rightarrow> Err + string" where
  "formModel rt name body =
     (case FormField rt body ''model'' of
        Inl e \<Rightarrow> Inl (wrapf (name @ '': parse multipart: '') e)
      | Inr None \<Rightarrow> Inl (errorsNew (name @ '': multipart body missing `model` field''))
      | Inr (Some v) \<Rightarrow>
          if v = [] then Inl (errorsNew (name @ '': multipart body missing `model` field'')) else Inr v)"

definition editExtractModel :: "Runtime \<Rightarrow> bytes \<Rightarrow> Err + string" where
  "editExtractModel rt body = formModel rt ''images_edits'' body"

text \<open>A field read with its error dropped.\<close>

definition formOpt :: "Runtime \<Rightarrow> bytes \<Rightarrow> string \<Rightarrow> string option" where
  "formOpt rt body name = (case FormField rt body name of Inr v \<Rightarrow> v | Inl _ \<Rightarrow> None)"

definition formInt :: "Runtime \<Rightarrow> bytes \<Rightarrow> string \<Rightarrow> int \<Rightarrow> int" where
  "formInt rt body name dflt =
     (case formOpt rt body name of
        None \<Rightarrow> dflt
      | Some raw \<Rightarrow> (case atoi raw of Some v \<Rightarrow> if 0 < v then v else dflt | None \<Rightarrow> dflt))"

abbreviation (input) editDefaultN :: int where "editDefaultN \<equiv> 1"
abbreviation (input) editDefaultSteps :: int where "editDefaultSteps \<equiv> 30"
abbreviation (input) editDefaultSize :: string where "editDefaultSize \<equiv> ''1024x1024''"

definition editParseSize :: "Runtime \<Rightarrow> string \<Rightarrow> Err + int \<times> int" where
  "editParseSize rt sz = parseWxH rt sz sz"

definition editEstimate :: "Runtime \<Rightarrow> bytes \<Rightarrow> string \<Rightarrow> ('d, 'b) World \<Rightarrow> (Err + int) \<times> ('d, 'b) World" where
  "editEstimate rt body model wd =
     (let n = formInt rt body ''n'' editDefaultN;
          steps = formInt rt body ''steps'' editDefaultSteps;
          sz = (case formOpt rt body ''size'' of
                    Some raw \<Rightarrow> if raw \<noteq> [] \<and> raw \<noteq> ''auto'' then raw else editDefaultSize
                  | None \<Rightarrow> editDefaultSize)
      in case editParseSize rt sz of
           Inl e \<Rightarrow> (Inl (wrapf ''images_edits: '' e), wd)
         | Inr (w, h) \<Rightarrow> (Inr (megapixelUnits n steps w h), wd))"

abbreviation editCapability :: string where "editCapability \<equiv> ''openai:/v1/images/edits''"
abbreviation editHTTPPath :: string where "editHTTPPath \<equiv> ''/v1/images/edits''"

text \<open>The relay of a form, as both form modules do it; \<open>units\<close> reads the backend's answer.\<close>

definition serveForm ::
    "string \<Rightarrow> string \<Rightarrow> string \<Rightarrow> (bytes \<Rightarrow> int) \<Rightarrow> ('d, 'b) Backend \<Rightarrow> bool \<Rightarrow> statusWriter \<Rightarrow> Request \<Rightarrow>
       bytes \<Rightarrow> string \<Rightarrow> string \<Rightarrow> ('d, 'b) World \<Rightarrow> served \<times> statusWriter \<times> ('d, 'b) World" where
  "serveForm name cap path units backend recNil s r body model backendURL w =
     (let contentType = headerGet ''Content-Type'' (rq_Header r) in
      if \<not> hasPrefix ''multipart/form-data'' (toLower contentType) then
        (Returned 0 (Some (errorsNew (name @ '': Content-Type is not multipart/form-data''))),
         httpError statusRW ''Content-Type must be multipart/form-data'' 400 s, w)
      else
        let ((status, respBody, err), w1) =
          bk_DoRaw (backendWithMetrics backend recNil cap model) (targetURL backendURL path) contentType body w
        in case err of
             Some e \<Rightarrow> backendDown (name @ '': backend DoRaw: '') e s w1
           | None \<Rightarrow>
               let (p, s1) = relayJSON status respBody s in
               if p then (Panicked, s1, w1) else (Returned (units respBody) None, s1, w1))"

definition editServe ::
    "('d, 'b) Backend \<Rightarrow> bool \<Rightarrow> statusWriter \<Rightarrow> Request \<Rightarrow> bytes \<Rightarrow> string \<Rightarrow> string \<Rightarrow>
       ('d, 'b) World \<Rightarrow> served \<times> statusWriter \<times> ('d, 'b) World" where
  "editServe = serveForm ''images_edits'' editCapability editHTTPPath (\<lambda>_. 0)"

definition editModule :: "Runtime \<Rightarrow> ('d, 'b) Backend \<Rightarrow> bool \<Rightarrow> ('d, 'b) Module" where
  "editModule rt backend recNil =
     \<lparr>m_Capability = editCapability, m_HTTPMethod = MethodPost, m_HTTPPath = editHTTPPath,
      m_Unit = UnitImageStepMegapixel, m_ExtractModel = editExtractModel rt,
      m_EstimateWorkUnits = editEstimate rt, m_Serve = editServe backend recNil\<rparr>"

section \<open>The formula\<close>

text \<open>When the product fits, no step of the computation wraps.\<close>

lemma megapixelUnits_ceil:
  assumes "0 < n" and "0 < steps" and "0 < w" and "0 < h" and "n * steps * w * h + 999999 < 2 ^ 63"
  shows "megapixelUnits n steps w h = ceil_div (n * steps * w * h) 1000000"
proof -
  have pos: "0 < n * steps * w * h" using assms by simp
  have "wrap64 (wrap64 (wrap64 (n * steps) * w) * h) = n * steps * w * h"
    using pos assms(5) by (simp add: wrap64_mult mult.assoc [symmetric]) (rule wrap64_small, simp_all)
  moreover have "wrap64 (n * steps * w * h + 999999) = n * steps * w * h + 999999"
    using pos assms(5) by (intro wrap64_small) simp_all
  ultimately show ?thesis
    using pos ceil_div_alt [of 1000000 "n * steps * w * h"]
    by (simp add: megapixelUnits_def Let_def quot_nonneg)
qed

text \<open>A product that is a multiple of \<open>2 ^ 64\<close> is metered as nothing.\<close>

lemma megapixelUnits_wraps:
  assumes "(2 :: int) ^ 64 dvd n * steps * w * h"
  shows "megapixelUnits n steps w h = 0"
proof -
  have "wrap64 (n * steps * w * h) = 0"
    using assms by (auto simp: wrap64_def dvd_def mod_simps)
  then have "wrap64 (wrap64 (wrap64 (n * steps) * w) * h) = 0" by (simp add: mult.assoc [symmetric])
  then show ?thesis by (simp add: megapixelUnits_def wrap64_small quot_nonneg)
qed

lemma parseWxH_range:
  "parseWxH rt q s = Inr (w, h) \<Longrightarrow> 0 < w \<and> 0 < h \<and> int64_range w \<and> int64_range h"
  by (auto simp: parseWxH_def split: list.splits option.splits if_splits dest: atoi_range)

section \<open>The image modules are quiet\<close>

context quiet_backend
begin

lemma genServe_quiet:
  "extends w (snd (snd (genServe c recNil s r body model url w)))"
  "w_daemon (snd (snd (genServe c recNil s r body model url w))) = w_daemon w"
  using quiet_backend.quiet_json [OF WithMetrics_quiet] quiet_backend.daemon_json [OF WithMetrics_quiet]
  by (simp_all add: genServe_def backendDown_def Let_def split_beta split: option.splits)

lemma serveForm_quiet:
  "extends w (snd (snd (serveForm name cap path units c recNil s r body model url w)))"
  "w_daemon (snd (snd (serveForm name cap path units c recNil s r body model url w))) = w_daemon w"
  using quiet_backend.quiet_raw [OF WithMetrics_quiet] quiet_backend.daemon_raw [OF WithMetrics_quiet]
  by (simp_all add: serveForm_def backendDown_def Let_def split_beta split: option.splits)

end

lemma genServe_range: "fst (genServe c recNil s r body model url w) = Returned n e \<Longrightarrow> int64_range n"
  by (auto simp: genServe_def backendDown_def Let_def split_beta int64_range_def split: option.splits if_splits)

lemma serveForm_range:
  assumes "\<And>b. int64_range (units b)"
    and "fst (serveForm name cap path units c recNil s r body model url w) = Returned n e"
  shows "int64_range n"
  using assms by (auto simp: serveForm_def backendDown_def Let_def split_beta int64_range_def split: option.splits if_splits)

lemma genEstimate_world [simp]: "snd (genEstimate rt body model w) = w"
  by (simp add: genEstimate_def Let_def split: sum.splits prod.splits)

lemma editEstimate_world [simp]: "snd (editEstimate rt body model w) = w"
  by (simp add: editEstimate_def Let_def split: sum.splits prod.splits)

lemma genModule_quiet: "quiet_backend c \<Longrightarrow> quiet_module (genModule rt c recNil)"
  using quiet_backend.genServe_quiet [of c] genServe_range by unfold_locales (simp_all add: genModule_def)

lemma editModule_quiet: "quiet_backend c \<Longrightarrow> quiet_module (editModule rt c recNil)"
  using quiet_backend.serveForm_quiet [of c] serveForm_range [of "\<lambda>_. 0"]
  by unfold_locales (simp_all add: editModule_def editServe_def int64_range_def)

section \<open>Correctness\<close>

lemma posOr_pos: "0 < dflt \<Longrightarrow> 0 < posOr dflt v"
  by (simp add: posOr_def split: option.splits)

lemma formInt_pos: "0 < dflt \<Longrightarrow> 0 < formInt rt body name dflt"
  by (simp add: formInt_def split: option.splits)

text \<open>C29 The reservation of an image generation never under-charges while it fits: if images
  times steps times pixels, plus the 999999 added to round up, stays below \<open>2 ^ 63\<close>, the estimate is
  that product in megapixels, rounded up, and at least one.\<close>

theorem image_estimate_rounds_up:
  assumes "genParse rt body = Inr r" and "genParseSize rt (gr_Size r) = Inr (w, h)"
    and "posOr 1 (gr_N r) * posOr 30 (gr_Steps r) * w * h + 999999 < 2 ^ 63"
  shows "\<exists>units. fst (genEstimate rt body model wd) = Inr units \<and> 1 \<le> units \<and>
    posOr 1 (gr_N r) * posOr 30 (gr_Steps r) * w * h \<le> units * 1000000 \<and>
    units * 1000000 < posOr 1 (gr_N r) * posOr 30 (gr_Steps r) * w * h + 1000000"
proof -
  define total where "total = posOr 1 (gr_N r) * posOr 30 (gr_Steps r) * w * h"
  have wh: "0 < w" "0 < h" using assms(2) parseWxH_range [of rt] by (auto simp: genParseSize_def)
  have n: "0 < posOr 1 (gr_N r)" "0 < posOr 30 (gr_Steps r)" by (simp_all add: posOr_pos)
  have pos: "0 < total" using wh n by (simp add: total_def)
  have "fst (genEstimate rt body model wd) = Inr (ceil_div total 1000000)"
    using assms megapixelUnits_ceil [OF n wh] by (simp add: genEstimate_def Let_def total_def)
  moreover have "total \<le> ceil_div total 1000000 * 1000000" "ceil_div total 1000000 * 1000000 < total + 1000000"
    by (rule ceil_div_bounds, simp)+
  moreover from this(1) pos have "1 \<le> ceil_div total 1000000" by linarith
  ultimately show ?thesis unfolding total_def [symmetric] by blast
qed

theorem image_estimate_rounds_up_witness:
  "\<exists>units. fst (genEstimate sampleRuntime ''{\"model\":\"m\",\"n\":2,\"steps\":20}'' ''m'' sampleWorld) = Inr units \<and>
     41943040 \<le> units * 1000000 \<and> units * 1000000 < 42943040"
proof -
  have "genParse sampleRuntime ''{\"model\":\"m\",\"n\":2,\"steps\":20}'' =
      Inr \<lparr>gr_Model = ''m'', gr_N = Some 2, gr_Size = [], gr_Steps = Some 20, gr_Prompt = []\<rparr>" by code_simp
  moreover have "genParseSize sampleRuntime [] = Inr (1024, 1024)" by code_simp
  ultimately show ?thesis
    using image_estimate_rounds_up [of sampleRuntime "''{\"model\":\"m\",\"n\":2,\"steps\":20}''" _ 1024 1024 "''m''" sampleWorld]
    by (auto simp: posOr_def)
qed

text \<open>C37 The same formula wraps around: a request whose images times steps times pixels is a multiple
  of \<open>2 ^ 64\<close> is reserved zero units.\<close>

theorem image_estimate_wraps:
  assumes "genParse rt body = Inr r" and "genParseSize rt (gr_Size r) = Inr (w, h)"
    and "2 ^ 64 dvd posOr 1 (gr_N r) * posOr 30 (gr_Steps r) * w * h"
  shows "fst (genEstimate rt body model wd) = Inr 0"
  using assms megapixelUnits_wraps [OF assms(3)] by (simp add: genEstimate_def Let_def)

theorem image_estimate_wraps_witness:
  "fst (genEstimate sampleRuntime ''{\"model\":\"m\",\"size\":\"4294967296x4294967296\"}'' ''m'' sampleWorld) = Inr 0"
proof -
  have "genParse sampleRuntime ''{\"model\":\"m\",\"size\":\"4294967296x4294967296\"}'' =
      Inr \<lparr>gr_Model = ''m'', gr_N = None, gr_Size = ''4294967296x4294967296'', gr_Steps = None, gr_Prompt = []\<rparr>" by code_simp
  moreover have "genParseSize sampleRuntime ''4294967296x4294967296'' = Inr (4294967296, 4294967296)" by code_simp
  ultimately show ?thesis
    using image_estimate_wraps [of sampleRuntime "''{\"model\":\"m\",\"size\":\"4294967296x4294967296\"}''" _
        4294967296 4294967296 "''m''" sampleWorld]
    by (simp add: posOr_def)
qed

text \<open>The edit module reserves by the same rule from its form fields, absent or malformed numbers
  read as one image and thirty steps.\<close>

lemma edit_estimate_rounds_up:
  assumes "formOpt rt body ''size'' = None" and "formInt rt body ''n'' 1 * formInt rt body ''steps'' 30 \<le> 8000000000000"
  shows "\<exists>units. fst (editEstimate rt body model wd) = Inr units \<and>
    formInt rt body ''n'' 1 * formInt rt body ''steps'' 30 * 1048576 \<le> units * 1000000 \<and>
    units * 1000000 < formInt rt body ''n'' 1 * formInt rt body ''steps'' 30 * 1048576 + 1000000"
proof -
  define k where "k = formInt rt body ''n'' 1 * formInt rt body ''steps'' 30"
  have n: "0 < formInt rt body ''n'' 1" "0 < formInt rt body ''steps'' 30" by (simp_all add: formInt_pos)
  have d: "parseWxH rt defaultSize defaultSize = Inr (1024, 1024)"
    by code_simp
  have "fst (editEstimate rt body model wd) = Inr (ceil_div (k * 1024 * 1024) 1000000)"
    using assms megapixelUnits_ceil [OF n, of 1024 1024] d by (simp add: editEstimate_def editParseSize_def Let_def k_def)
  moreover have "k * 1048576 = k * 1024 * 1024" by simp
  moreover have "k * 1024 * 1024 \<le> ceil_div (k * 1024 * 1024) 1000000 * 1000000"
    "ceil_div (k * 1024 * 1024) 1000000 * 1000000 < k * 1024 * 1024 + 1000000"
    by (rule ceil_div_bounds, simp)+
  ultimately show ?thesis unfolding k_def [symmetric] by simp
qed

end
