(* ===== verification/Audio.thy ===== *)
theory Audio
  imports Images
begin

text \<open>
  \<open>internal/service/modules/audio_speech\<close> and \<open>audio_transcriptions\<close>: the two audio
  modules. Speech meters the characters of its input and relays the backend's stream;
  transcriptions reserve a fixed number of seconds and report the duration the backend
  states, a \<open>float64\<close> rounded up.

  A JSON number is the decimal \<open>m * 10 ^ e\<close> (\<open>numParts\<close>). \<open>float64Of\<close> is the nearest
  \<open>float64\<close>, ties to even, as a fraction with a power of two. The conversion of a
  \<open>float64\<close> beyond the range of \<open>int64\<close> is left to the machine by the language; the model
  has the value of the amd64 instruction, the smallest \<open>int64\<close>.
\<close>

section \<open>Rounding to float64\<close>

function bitLen :: "nat \<Rightarrow> nat" where
  "bitLen n = (if n = 0 then 0 else Suc (bitLen (n div 2)))"
  by pat_completeness auto
termination
  by (relation "measure id") auto

declare bitLen.simps [simp del]

definition roundHalfEven :: "int \<Rightarrow> int \<Rightarrow> int" where
  "roundHalfEven a b =
     (let q = a div b; r = a mod b
      in if 2 * r < b \<or> 2 * r = b \<and> even q then q else q + 1)"

text \<open>The fraction \<open>a / b * 2 ^ k\<close> as two integers.\<close>

definition shiftFrac :: "int \<Rightarrow> int \<Rightarrow> int \<Rightarrow> int \<times> int" where
  "shiftFrac a b k = (if 0 \<le> k then (a * 2 ^ nat k, b) else (a, b * 2 ^ nat (- k)))"

text \<open>The exponent of the \<open>float64\<close> nearest to \<open>a / b\<close>, for positive numbers, and its mantissa.\<close>

definition float64Exp :: "int \<Rightarrow> int \<Rightarrow> int" where
  "float64Exp a b =
     (let e0 = int (bitLen (nat a)) - int (bitLen (nat b));
          (x, y) = shiftFrac a b (- e0);
          fl = (if y \<le> x then e0 else e0 - 1)
      in max (-1074) (fl - 52))"

definition float64Of :: "int \<Rightarrow> int \<Rightarrow> int \<times> int" where
  "float64Of a b =
     (let k = float64Exp a b; (n, d) = shiftFrac a b (- k) in (roundHalfEven n d, k))"

definition float64Ceil :: "int \<times> int \<Rightarrow> int" where
  "float64Ceil f =
     (let (q, k) = f in if 0 \<le> k then q * 2 ^ nat k else ceil_div q (2 ^ nat (- k)))"

definition int64OfFloat :: "int \<Rightarrow> int" where
  "int64OfFloat n = (if int64_range n then n else - (2 ^ 63))"

section \<open>audio/speech\<close>

record speechRequest =
  sr_Model :: string
  sr_Input :: string

definition zeroSpeech :: speechRequest where
  "zeroSpeech = \<lparr>sr_Model = [], sr_Input = []\<rparr>"

definition speechField :: "bytes \<Rightarrow> json \<Rightarrow> speechRequest \<Rightarrow> speechRequest option" where
  "speechField k v r =
     (if k = ''model'' then map_option (\<lambda>x. r\<lparr>sr_Model := x\<rparr>) (dec_string (sr_Model r) v)
      else if k = ''input'' then map_option (\<lambda>x. r\<lparr>sr_Input := x\<rparr>) (dec_string (sr_Input r) v)
      else Some r)"

definition speechParse :: "Runtime \<Rightarrow> bytes \<Rightarrow> Err + speechRequest" where
  "speechParse rt body =
     (case (case jsonUnmarshal body of None \<Rightarrow> None | Some v \<Rightarrow> decodeStruct speechField v zeroSpeech) of
        None \<Rightarrow> Inl (rt_jsonErr rt ''audio_speech.request'' body)
      | Some r \<Rightarrow> Inr r)"

definition speechExtractModel :: "Runtime \<Rightarrow> bytes \<Rightarrow> Err + string" where
  "speechExtractModel rt body = modelOf ''audio_speech'' (map_sum (\<lambda>e. e) sr_Model (speechParse rt body))"

definition speechEstimate :: "Runtime \<Rightarrow> bytes \<Rightarrow> string \<Rightarrow> ('d, 'b) World \<Rightarrow> (Err + int) \<times> ('d, 'b) World" where
  "speechEstimate rt body model w =
     (case speechParse rt body of
        Inl e \<Rightarrow> (Inl (wrapf ''audio_speech: parse request: '' e), w)
      | Inr r \<Rightarrow> (Inr (int (runeCount (sr_Input r))), w))"

abbreviation speechCapability :: string where "speechCapability \<equiv> ''openai:/v1/audio/speech''"
abbreviation speechHTTPPath :: string where "speechHTTPPath \<equiv> ''/v1/audio/speech''"

text \<open>\<open>io.Copy(w, stream)\<close>: what is read is written before a read error counts.\<close>

definition ioCopy :: "Stream \<Rightarrow> statusWriter \<Rightarrow> Err option \<times> statusWriter" where
  "ioCopy stream s =
     (if sm_data stream = [] then (sm_err stream, s)
      else case swWrite (sm_data stream) s of
             (Some e, s1) \<Rightarrow> (Some e, s1)
           | (None, s1) \<Rightarrow> (sm_err stream, s1))"

definition speechServe ::
    "('d, 'b) Backend \<Rightarrow> bool \<Rightarrow> statusWriter \<Rightarrow> Request \<Rightarrow> bytes \<Rightarrow> string \<Rightarrow> string \<Rightarrow>
       ('d, 'b) World \<Rightarrow> served \<times> statusWriter \<times> ('d, 'b) World" where
  "speechServe backend recNil s _ body model backendURL w =
     (let ((status, backendHeaders, stream, err), w1) =
        bk_DoStream (backendWithMetrics backend recNil speechCapability model) (targetURL backendURL speechHTTPPath) body w
      in case err of
           Some e \<Rightarrow> backendDown ''audio_speech: backend DoStream: '' e s w1
         | None \<Rightarrow>
             let ct0 = headerGet ''Content-Type'' backendHeaders;
                 contentType = (if ct0 = [] then ''audio/mpeg'' else ct0);
                 (p, s1) = swWriteHeader status (swSet ''Content-Type'' contentType s)
             in if p then (Panicked, s1, w1)
                else (case ioCopy stream s1 of
                        (Some e, s2) \<Rightarrow> (Returned 0 (Some (wrapf ''audio_speech: pipe stream: '' e)), s2, w1)
                      | (None, s2) \<Rightarrow> (Returned 0 None, s2, w1)))"

definition speechModule :: "Runtime \<Rightarrow> ('d, 'b) Backend \<Rightarrow> bool \<Rightarrow> ('d, 'b) Module" where
  "speechModule rt backend recNil =
     \<lparr>m_Capability = speechCapability, m_HTTPMethod = MethodPost, m_HTTPPath = speechHTTPPath,
      m_Unit = UnitCharacter, m_ExtractModel = speechExtractModel rt,
      m_EstimateWorkUnits = speechEstimate rt, m_Serve = speechServe backend recNil\<rparr>"

section \<open>audio/transcriptions\<close>

abbreviation (input) DefaultMaxAudioSeconds :: int where "DefaultMaxAudioSeconds \<equiv> 3600"

definition transExtractModel :: "Runtime \<Rightarrow> bytes \<Rightarrow> Err + string" where
  "transExtractModel rt body = formModel rt ''audio_transcriptions'' body"

definition transEstimate :: "int \<Rightarrow> bytes \<Rightarrow> string \<Rightarrow> ('d, 'b) World \<Rightarrow> (Err + int) \<times> ('d, 'b) World" where
  "transEstimate maxAudioSecondsCeil body model w =
     (if maxAudioSecondsCeil \<le> 0 then (Inr DefaultMaxAudioSeconds, w) else (Inr maxAudioSecondsCeil, w))"

definition durationField :: "bytes \<Rightarrow> json \<Rightarrow> json \<Rightarrow> json option" where
  "durationField k v old = (if k = ''duration'' then dec_any v else Some old)"

text \<open>The seconds a JSON number stands for, rounded up; nothing unless it is positive.\<close>

definition secondsOf :: "string \<Rightarrow> int" where
  "secondsOf lit =
     (let (m, e) = numParts lit in
      if m \<le> 0 then 0
      else
        let (a, b) = (if 0 \<le> e then (m * 10 ^ nat e, 1) else (m, 10 ^ nat (- e)));
            (q, k) = float64Of a b
        in if q \<le> 0 then 0 else int64OfFloat (float64Ceil (q, k)))"

definition durationFromResponse :: "bytes \<Rightarrow> int" where
  "durationFromResponse respBody =
     (case (case jsonUnmarshal respBody of None \<Rightarrow> None | Some v \<Rightarrow> decodeStruct durationField v JNull) of
        None \<Rightarrow> 0
      | Some (JNum lit) \<Rightarrow> secondsOf lit
      | Some _ \<Rightarrow> 0)"

abbreviation transCapability :: string where "transCapability \<equiv> ''openai:/v1/audio/transcriptions''"
abbreviation transHTTPPath :: string where "transHTTPPath \<equiv> ''/v1/audio/transcriptions''"

definition transServe ::
    "('d, 'b) Backend \<Rightarrow> bool \<Rightarrow> statusWriter \<Rightarrow> Request \<Rightarrow> bytes \<Rightarrow> string \<Rightarrow> string \<Rightarrow>
       ('d, 'b) World \<Rightarrow> served \<times> statusWriter \<times> ('d, 'b) World" where
  "transServe = serveForm ''audio_transcriptions'' transCapability transHTTPPath durationFromResponse"

definition transModule :: "Runtime \<Rightarrow> ('d, 'b) Backend \<Rightarrow> bool \<Rightarrow> ('d, 'b) Module" where
  "transModule rt backend recNil =
     \<lparr>m_Capability = transCapability, m_HTTPMethod = MethodPost, m_HTTPPath = transHTTPPath,
      m_Unit = UnitAudioSecond, m_ExtractModel = transExtractModel rt,
      m_EstimateWorkUnits = transEstimate DefaultMaxAudioSeconds, m_Serve = transServe backend recNil\<rparr>"

section \<open>Whole seconds are kept\<close>

lemma bitLen_le: "n < 2 ^ k \<Longrightarrow> bitLen n \<le> k"
proof (induction k arbitrary: n)
  case 0
  then show ?case by (simp add: bitLen.simps)
next
  case (Suc k)
  then have "n div 2 < 2 ^ k" by (simp add: less_mult_imp_div_less)
  then show ?case using Suc.IH by (subst bitLen.simps) simp
qed

lemma float64Exp_whole:
  assumes "n < 2 ^ 53"
  shows "float64Exp n 1 \<le> 0"
proof -
  have "nat n < 2 ^ 53" using assms by simp
  then have "bitLen (nat n) \<le> 53" by (rule bitLen_le)
  moreover have "bitLen (nat 1) = 1" by (simp add: bitLen.simps)
  ultimately have "int (bitLen (nat n)) - int (bitLen (nat 1)) \<le> 52" by simp
  then show ?thesis unfolding float64Exp_def Let_def by (simp split: prod.split)
qed

lemma float64_whole:
  assumes "0 < n" and "n < 2 ^ 53"
  shows "float64Ceil (float64Of n 1) = n" and "0 < fst (float64Of n 1)"
proof -
  define j where "j = nat (- float64Exp n 1)"
  have "float64Exp n 1 = - int j" using float64Exp_whole [OF assms(2)] by (simp add: j_def)
  then have j: "float64Of n 1 = (n * 2 ^ j, - int j)"
    by (simp add: float64Of_def shiftFrac_def roundHalfEven_def)
  have "ceil_div (n * 2 ^ j) (2 ^ j) = n" by (rule ceil_div_unique [symmetric]) simp_all
  then show "float64Ceil (float64Of n 1) = n" using j by (cases "j = 0") (simp_all add: float64Ceil_def Let_def)
  show "0 < fst (float64Of n 1)" using j assms(1) by simp
qed

section \<open>The audio modules are quiet\<close>

lemma durationFromResponse_range: "int64_range (durationFromResponse b)"
proof -
  have "int64_range (secondsOf lit)" for lit
    by (simp add: secondsOf_def int64OfFloat_def int64_range_def Let_def split: prod.splits)
  then show ?thesis
    by (auto simp: durationFromResponse_def int64_range_def split: option.splits json.splits)
qed

lemma speechServe_range: "fst (speechServe c recNil s r body model url w) = Returned n e \<Longrightarrow> int64_range n"
  by (auto simp: speechServe_def backendDown_def Let_def int64_range_def
      split: option.splits prod.splits if_splits)

context quiet_backend
begin

lemma speechServe_quiet:
  "extends w (snd (snd (speechServe c recNil s r body model url w)))"
  "w_daemon (snd (snd (speechServe c recNil s r body model url w))) = w_daemon w"
  using quiet_backend.quiet_stream [OF WithMetrics_quiet] quiet_backend.daemon_stream [OF WithMetrics_quiet]
  by (simp_all add: speechServe_def backendDown_def Let_def split_beta split: option.splits prod.splits)

end

lemma speechModule_quiet: "quiet_backend c \<Longrightarrow> quiet_module (speechModule rt c recNil)"
  using quiet_backend.speechServe_quiet [of c] speechServe_range
  by unfold_locales (simp_all add: speechModule_def speechEstimate_def split: sum.splits)

lemma transModule_quiet: "quiet_backend c \<Longrightarrow> quiet_module (transModule rt c recNil)"
  using quiet_backend.serveForm_quiet [of c] serveForm_range [OF durationFromResponse_range]
  by unfold_locales (simp_all add: transModule_def transServe_def transEstimate_def)

section \<open>Correctness\<close>

lemma digits_all: "list_all isDigit s \<Longrightarrow> digits s = s"
  by (induction s) (auto simp: digits_def)

lemma numParts_showNat: "numParts (showNat n) = (int n, 0)"
proof -
  have d: "list_all isDigit (showNat n)" using showNat_digits by (auto simp: list_all_iff)
  have "\<not> hasPrefix ''-'' (showNat n)"
    using d not_digit_sign(1) by (cases "showNat n") (auto simp: hasPrefix_def simp del: not_digit_sign)
  moreover have "parseNat (showNat n) = Some n" using parseDigits_showNat by (simp add: parseNat_def)
  ultimately show ?thesis using digits_all [OF d] by (simp add: numParts_def Let_def hasPrefix_def)
qed

lemma secondsOf_whole:
  assumes "0 < n" and "n < 2 ^ 53"
  shows "secondsOf (showNat n) = int n"
proof -
  have n: "0 < int n" "int n < 2 ^ 53" using assms by (simp_all add: nat_less_numeral_power_cancel_iff)
  note f = float64_whole [OF n]
  have "int64OfFloat (float64Ceil (float64Of (int n) 1)) = int n"
    unfolding f(1) using n by (simp add: int64OfFloat_def int64_range_def)
  then show ?thesis using f(2) n(1)
    by (cases "float64Of (int n) 1") (simp add: secondsOf_def numParts_showNat)
qed

text \<open>A transcription whose answer states a whole number of seconds below \<open>2 ^ 53\<close> is metered at
  exactly that number.\<close>

theorem duration_whole_seconds:
  assumes "jsonUnmarshal body = Some (JObj [(''duration'', JNum (showNat n))])" and "0 < n" and "n < 2 ^ 53"
  shows "durationFromResponse body = int n"
proof -
  have "int n < 2 ^ 53" using assms(3) by (simp add: nat_less_numeral_power_cancel_iff)
  then have "float64_ok (showNat n)" by (simp add: float64_ok_def numParts_showNat)
  moreover have "foldKey ''duration'' = ''duration''" by code_simp
  ultimately show ?thesis
    using assms(1) secondsOf_whole [OF assms(2,3)]
    by (simp add: durationFromResponse_def decodeStruct_def durationField_def dec_any_def)
qed

theorem duration_whole_seconds_witness: "durationFromResponse ''{\"duration\":12}'' = 12"
proof -
  have "jsonUnmarshal ''{\"duration\":12}'' = Some (JObj [(''duration'', JNum ''12'')])" by code_simp
  moreover have "showNat 12 = ''12''" by code_simp
  ultimately show ?thesis using duration_whole_seconds [of "''{\"duration\":12}''" 12] by simp
qed

text \<open>C31 Speech is metered by the characters (runes) of its input, not its bytes, and the audio passes
  through: on a fresh response to a client that reads on, the client gets the backend's
  status and bytes and, of the backend's headers, the content type alone (\<open>audio/mpeg\<close> when it has
  none), and no further units are reported.\<close>

theorem speech_relays:
  assumes "speechParse rt body = Inr r"
    and "bk_DoStream (backendWithMetrics backend recNil speechCapability model) (targetURL url speechHTTPPath) body w =
           ((status, h, stream, None), w1)"
    and "wr_sent (sw_ResponseWriter s) = None" and "wr_accepts (sw_ResponseWriter s) = None"
    and "finalStatus status" and "bodyAllowed status"
  shows "fst (speechEstimate rt body model w) = Inr (int (runeCount (sr_Input r))) \<and>
    (\<exists>s'. speechServe backend recNil s q body model url w =
       (Returned 0 (map_option (wrapf ''audio_speech: pipe stream: '') (sm_err stream)), s', w1) \<and>
     wr_body (sw_ResponseWriter s') = wr_body (sw_ResponseWriter s) @ sm_data stream \<and>
     wr_sent (sw_ResponseWriter s') = Some (status, headerSet ''Content-Type''
       (if headerGet ''Content-Type'' h = [] then ''audio/mpeg'' else headerGet ''Content-Type'' h)
       (wr_header (sw_ResponseWriter s))))"
proof -
  define ct where "ct = (if headerGet ''Content-Type'' h = [] then ''audio/mpeg'' else headerGet ''Content-Type'' h)"
  define s1 where "s1 = snd (swWriteHeader status (swSet ''Content-Type'' ct s))"
  have s1: "swWriteHeader status (swSet ''Content-Type'' ct s) = (False, s1)"
    "wr_sent (sw_ResponseWriter s1) = Some (status, headerSet ''Content-Type'' ct (wr_header (sw_ResponseWriter s)))"
    "wr_body (sw_ResponseWriter s1) = wr_body (sw_ResponseWriter s)" "wr_accepts (sw_ResponseWriter s1) = None"
    using assms(3-5) sw_laws(5) [of "swSet ''Content-Type'' ct s" status]
    by (simp_all add: s1_def sw_laws finalStatus_def prod_eq_iff)
  have "\<exists>s'. ioCopy stream s1 = (sm_err stream, s') \<and> wr_body (sw_ResponseWriter s') = wr_body (sw_ResponseWriter s1) @ sm_data stream \<and>
      wr_sent (sw_ResponseWriter s') = wr_sent (sw_ResponseWriter s1)"
  proof (cases "sm_data stream = []")
    case False
    let ?s' = "snd (swWrite (sm_data stream) s1)"
    have "fst (swWrite (sm_data stream) s1) = None" "wr_body (sw_ResponseWriter ?s') = wr_body (sw_ResponseWriter s1) @ sm_data stream"
      using swWriter.write_body [of s1, OF s1(2) assms(6)] s1(4) by simp_all
    moreover have "wr_sent (sw_ResponseWriter ?s') = wr_sent (sw_ResponseWriter s1)" using s1(2) sw_laws(8) by simp
    ultimately show ?thesis using False by (intro exI [of _ ?s']) (cases "swWrite (sm_data stream) s1", simp add: ioCopy_def)
  qed (simp add: ioCopy_def)
  then show ?thesis using assms(1,2) s1 unfolding ct_def [symmetric]
    by (cases "sm_err stream") (auto simp: speechServe_def speechEstimate_def ct_def)
qed

theorem speech_relays_witness:
  "fst (speechEstimate sampleRuntime ''{\"model\":\"m\",\"input\":\"hi\"}'' ''m'' sampleWorld) = Inr 2 \<and>
   (\<exists>s'. speechServe (fetchClient (sampleTransport ''mp3'')) True (newStatusWriter (NewRespWriter None))
      \<lparr>rq_Method = ''POST'', rq_Path = ''/v1/audio/speech'', rq_Header = [], rq_Body = [], rq_BodyErr = None, rq_CtxErr = None\<rparr>
      ''{\"model\":\"m\",\"input\":\"hi\"}'' ''m'' ''http://h'' sampleWorld = (Returned 0 None, s', sampleWorld) \<and>
    wr_body (sw_ResponseWriter s') = ''mp3'')"
proof -
  have u: "urlParseOk (targetURL ''http://h'' speechHTTPPath)" by code_simp
  have p: "speechParse sampleRuntime ''{\"model\":\"m\",\"input\":\"hi\"}'' = Inr \<lparr>sr_Model = ''m'', sr_Input = ''hi''\<rparr>" by code_simp
  have n: "runeCount ''hi'' = 2" by code_simp
  have "bk_DoStream (backendWithMetrics (fetchClient (sampleTransport ''mp3'')) True speechCapability ''m'')
      (targetURL ''http://h'' speechHTTPPath) ''{\"model\":\"m\",\"input\":\"hi\"}'' sampleWorld =
      ((200, [], \<lparr>sm_data = ''mp3'', sm_err = None\<rparr>, None), sampleWorld)"
    using u by (simp add: backendWithMetrics_def fetchClient_def fetchDoStream_def sampleTransport_def)
  from speech_relays [OF p this, of "newStatusWriter (NewRespWriter None)"] n show ?thesis
    by (auto simp: newStatusWriter_def NewRespWriter_def finalStatus_def bodyAllowed_def)
qed

end
