(* ===== verification/Startup.thy ===== *)
theory Startup
  imports Mux Chat Embeddings Audio
begin

text \<open>
  \<open>cmd/openai-worker-node/main.go\<close>: the composition root. \<open>run\<close> is the start-up sequence up
  to the point where the server takes requests: it exits with the source's code, panics,
  or ends with a populated mux. What the process does from there on is in
  \<open>Lifecycle\<close>.

  The environment has the flags' parse result, the YAML decoder and the file system, the
  gRPC connection to the daemon, the tiktoken library and the backend's transport. The logger's
  output is not modelled. The recorder of \<open>main\<close> is never nil, so every decorator meters.
\<close>

section \<open>Flags\<close>

record Flags =
  fl_configPath :: string
  fl_logLevel :: string
  fl_metricsListen :: string
  fl_metricsMaxSeriesPerMetric :: int

text \<open>\<open>net.SplitHostPort\<close>: the host and the port, or an error.\<close>

definition splitHostPort :: "string \<Rightarrow> (string \<times> string) option" where
  "splitHostPort hp =
     (case cutLast (CHR '':'') hp of
        None \<Rightarrow> None
      | Some (before, port) \<Rightarrow>
          let i = length before in
          if hasPrefix ''['' hp then
            (if CHR '']'' \<notin> set hp then None
             else let end1 = length (takeWhile (\<lambda>c. c \<noteq> CHR '']'') hp) in
                  if end1 + 1 = i \<and> CHR ''['' \<notin> set (drop 1 hp) \<and> CHR '']'' \<notin> set (drop (end1 + 1) hp)
                  then Some (take (end1 - 1) (drop 1 hp), port) else None)
          else if CHR '':'' \<in> set before \<or> CHR ''['' \<in> set hp \<or> CHR '']'' \<in> set hp then None
          else Some (before, port))"

datatype listenError = BadHostPort | PortRequired | PortNotInteger | PortRange int

definition validateMetricsListen :: "string \<Rightarrow> listenError option" where
  "validateMetricsListen addr =
     (if addr = [] then None
      else case splitHostPort addr of
             None \<Rightarrow> Some BadHostPort
           | Some (_, port) \<Rightarrow>
               if port = [] then Some PortRequired
               else case atoi port of
                      None \<Rightarrow> Some PortNotInteger
                    | Some p \<Rightarrow> if p < 1024 \<or> 65535 < p then Some (PortRange p) else None)"

datatype logLevel = LevelDebug | LevelInfo | LevelWarn | LevelError

text \<open>The levels are ordered as their numbers in \<open>log/slog\<close>; a handler writes the records at its
  level and above.\<close>

fun slogLevel :: "logLevel \<Rightarrow> int" where
  "slogLevel LevelDebug = -4" | "slogLevel LevelInfo = 0" | "slogLevel LevelWarn = 4" | "slogLevel LevelError = 8"

instantiation logLevel :: linorder
begin

definition less_eq_logLevel :: "logLevel \<Rightarrow> logLevel \<Rightarrow> bool" where
  "a \<le> b \<longleftrightarrow> slogLevel a \<le> slogLevel b"

definition less_logLevel :: "logLevel \<Rightarrow> logLevel \<Rightarrow> bool" where
  "a < b \<longleftrightarrow> slogLevel a < slogLevel b"

instance
proof
  fix a b :: logLevel
  show "a \<le> b \<Longrightarrow> b \<le> a \<Longrightarrow> a = b" by (cases a; cases b) (simp_all add: less_eq_logLevel_def)
qed (auto simp: less_eq_logLevel_def less_logLevel_def)

end

text \<open>The level, and whether the default was taken for an unknown name.\<close>

definition buildLogger :: "string \<Rightarrow> logLevel \<times> bool" where
  "buildLogger level =
     (if level = ''debug'' then (LevelDebug, False)
      else if level = ''info'' then (LevelInfo, False)
      else if level = ''warn'' then (LevelWarn, False)
      else if level = ''error'' then (LevelError, False)
      else (LevelInfo, True))"

text \<open>No level silences the errors that explain an exit.\<close>

lemma buildLogger_errors: "fst (buildLogger level) \<le> LevelError"
  by (simp add: buildLogger_def less_eq_logLevel_def)

section \<open>The capability catalog of the binary\<close>

definition moduleFor ::
    "Runtime \<Rightarrow> ('d, 'b) Tokenizer \<Rightarrow> ('d, 'b) Backend \<Rightarrow> string \<Rightarrow> ('d, 'b) Module option" where
  "moduleFor rt tok backend cap =
     (if cap = chatCapability then Some (chatModule rt tok backend False)
      else if cap = embCapability then Some (embModule rt tok backend False)
      else if cap = genCapability then Some (genModule rt backend False)
      else if cap = speechCapability then Some (speechModule rt backend False)
      else if cap = editCapability then Some (editModule rt backend False)
      else if cap = transCapability then Some (transModule rt backend False)
      else None)"

fun registerModules ::
    "Runtime \<Rightarrow> ('d, 'b) Tokenizer \<Rightarrow> ('d, 'b) Backend \<Rightarrow> CapabilityEntry list \<Rightarrow> nat \<Rightarrow> ('d, 'b) Mux \<Rightarrow>
       (nat \<times> ('d, 'b) Mux) option" where
  "registerModules rt tok backend [] registered m = Some (registered, m)"
| "registerModules rt tok backend (entry # es) registered m =
     (case moduleFor rt tok backend (ce_Capability entry) of
        None \<Rightarrow> registerModules rt tok backend es registered m
      | Some md \<Rightarrow>
          (case RegisterPaidRoute md m of
             None \<Rightarrow> None
           | Some m1 \<Rightarrow> registerModules rt tok backend es (Suc registered) m1))"

definition missingCapabilityModules :: "('d, 'b) Mux \<Rightarrow> Config \<Rightarrow> string list" where
  "missingCapabilityModules m cfg =
     filter (\<lambda>c. \<not> HasPaidCapability m c) (map ce_Capability (Ordered (Capabilities cfg)))"

section \<open>The start-up sequence\<close>

record ('d, 'b) Env =
  en_flags :: "Flags option"
  en_decodeYAML :: "bytes \<Rightarrow> (Err + yamlConfig) \<times> yamlTail"
  en_openFile :: "string \<Rightarrow> Err + bytes"
  en_newClient :: "string \<Rightarrow> Err + 'd Stub"
  en_tiktoken :: Tiktoken
  en_transport :: "'b Transport"
  en_runtime :: Runtime
  en_version :: string
  en_goVersion :: string

datatype ('d, 'b) started = Exited int | StartPanic | Started "('d, 'b) Mux"

text \<open>The recorder of the process, by its flags.\<close>

definition startRecorder :: "('d, 'b) Env \<Rightarrow> workerRecorder option" where
  "startRecorder en =
     map_option (\<lambda>fl. chooseRecorder (fl_metricsListen fl) (fl_metricsMaxSeriesPerMetric fl)) (en_flags en)"

definition buildMux :: "('d, 'b) Env \<Rightarrow> Config \<Rightarrow> ('d, 'b) Client \<Rightarrow> ('d, 'b) started" where
  "buildMux en cfg payee =
     (let tok = tokenizerWithMetrics (NewTiktoken (en_tiktoken en) (Some (NewWordCount 133))) False;
          backend = fetchClient (en_transport en)
      in case RegisterUnpaidHandlers (en_runtime en) cfg (WithRecorder (startRecorder en) (NewMux cfg payee)) of
           None \<Rightarrow> StartPanic
         | Some m1 \<Rightarrow>
             (case registerModules (en_runtime en) tok backend (Ordered (Capabilities cfg)) 0 m1 of
                None \<Rightarrow> StartPanic
              | Some (registered, m2) \<Rightarrow>
                  if registered = 0 then Exited 1
                  else if missingCapabilityModules m2 cfg \<noteq> [] then Exited 1
                  else Started m2))"

text \<open>The deferred \<open>rawPayee.Close()\<close> of a start-up that ends here; its error is dropped.\<close>

definition closePayee :: "'d Stub \<Rightarrow> ('d, 'b) started \<times> ('d, 'b) World \<Rightarrow> ('d, 'b) started \<times> ('d, 'b) World" where
  "closePayee st x =
     (case x of
        (Started m, w) \<Rightarrow> (Started m, w)
      | (r, w) \<Rightarrow> (r, w\<lparr>w_daemon := snd (grpcClose st (w_daemon w))\<rparr>))"

definition run :: "('d, 'b) Env \<Rightarrow> ('d, 'b) World \<Rightarrow> ('d, 'b) started \<times> ('d, 'b) World" where
  "run en w =
     (case en_flags en of
        None \<Rightarrow> (Exited 2, w)
      | Some fl \<Rightarrow>
          if validateMetricsListen (fl_metricsListen fl) \<noteq> None then (Exited 2, w)
          else case Load (en_decodeYAML en) (en_openFile en) (fl_configPath fl) of
            Inl _ \<Rightarrow> (Exited 1, w)
          | Inr cfg \<Rightarrow>
              let w1 = emit (SetMaxConcurrent (MaxConcurrentRequests (Worker cfg)))
                         (emit (SetBuildInfo (en_version en) (showInt (ProtocolVersion cfg)) (en_goVersion en)) w)
              in case Dial (rt_quote (en_runtime en)) (en_newClient en) (PaymentDaemonSocket (Worker cfg)) of
                   Inl _ \<Rightarrow> (Exited 1, w1)
                 | Inr stub \<Rightarrow>
                     closePayee stub
                      (let payee = WithMetrics (grpcClient stub) False in
                       if VerifyDaemonConsistencyOnStart (Worker cfg) then
                         (case cl_ListCapabilities payee w1 of
                            (Inl _, w2) \<Rightarrow> (Exited 1, w2)
                          | (Inr catalog, w2) \<Rightarrow>
                              if VerifyDaemonCatalog (Some cfg) catalog \<noteq> None then (Exited 1, w2)
                              else (buildMux en cfg payee, w2))
                       else (buildMux en cfg payee, w1)))"

lemma closePayee_fst [simp]: "fst (closePayee st x) = fst x"
  by (auto simp: closePayee_def split: prod.splits started.splits)

lemma closePayee_result [simp]: "\<exists>w1. closePayee st (r, w) = (r, w1)"
  by (cases r) (auto simp: closePayee_def)

lemma closePayee_started [simp]: "closePayee st x = (Started m, w) \<longleftrightarrow> x = (Started m, w)"
  by (auto simp: closePayee_def split: prod.splits started.splits)

section \<open>The modules of the binary\<close>

lemma moduleFor_facts:
  "moduleFor rt tok backend c = Some md \<Longrightarrow>
     m_Capability md = c \<and> m_HTTPMethod md = ''POST'' \<and> c = ''openai:'' @ m_HTTPPath md \<and>
     m_HTTPPath md \<noteq> ''/v1/payment/ticket-params''"
  by (auto simp: moduleFor_def chatModule_def embModule_def genModule_def speechModule_def editModule_def
      transModule_def split: if_splits)

lemma moduleFor_paths:
  "moduleFor rt tok backend c = Some md \<Longrightarrow>
     m_HTTPPath md \<in> {chatHTTPPath, embHTTPPath, genHTTPPath, speechHTTPPath, editHTTPPath, transHTTPPath}"
  by (auto simp: moduleFor_def chatModule_def embModule_def genModule_def speechModule_def editModule_def
      transModule_def split: if_splits)

lemma moduleFor_quiet:
  assumes "token_counter tok cacheInv cnt" and "quiet_backend backend" and "moduleFor rt tok backend c = Some md"
  shows "quiet_module md"
  using assms(3) chatModule_quiet [OF assms(1,2)] embModule_quiet [OF assms(1,2)] genModule_quiet [OF assms(2)]
    speechModule_quiet [OF assms(2)] editModule_quiet [OF assms(2)] transModule_quiet [OF assms(2)]
  by (auto simp: moduleFor_def split: if_splits)

text \<open>The state of the mux while the modules are registered: a route is an unpaid one, or of a
  capability already seen.\<close>

definition registering :: "string set \<Rightarrow> ('d, 'b) Mux \<Rightarrow> bool" where
  "registering seen m \<longleftrightarrow>
     (\<forall>k\<in>fst ` set (mx_routes m). k \<in> set unpaidRoutes \<or> ''openai:'' @ snd k \<in> seen)"

lemma registering_step:
  assumes "registering seen m" and "moduleFor rt tok backend c = Some md" and "c \<notin> seen"
  shows "\<exists>m1. RegisterPaidRoute md m = Some m1 \<and> registering (insert c seen) m1"
proof -
  note f = moduleFor_facts [OF assms(2)]
  have "(m_HTTPMethod md, m_HTTPPath md) \<notin> set unpaidRoutes" using f by (auto simp: unpaidRoutes_def)
  moreover have "''openai:'' @ m_HTTPPath md \<notin> seen" using f assms(3) by metis
  ultimately have "(m_HTTPMethod md, m_HTTPPath md) \<notin> fst ` set (mx_routes m)"
    using assms(1) unfolding registering_def by fastforce
  then show ?thesis using assms(1) f by (auto simp: RegisterPaidRoute_def registering_def)
qed

lemma registerModules_ok:
  assumes "distinct (map ce_Capability es)" and "seen \<inter> set (map ce_Capability es) = {}"
    and "registering seen m" and "muxOk m"
  shows "\<exists>n m'. registerModules rt tok backend es k m = Some (n, m') \<and> muxOk m' \<and>
    mx_cfg m' = mx_cfg m \<and> mx_payee m' = mx_payee m \<and> mx_paidSem m' = mx_paidSem m \<and> mx_recorder m' = mx_recorder m \<and>
    (\<forall>md. PaidRoute md \<in> snd ` set (mx_routes m') \<longrightarrow>
       PaidRoute md \<in> snd ` set (mx_routes m) \<or> (\<exists>c. moduleFor rt tok backend c = Some md))"
  using assms
proof (induction es arbitrary: seen k m)
  case (Cons e es)
  show ?case
  proof (cases "moduleFor rt tok backend (ce_Capability e)")
    case None
    then show ?thesis using Cons.IH [of seen m k] Cons.prems by simp
  next
    case (Some md)
    obtain m1 where m1: "RegisterPaidRoute md m = Some m1" "registering (insert (ce_Capability e) seen) m1"
      using registering_step [OF Cons.prems(3) Some] Cons.prems(2) by auto
    have ok1: "muxOk m1" using muxOk_RegisterPaidRoute [OF Cons.prems(4) m1(1)] .
    have same: "mx_cfg m1 = mx_cfg m" "mx_payee m1 = mx_payee m" "mx_paidSem m1 = mx_paidSem m" "mx_recorder m1 = mx_recorder m"
      "snd ` set (mx_routes m1) = insert (PaidRoute md) (snd ` set (mx_routes m))"
      using m1(1) by (auto simp: RegisterPaidRoute_def split: if_splits)
    have "insert (ce_Capability e) seen \<inter> set (map ce_Capability es) = {}" using Cons.prems(1,2) by auto
    from Cons.IH [OF _ this m1(2) ok1, of "Suc k"] Cons.prems(1) obtain n m' where
      "registerModules rt tok backend es (Suc k) m1 = Some (n, m')" "muxOk m'"
      "mx_cfg m' = mx_cfg m1" "mx_payee m' = mx_payee m1" "mx_paidSem m' = mx_paidSem m1" "mx_recorder m' = mx_recorder m1"
      "\<forall>md. PaidRoute md \<in> snd ` set (mx_routes m') \<longrightarrow>
         PaidRoute md \<in> snd ` set (mx_routes m1) \<or> (\<exists>c. moduleFor rt tok backend c = Some md)"
      by auto
    then show ?thesis using Some m1 same by auto
  qed
qed simp

lemma RegisterUnpaidHandlers_New:
  "\<exists>m1. RegisterUnpaidHandlers rt cfg (WithRecorder rec (NewMux cfg payee)) = Some m1 \<and> registering {} m1 \<and>
     mx_cfg m1 = cfg \<and> mx_payee m1 = payee \<and> mx_paidSem m1 = mx_paidSem (NewMux cfg payee) \<and>
     mx_recorder m1 = mx_recorder (WithRecorder rec (NewMux cfg payee)) \<and>
     (\<forall>md. PaidRoute md \<notin> snd ` set (mx_routes m1))"
  by (auto simp: WithRecorder_def RegisterUnpaidHandlers_def Register_def NewMux_def registering_def unpaidRoutes_def Let_def)

text \<open>What a mux that is started looks like.\<close>

definition startedOk :: "('d, 'b) Env \<Rightarrow> Config \<Rightarrow> ('d, 'b) Client \<Rightarrow> ('d, 'b) Mux \<Rightarrow> bool" where
  "startedOk en cfg payee m \<longleftrightarrow> muxOk m \<and> mx_cfg m = cfg \<and> mx_payee m = payee \<and>
     mx_paidSem m = mx_paidSem (NewMux cfg payee) \<and>
     mx_recorder m = mx_recorder (WithRecorder (startRecorder en) (NewMux cfg payee)) \<and>
     (\<forall>e\<in>set (Ordered (Capabilities cfg)). HasPaidCapability m (ce_Capability e)) \<and>
     (\<forall>md. PaidRoute md \<in> snd ` set (mx_routes m) \<longrightarrow>
        (\<exists>c. moduleFor (en_runtime en) (tokenizerWithMetrics (NewTiktoken (en_tiktoken en) (Some (NewWordCount 133))) False)
               (fetchClient (en_transport en)) c = Some md))"

lemma buildMux_cases:
  assumes "distinct (map ce_Capability (Ordered (Capabilities cfg)))"
  shows "buildMux en cfg payee = Exited 1 \<or> (\<exists>m. buildMux en cfg payee = Started m \<and> startedOk en cfg payee m)"
proof -
  obtain m1 where m1: "RegisterUnpaidHandlers (en_runtime en) cfg (WithRecorder (startRecorder en) (NewMux cfg payee)) = Some m1"
    "registering {} m1"
    "mx_cfg m1 = cfg" "mx_payee m1 = payee" "\<forall>md. PaidRoute md \<notin> snd ` set (mx_routes m1)"
    "mx_paidSem m1 = mx_paidSem (NewMux cfg payee)"
    "mx_recorder m1 = mx_recorder (WithRecorder (startRecorder en) (NewMux cfg payee))"
    using RegisterUnpaidHandlers_New by blast
  have "muxOk m1" using muxOk_RegisterUnpaidHandlers [OF muxOk_WithRecorder [OF muxOk_New] m1(1)] .
  from registerModules_ok [OF assms _ m1(2) this, of "en_runtime en"
      "tokenizerWithMetrics (NewTiktoken (en_tiktoken en) (Some (NewWordCount 133))) False"
      "fetchClient (en_transport en)" 0]
  obtain n m' where r: "registerModules (en_runtime en)
      (tokenizerWithMetrics (NewTiktoken (en_tiktoken en) (Some (NewWordCount 133))) False)
      (fetchClient (en_transport en)) (Ordered (Capabilities cfg)) 0 m1 = Some (n, m')"
    and ok: "muxOk m'" "mx_cfg m' = cfg" "mx_payee m' = payee" "mx_paidSem m' = mx_paidSem (NewMux cfg payee)"
      "mx_recorder m' = mx_recorder (WithRecorder (startRecorder en) (NewMux cfg payee))"
      "\<forall>md. PaidRoute md \<in> snd ` set (mx_routes m') \<longrightarrow>
        (\<exists>c. moduleFor (en_runtime en) (tokenizerWithMetrics (NewTiktoken (en_tiktoken en) (Some (NewWordCount 133))) False)
           (fetchClient (en_transport en)) c = Some md)"
    using m1 by auto
  show ?thesis
  proof (cases "n = 0 \<or> missingCapabilityModules m' cfg \<noteq> []")
    case True
    then show ?thesis using m1(1) r by (auto simp: buildMux_def Let_def)
  next
    case False
    then have "buildMux en cfg payee = Started m'" using m1(1) r by (simp add: buildMux_def Let_def)
    moreover have "startedOk en cfg payee m'"
      using False ok by (simp add: startedOk_def missingCapabilityModules_def filter_empty_conv)
    ultimately show ?thesis by blast
  qed
qed

lemma Load_distinct:
  assumes "Load decode openFile path = Inr cfg"
  shows "distinct (map ce_Capability (Ordered (Capabilities cfg)))"
proof -
  obtain y where "wfYaml y" "cfg = projectFromYAML y" using Load_wf [OF assms] by blast
  then show ?thesis
    using wfYaml_catalogOk [of y] by (simp add: projectFromYAML_def New_def catalogOk_def Let_def)
qed

section \<open>The paid routes of a running worker\<close>

text \<open>
  The configuration a worker runs with: the projection of a file that validates. A file
  that does not is refused by \<open>Load\<close>; it has no routes.
\<close>

definition runningConfig :: "yamlConfig \<Rightarrow> Config" where
  "runningConfig y =
     (if validate (Some y) = None then projectFromYAML y
      else New \<lparr>HTTPListen = [], PaymentDaemonSocket = [], MaxConcurrentRequests = 0,
                VerifyDaemonConsistencyOnStart = False\<rparr> [])"

lemma runningConfig_valid: "wfYaml y \<Longrightarrow> runningConfig y = projectFromYAML y"
  by (simp add: runningConfig_def validate_wf)

lemma runningConfig_price: "Lookup (runningConfig y) cap model = Some r \<Longrightarrow> wfPrice (mr_PricePerWorkUnitWei r)"
  using Lookup_price [of y cap model r]
  by (auto simp: runningConfig_def validate_wf Lookup_def New_def split: if_splits)

definition workerTok :: "Tiktoken \<Rightarrow> ('d, 'b) Tokenizer" where
  "workerTok lib = tokenizerWithMetrics (NewTiktoken lib (Some (NewWordCount 133))) False"

definition routeDeps :: "('d, 'b) Module \<Rightarrow> yamlConfig \<Rightarrow> ('d, 'b) Client \<Rightarrow> nat \<Rightarrow> ('d, 'b) paidRouteDeps" where
  "routeDeps md y payee n = \<lparr>dp_module = md, dp_cfg = runningConfig y, dp_payee = payee, dp_sem = Some n,
     dp_recorder = RecNoop NewNoop\<rparr>"

lemma routeDeps_paid:
  assumes "quiet_module md" and "quiet_client payee"
  shows "paid_route (routeDeps md y payee n)"
proof (intro paid_route.intro paid_route_axioms.intro)
  show "quiet_client (dp_payee (routeDeps md y payee n))" using assms(2) by (simp add: routeDeps_def)
  show "quiet_module (dp_module (routeDeps md y payee n))" using assms(1) by (simp add: routeDeps_def)
qed (simp add: routeDeps_def runningConfig_price)

text \<open>The six routes of the binary, with the production clients.\<close>

lemma chatModule_worker: "quiet_module (chatModule rt (workerTok lib) (fetchClient tr) False)"
  unfolding workerTok_def by (rule chatModule_quiet) (rule workerTokenizer.token_counter_axioms, rule fetchQuiet.quiet_backend_axioms)

lemma embModule_worker: "quiet_module (embModule rt (workerTok lib) (fetchClient tr) False)"
  unfolding workerTok_def by (rule embModule_quiet) (rule workerTokenizer.token_counter_axioms, rule fetchQuiet.quiet_backend_axioms)

interpretation chatQuiet: quiet_module "chatModule rt (workerTok lib) (fetchClient tr) False" for rt lib tr
  by (rule chatModule_worker)

interpretation embQuiet: quiet_module "embModule rt (workerTok lib) (fetchClient tr) False" for rt lib tr
  by (rule embModule_worker)

interpretation genQuiet: quiet_module "genModule rt (fetchClient tr) False" for rt tr
  by (rule genModule_quiet) (rule fetchQuiet.quiet_backend_axioms)

interpretation editQuiet: quiet_module "editModule rt (fetchClient tr) False" for rt tr
  by (rule editModule_quiet) (rule fetchQuiet.quiet_backend_axioms)

interpretation speechQuiet: quiet_module "speechModule rt (fetchClient tr) False" for rt tr
  by (rule speechModule_quiet) (rule fetchQuiet.quiet_backend_axioms)

interpretation transQuiet: quiet_module "transModule rt (fetchClient tr) False" for rt tr
  by (rule transModule_quiet) (rule fetchQuiet.quiet_backend_axioms)

interpretation chatRoute: paid_route
  "routeDeps (chatModule rt (workerTok lib) (fetchClient tr) False) y (WithMetrics (grpcClient st) recNil) n"
  for rt lib tr y st recNil n
  by (rule routeDeps_paid) (rule chatModule_worker, rule grpc.quiet_WithMetrics)

lemma worker_route:
  assumes "moduleFor rt (workerTok lib) (fetchClient tr) cap = Some md"
  shows "paid_route (routeDeps md y (WithMetrics (grpcClient st) recNil) n)"
proof (rule routeDeps_paid)
  show "quiet_module md"
    using workerTokenizer.token_counter_axioms fetchQuiet.quiet_backend_axioms assms
    unfolding workerTok_def by (rule moduleFor_quiet)
qed (rule grpc.quiet_WithMetrics)

text \<open>The test wiring: any module of the binary over the in-memory daemon and backend.\<close>

lemma fake_route:
  assumes "moduleFor rt (NewWordCount pct) fakeBackend cap = Some md"
  shows "paid_ledger (routeDeps md y fakeClient n) BalanceFor fk_DebitWeiPerWorkUnit"
proof (rule paid_ledger.intro)
  have "quiet_module md"
    using wordCounter.token_counter_axioms fakeQuiet.quiet_backend_axioms assms by (rule moduleFor_quiet)
  then show "paid_route (routeDeps md y fakeClient n)" by (rule routeDeps_paid) (rule fake.quiet_client_axioms)
  show "session_ledger (dp_payee (routeDeps md y fakeClient n)) BalanceFor fk_DebitWeiPerWorkUnit"
    using fakeLedger.session_ledger_axioms by (simp add: routeDeps_def)
qed

interpretation chatLedger: paid_ledger
  "routeDeps (chatModule rt (NewWordCount pct) fakeBackend False) y fakeClient n" BalanceFor fk_DebitWeiPerWorkUnit
  for rt pct y n
  by (rule fake_route [of _ _ chatCapability]) (simp add: moduleFor_def)

section \<open>A start-up that fails\<close>

text \<open>A wrong command line: the flags do not parse, or the listen address of the metrics is malformed.\<close>

definition usageError :: "('d, 'b) Env \<Rightarrow> bool" where
  "usageError en = (case en_flags en of None \<Rightarrow> True | Some fl \<Rightarrow> validateMetricsListen (fl_metricsListen fl) \<noteq> None)"

lemma run_usage: "usageError en \<Longrightarrow> fst (run en w) = Exited 2"
  by (auto simp: usageError_def run_def split: option.splits)

lemma run_loaded:
  assumes "\<not> usageError en"
  shows "fst (run en w) = Exited 1 \<or> (\<exists>cfg payee path. Load (en_decodeYAML en) (en_openFile en) path = Inr cfg \<and>
    fst (run en w) = buildMux en cfg payee)"
  using assms by (auto simp: usageError_def run_def Let_def split: option.splits sum.splits prod.splits)

lemma run_cases:
  assumes "\<not> usageError en"
  shows "fst (run en w) = Exited 1 \<or> (\<exists>m. fst (run en w) = Started m)"
  using run_loaded [OF assms, of w]
proof (elim disjE exE conjE)
  fix cfg payee path
  assume "Load (en_decodeYAML en) (en_openFile en) path = Inr cfg" and r: "fst (run en w) = buildMux en cfg payee"
  then show ?thesis using buildMux_cases [OF Load_distinct, of _ _ path cfg en payee] by auto
qed simp

lemma run_exits: "fst (run en w) = Exited c \<Longrightarrow> c = (if usageError en then 2 else 1)"
  using run_usage [of en w] run_cases [of en w] by (auto split: if_splits)

lemma run_no_panic: "fst (run en w) \<noteq> StartPanic"
  using run_usage [of en w] run_cases [of en w] by (cases "usageError en") auto

section \<open>A started worker\<close>

lemma list_result:
  "fst (cl_ListCapabilities (WithMetrics (grpcClient st) recNil) w) = fst (grpcListCapabilities st (w_daemon w))"
  by (simp add: WithMetrics_def meteredClient_def meteredRPC_def grpcClient_def onDaemon_def split_beta Let_def)

text \<open>What \<open>run\<close> has established when it hands over a mux.\<close>

lemma run_started:
  assumes "run en w0 = (Started m, w1)"
  shows "\<exists>y st. wfYaml y \<and> Dial (rt_quote (en_runtime en)) (en_newClient en) (yw_PaymentDaemonSocket (y_Worker y)) = Inr st \<and> startedOk en (projectFromYAML y) (WithMetrics (grpcClient st) False) m \<and>
    (yw_VerifyDaemonConsistencyOnStart (y_Worker y) \<longrightarrow>
       (\<exists>catalog. fst (grpcListCapabilities st (w_daemon w0)) = Inr catalog \<and> VerifyDaemonCatalog (Some (projectFromYAML y)) catalog = None))"
proof -
  obtain fl where fl: "en_flags en = Some fl" "validateMetricsListen (fl_metricsListen fl) = None"
    using assms by (auto simp: run_def split: option.splits if_splits)
  obtain cfg where cfg: "Load (en_decodeYAML en) (en_openFile en) (fl_configPath fl) = Inr cfg"
    using assms fl by (auto simp: run_def split: sum.splits)
  obtain y where y: "wfYaml y" "cfg = projectFromYAML y" using Load_wf [OF cfg] by blast
  obtain st where st: "Dial (rt_quote (en_runtime en)) (en_newClient en) (PaymentDaemonSocket (Worker cfg)) = Inr st"
    using assms fl cfg by (auto simp: run_def Let_def split: sum.splits)
  define payee where "payee = (WithMetrics (grpcClient st) False :: ('a, 'b) Client)"
  have b: "buildMux en cfg payee = Started m"
    using assms fl cfg st by (auto simp: run_def payee_def Let_def split: if_splits prod.splits sum.splits)
  then have "startedOk en cfg payee m" using buildMux_cases [OF Load_distinct [OF cfg], of en payee] by auto
  moreover have "\<exists>catalog. fst (grpcListCapabilities st (w_daemon w0)) = Inr catalog \<and> VerifyDaemonCatalog (Some cfg) catalog = None"
    if on: "VerifyDaemonConsistencyOnStart (Worker cfg)"
  proof -
    define wm where "wm = emit (SetMaxConcurrent (MaxConcurrentRequests (Worker cfg)))
      (emit (SetBuildInfo (en_version en) (showInt (ProtocolVersion cfg)) (en_goVersion en)) w0)"
    obtain res w2 where l: "cl_ListCapabilities payee wm = (res, w2)" by fastforce
    have "fst (grpcListCapabilities st (w_daemon w0)) = res"
      using list_result [of st False wm] l by (simp add: payee_def wm_def)
    then show ?thesis using assms fl cfg st on l
      by (cases res) (auto simp: run_def payee_def [symmetric] wm_def [symmetric] Let_def split: if_splits)
  qed
  moreover have "VerifyDaemonConsistencyOnStart (Worker cfg) = yw_VerifyDaemonConsistencyOnStart (y_Worker y)"
    "PaymentDaemonSocket (Worker cfg) = yw_PaymentDaemonSocket (y_Worker y)"
    by (simp_all add: y projectFromYAML_def New_def Let_def)
  ultimately show ?thesis using y st by (auto simp: payee_def)
qed

lemma started_deps:
  assumes "run en w0 = (Started m, w1)" and "PaidRoute md \<in> snd ` set (mx_routes m)"
  shows "\<exists>y st cap. wfYaml y \<and>
    depsOf m md = (routeDeps md y (WithMetrics (grpcClient st) False) (mx_paidSem m))\<lparr>dp_recorder := mx_recorder m\<rparr> \<and>
    moduleFor (en_runtime en) (workerTok (en_tiktoken en)) (fetchClient (en_transport en)) cap = Some md"
proof -
  obtain y st where y: "wfYaml y" and ok: "startedOk en (projectFromYAML y) (WithMetrics (grpcClient st) False) m"
    using run_started [OF assms(1)] by blast
  then obtain cap where "moduleFor (en_runtime en) (workerTok (en_tiktoken en)) (fetchClient (en_transport en)) cap = Some md"
    using assms(2) unfolding workerTok_def startedOk_def by blast
  then show ?thesis using y ok by (auto simp: startedOk_def depsOf_def routeDeps_def runningConfig_valid)
qed

lemma paid_route_recorder: "paid_route deps \<Longrightarrow> paid_route (deps\<lparr>dp_recorder := rec\<rparr>)"
  by (simp add: paid_route_def paid_route_axioms_def)

lemma started_route:
  assumes "run en w0 = (Started m, w1)" and "PaidRoute md \<in> snd ` set (mx_routes m)"
  shows "paid_route (depsOf m md)"
  using started_deps [OF assms] paid_route_recorder [OF worker_route] by metis

text \<open>The recorder of a started worker is the Prometheus one exactly when metrics are served.\<close>

definition metricsOn :: "('d, 'b) Env \<Rightarrow> bool" where
  "metricsOn en = (case en_flags en of None \<Rightarrow> False | Some fl \<Rightarrow> fl_metricsListen fl \<noteq> [])"

lemma started_recorder:
  assumes "run en w0 = (Started m, w1)"
  shows "isProm (mx_recorder m) \<longleftrightarrow> metricsOn en"
  using run_started [OF assms]
  by (auto simp: startedOk_def WithRecorder_def startRecorder_def chooseRecorder_def metricsOn_def split: option.splits)

text \<open>Its labels, the model apart, are constants: only a model that is not UTF-8 makes the recorder panic.\<close>

lemma outcome_ascii: "\<forall>c\<in>set (classifyOutcome ctx status). byteOf c < 0x80"
  by (simp add: classifyOutcome_def)

lemma moduleFor_ascii: "moduleFor rt tok backend cap = Some md \<Longrightarrow> \<forall>c\<in>set (m_Capability md). byteOf c < 0x80"
  by (auto simp: moduleFor_def chatModule_def embModule_def genModule_def speechModule_def editModule_def
      transModule_def split: if_splits)

lemma started_recordable:
  assumes "run en w0 = (Started m, w1)" and "PaidRoute md \<in> snd ` set (mx_routes m)"
  shows "recordable (depsOf m md) label (classifyOutcome ctx status) \<longleftrightarrow> (metricsOn en \<longrightarrow> utf8Valid label)"
proof -
  obtain cap where "moduleFor (en_runtime en) (workerTok (en_tiktoken en)) (fetchClient (en_transport en)) cap = Some md"
    using started_deps [OF assms] by blast
  then have "utf8Valid (unset (m_Capability md))" using labelsOk_unset utf8Valid_ascii moduleFor_ascii by blast
  moreover have "utf8Valid (unset (classifyOutcome ctx status))" using labelsOk_unset utf8Valid_ascii outcome_ascii by blast
  moreover have "utf8Valid (unset label) \<longleftrightarrow> utf8Valid label" using labelsOk_unset [of label] by (auto simp: unset_def utf8Valid_def)
  ultimately show ?thesis using started_recorder [OF assms(1)] by (simp add: recordable_def labelsOk_def depsOf_def)
qed

text \<open>A request to a started worker, on a path that is not one of the three unpaid ones.\<close>

lemma started_serve:
  assumes "run en w0 = (Started m, w1)" and "rq_Path r \<notin> snd ` set unpaidRoutes" and "ServeHTTP m r rw w = (p, rw', w')"
  shows "(w' = w \<and> \<not> p) \<or> (\<exists>md sw. PaidRoute md \<in> snd ` set (mx_routes m) \<and> m_HTTPPath md = rq_Path r \<and> paid_route (depsOf m md) \<and>
    paymentMiddleware (depsOf m md) r rw w = (p, sw, w') \<and> rw' = sw_ResponseWriter sw)"
proof -
  have "muxOk m" using run_started [OF assms(1)] by (auto simp: startedOk_def)
  from ServeHTTP_paid [OF this assms(2,3)] started_route [OF assms(1)] show ?thesis by blast
qed

lemma started_traced:
  assumes "run en w0 = (Started m, w1)" and "rq_Path r \<notin> snd ` set unpaidRoutes" and "ServeHTTP m r rw w = (p, rw', w')"
  shows "\<exists>st tr ms. traced (WithMetrics (grpcClient st) False) w tr ms w' \<and> protoOk tr \<and> (insufficient \<in> set ms \<longrightarrow> overdrawn tr)"
  using started_serve [OF assms]
proof (elim disjE exE conjE)
  fix md sw assume md: "PaidRoute md \<in> snd ` set (mx_routes m)" "paid_route (depsOf m md)"
    and s: "paymentMiddleware (depsOf m md) r rw w = (p, sw, w')"
  obtain y st cap where
    "depsOf m md = (routeDeps md y (WithMetrics (grpcClient st) False) (mx_paidSem m))\<lparr>dp_recorder := mx_recorder m\<rparr>"
    using started_deps [OF assms(1) md(1)] by blast
  then have "dp_payee (depsOf m md) = WithMetrics (grpcClient st) False" by (simp add: routeDeps_def)
  with paid_route.paymentMiddleware_traced [OF md(2) s] show ?thesis by metis
next
  assume "w' = w"
  then have "traced (WithMetrics (grpcClient undefined) False) w [] [] w'" by simp
  moreover have "protoOk []" by (simp add: protoOk_def)
  ultimately show ?thesis by (metis empty_iff list.set(1))
qed

end
