(* ===== verification/Outbound.thy ===== *)
theory Outbound
  imports Startup
begin

text \<open>
  What leaves the worker for a backend. The log of the middleware has an entry where a module is
  called; the requests themselves go through the transport, whose state (\<open>w_backend\<close>) only they
  change. The locale \<open>single_request\<close> states that a backend client hands the transport at most one
  request per call, with the URL and the body it was given; it holds of the production client and
  passes through the metrics decorator to the six modules (locale \<open>outbound_module\<close>). The locale
  \<open>outbound_route\<close> is a paid route over such a module and a client of the daemon that leaves the
  transport alone: on it, a request is sent to a backend at most once, and only where the log has
  the dispatch.

  \<open>logged\<close> is a transport that keeps the requests it was handed and otherwise behaves as the one it
  wraps, so that they can be counted.
\<close>

section \<open>A transport with a log\<close>

definition logged :: "'b Transport \<Rightarrow> ('b \<times> HttpRequest list) Transport" where
  "logged tr =
     \<lparr>tr_Do = (\<lambda>q x. let (res, b) = tr_Do tr q (fst x) in (res, (b, snd x @ [q]))), tr_urlError = tr_urlError tr\<rparr>"

lemma logged_transparent:
  "fst (tr_Do (logged tr) q (b, qs)) = fst (tr_Do tr q b)" "snd (tr_Do (logged tr) q (b, qs)) = (snd (tr_Do tr q b), qs @ [q])"
  "tr_urlError (logged tr) = tr_urlError tr"
  by (simp_all add: logged_def split_beta)

section \<open>Backend clients\<close>

definition sentOnce :: "'b Transport \<Rightarrow> string \<Rightarrow> bytes \<Rightarrow> 'b \<Rightarrow> 'b \<Rightarrow> bool" where
  "sentOnce tr url body b b' \<longleftrightarrow>
     b' = b \<or> (\<exists>q. hq_URL q = url \<and> hq_Body q = body \<and> b' = snd (tr_Do tr q b))"

lemma sentOnce_refl [simp]: "sentOnce tr url body b b"
  by (simp add: sentOnce_def)

locale single_request =
  fixes tr :: "'b Transport"
    and c :: "('d, 'b) Backend"
  assumes once_json: "sentOnce tr url body (w_backend w) (w_backend (snd (bk_DoJSON c url body w)))"
    and once_raw: "sentOnce tr url body (w_backend w) (w_backend (snd (bk_DoRaw c url ct body w)))"
    and once_stream: "sentOnce tr url body (w_backend w) (w_backend (snd (bk_DoStream c url body w)))"
begin

lemma recordOutcome_backend: "w_backend (recordOutcome cap model status err w) = w_backend w"
  by (simp add: recordOutcome_def Let_def)

lemma metered_once: "single_request tr (backendWithMetrics c recNil cap model)"
  using once_json once_raw once_stream
  by unfold_locales (simp_all add: backendWithMetrics_def meteredBackend_def split_beta Let_def recordOutcome_backend)

lemmas metered = single_request.once_json [OF metered_once] single_request.once_raw [OF metered_once]
  single_request.once_stream [OF metered_once]

text \<open>A module makes one call on its client, and passes it the backend's URL with its own path and the body.\<close>

lemma chatServe_once:
  "sentOnce tr (targetURL url chatHTTPPath) body (w_backend w) (w_backend (snd (snd (chatServe rt c recNil s r body model url w))))"
  using metered by (simp add: chatServe_def serveJSON_def serveStream_def backendDown_def Let_def split_beta split: sum.splits option.splits)

lemma embServe_once:
  "sentOnce tr (targetURL url embHTTPPath) body (w_backend w) (w_backend (snd (snd (embServe c recNil s r body model url w))))"
  using metered by (simp add: embServe_def backendDown_def Let_def split_beta split: option.splits)

lemma genServe_once:
  "sentOnce tr (targetURL url genHTTPPath) body (w_backend w) (w_backend (snd (snd (genServe c recNil s r body model url w))))"
  using metered by (simp add: genServe_def backendDown_def Let_def split_beta split: option.splits)

lemma speechServe_once:
  "sentOnce tr (targetURL url speechHTTPPath) body (w_backend w) (w_backend (snd (snd (speechServe c recNil s r body model url w))))"
  using metered by (simp add: speechServe_def backendDown_def Let_def split_beta split: option.splits)

lemma serveForm_once:
  "sentOnce tr (targetURL url path) body (w_backend w) (w_backend (snd (snd (serveForm name cap path units c recNil s r body model url w))))"
  using metered by (simp add: serveForm_def backendDown_def Let_def split_beta split: option.splits)

end

interpretation fetchOnce: single_request tr "fetchClient tr" for tr
  by unfold_locales
    (auto simp: fetchClient_def fetchDoJSON_def fetchDoRaw_def fetchDoStream_def sentOnce_def Let_def split_beta
      split: sum.splits option.splits intro!: exI)

section \<open>The modules\<close>

locale outbound_module =
  fixes tr :: "'b Transport"
    and md :: "('d, 'b) Module"
  assumes estimate_backend: "w_backend (snd (m_EstimateWorkUnits md body model w)) = w_backend w"
    and serve_once: "sentOnce tr (targetURL url (m_HTTPPath md)) body (w_backend w) (w_backend (snd (snd (m_Serve md s r body model url w))))"

context token_counter
begin

lemma chatEstimate_backend: "w_backend (snd (chatEstimate rt t dflt body model w)) = w_backend w"
proof -
  have "w_backend (snd (countMessages rt t mid msgs input w)) = w_backend w" for mid msgs input w
    by (induction msgs arbitrary: input w) (simp_all add: split_beta Let_def count_state)
  then show ?thesis by (simp add: chatEstimate_def split_beta Let_def split: sum.splits)
qed

lemma embEstimate_backend: "w_backend (snd (embEstimate rt t body model w)) = w_backend w"
proof -
  have "w_backend (snd (countItems t mid vs ttl w)) = w_backend w" for mid vs ttl w
  proof (induction vs arbitrary: ttl w)
    case (Cons v vs)
    then show ?case by (cases v) (simp_all add: split_beta Let_def count_state)
  qed simp
  then have "w_backend (snd (countTokens t mid v w)) = w_backend w" for mid v w
    by (simp add: countTokens_def count_state split: json.splits)
  then show ?thesis by (simp add: embEstimate_def split_beta Let_def split: sum.splits)
qed

end

lemma moduleFor_outbound:
  assumes "moduleFor rt (workerTok lib) (fetchClient tr) cap = Some md"
  shows "outbound_module tr md"
proof -
  have "outbound_module tr (chatModule rt (workerTok lib) (fetchClient tr) False)"
    using fetchOnce.chatServe_once workerTokenizer.chatEstimate_backend
    by unfold_locales (simp_all add: chatModule_def workerTok_def)
  moreover have "outbound_module tr (embModule rt (workerTok lib) (fetchClient tr) False)"
    using fetchOnce.embServe_once workerTokenizer.embEstimate_backend
    by unfold_locales (simp_all add: embModule_def workerTok_def)
  moreover have "outbound_module tr (genModule rt (fetchClient tr) False)"
    using fetchOnce.genServe_once
    by unfold_locales (simp_all add: genModule_def genEstimate_def Let_def split: sum.splits prod.splits)
  moreover have "outbound_module tr (speechModule rt (fetchClient tr) False)"
    using fetchOnce.speechServe_once
    by unfold_locales (simp_all add: speechModule_def speechEstimate_def split: sum.splits)
  moreover have "outbound_module tr (editModule rt (fetchClient tr) False)"
    using fetchOnce.serveForm_once
    by unfold_locales (simp_all add: editModule_def editServe_def editEstimate_def Let_def split: sum.splits prod.splits)
  moreover have "outbound_module tr (transModule rt (fetchClient tr) False)"
    using fetchOnce.serveForm_once
    by unfold_locales (simp_all add: transModule_def transServe_def transEstimate_def)
  ultimately show ?thesis using assms by (auto simp: moduleFor_def split: if_splits)
qed

section \<open>The handler\<close>

text \<open>A step that sends nothing, and one that sends at most once, and only where the log has a dispatch.\<close>

definition still :: "('d, 'b) World \<Rightarrow> ('d, 'b) World \<Rightarrow> bool" where
  "still w w' \<longleftrightarrow> (\<exists>es. w_calls w' = w_calls w @ es) \<and> w_backend w' = w_backend w"

definition outbound :: "'b Transport \<Rightarrow> string \<Rightarrow> bytes \<Rightarrow> ('d, 'b) World \<Rightarrow> ('d, 'b) World \<Rightarrow> bool" where
  "outbound tr path body w w' \<longleftrightarrow>
     (\<exists>es. w_calls w' = w_calls w @ es \<and>
        (w_backend w' = w_backend w \<or>
         (\<exists>cap url. Dispatch cap url \<in> set es \<and> sentOnce tr (targetURL url path) body (w_backend w) (w_backend w'))))"

lemma still_refl [simp]: "still w w"
  by (simp add: still_def)

lemma still_trans: "still w w' \<Longrightarrow> still w' w'' \<Longrightarrow> still w w''"
  by (auto simp: still_def)

lemma still_emit [simp]: "still w (emit m w)"
  by (simp add: still_def)

lemma still_extends: "extends w w' \<Longrightarrow> w_backend w' = w_backend w \<Longrightarrow> still w w'"
  by (auto simp: still_def extends_def)

lemma still_outbound: "still w w' \<Longrightarrow> outbound tr path body w w'"
  by (auto simp: still_def outbound_def)

lemma outbound_left: "still w w' \<Longrightarrow> outbound tr path body w' w'' \<Longrightarrow> outbound tr path body w w''"
  by (fastforce simp: still_def outbound_def)

lemma outbound_right: "outbound tr path body w w' \<Longrightarrow> still w' w'' \<Longrightarrow> outbound tr path body w w''"
  by (fastforce simp: still_def outbound_def)

lemma still_callRpc:
  assumes "quiet act" and "\<And>w. w_backend (snd (act w)) = w_backend w"
  shows "still w (snd (callRpc q mk act w))"
proof -
  obtain res w1 where a: "act w = (res, w1)" by fastforce
  have "still w w1" using quietD [OF assms(1) a] assms(2) [of w] a by (intro still_extends) simp_all
  then show ?thesis by (auto simp: callRpc_def a still_def)
qed

lemma still_slot: "acquireSlot deps w = Some w' \<Longrightarrow> still w w'" "still w (releaseSlot deps w)"
  by (auto simp: acquireSlot_def releaseSlot_def still_def Let_def split: option.splits if_splits)

lemma still_record: "still w (snd (recordRequest deps label outcome w))"
  by (cases rule: recordRequest_cases [of deps label outcome w]) (auto simp: still_def)

locale outbound_route = paid_route deps + out: outbound_module tr "dp_module deps"
  for deps :: "('d, 'b) paidRouteDeps" and tr :: "'b Transport" +
  assumes open_backend: "w_backend (snd (cl_OpenSession (dp_payee deps) req w)) = w_backend w"
    and process_backend: "w_backend (snd (cl_ProcessPayment (dp_payee deps) pay k w)) = w_backend w"
    and debit_backend: "w_backend (snd (cl_DebitBalance (dp_payee deps) s k n w)) = w_backend w"
    and close_backend: "w_backend (snd (cl_CloseSession (dp_payee deps) s k w)) = w_backend w"
begin

lemma rpc_still:
  "still w (snd (callOpenSession deps req w))" "still w (snd (callProcessPayment deps pay k w))"
  "still w (snd (callDebitBalance deps s k n w))" "still w (snd (callCloseSession deps s k w))"
  unfolding callOpenSession_def callProcessPayment_def callDebitBalance_def callCloseSession_def
  by (rule still_callRpc, rule payee.quiet_open payee.quiet_process payee.quiet_debit payee.quiet_close,
      simp add: open_backend process_backend debit_backend close_backend)+

lemma estimate_still: "still w (snd (m_EstimateWorkUnits (dp_module deps) body model w))"
  by (rule still_extends) (simp_all add: mdl.estimate_quiet out.estimate_backend)

abbreviation "sends \<equiv> outbound tr (m_HTTPPath (dp_module deps))"

lemma mwServe_outbound:
  assumes "mwServe deps r body model route s k est sw w = (p, sw', w')"
  shows "sends body w w'"
proof -
  define d where "d = Dispatch (m_Capability (dp_module deps)) (mr_BackendURL route)"
  obtain res sw1 w1 where o: "m_Serve (dp_module deps) sw r body model (mr_BackendURL route) (note_call d w) = (res, sw1, w1)"
    using prod_cases3 by blast
  have "extends (note_call d w) w1" "sentOnce tr (targetURL (mr_BackendURL route) (m_HTTPPath (dp_module deps))) body (w_backend w) (w_backend w1)"
    using mdl.serve_quiet [of "note_call d w" sw r body model "mr_BackendURL route"]
      out.serve_once [of "mr_BackendURL route" body "note_call d w" sw r model] o by simp_all
  then have "sends body w w1" unfolding outbound_def extends_def
    by (elim conjE exE) (rule_tac x = "d # map Metric ms" in exI, auto simp: d_def)
  moreover have "still w1 w'"
    using assms o rpc_still(3) still_trans [OF still_emit rpc_still(3)]
    by (auto simp: mwServe_def Let_def d_def split: served.splits option.splits if_splits)
  ultimately show ?thesis by (rule outbound_right)
qed

lemma mwCharge_outbound:
  assumes "mwCharge deps r body model route s k sw w = (p, sw', w')"
  shows "sends body w w'"
proof -
  obtain est w1 where e: "m_EstimateWorkUnits (dp_module deps) body model w = (est, w1)" by fastforce
  have s1: "still w w1" using estimate_still [of w body model] e by simp
  show ?thesis
  proof (cases est)
    case (Inl x)
    then show ?thesis using assms e s1 by (simp add: mwCharge_def still_outbound)
  next
    case (Inr est0)
    define n where "n = (if est0 < 0 then 0 else est0)"
    obtain res w2 where c: "callDebitBalance deps s k n w1 = (res, w2)" by fastforce
    have s2: "still w w2" using still_trans [OF s1] rpc_still(3) [of w1 s k n] c by simp
    have "sends body w2 w'"
      using assms e Inr c mwServe_outbound
      by (auto simp: mwCharge_def Let_def n_def [symmetric] intro: still_outbound split: sum.splits if_splits)
    then show ?thesis using s2 by (rule outbound_left [rotated])
  qed
qed

lemma mwPaid_outbound:
  assumes "mwPaid deps r body model route pay k price sw w = (p, sw', w')"
  shows "sends body w w'"
proof -
  define req where "req = \<lparr>os_WorkID = k, os_Capability = mr_Capability route, os_Offering = mr_Model route,
    os_PricePerWorkUnitWei = price, os_WorkUnit = mr_WorkUnit route\<rparr>"
  obtain ores w1 where o: "callOpenSession deps req w = (ores, w1)" by fastforce
  have s1: "still w w1" using rpc_still(1) [of w req] o by simp
  obtain pres w2 where q: "callProcessPayment deps pay k w1 = (pres, w2)" by fastforce
  have s2: "still w w2" using still_trans [OF s1] rpc_still(2) [of w1 pay k] q by simp
  show ?thesis
  proof (cases "\<exists>x pp. ores = Inr x \<and> pres = Inr pp")
    case False
    then have "still w w'" using assms o q s1 s2 still_trans [OF s2 still_emit]
      by (auto simp: mwPaid_def req_def split: sum.splits)
    then show ?thesis by (rule still_outbound)
  next
    case True
    then obtain x pp where r: "ores = Inr x" "pres = Inr pp" by blast
    obtain p3 sw3 w3 where c: "mwCharge deps r body model route (pp_Sender pp) k sw w2 = (p3, sw3, w3)" using prod_cases3 by blast
    have "w' = snd (callCloseSession deps (pp_Sender pp) k w3)" using assms o q r c by (simp add: mwPaid_def req_def)
    then show ?thesis using outbound_right [OF outbound_left [OF s2 mwCharge_outbound [OF c]] rpc_still(4)] by simp
  qed
qed

lemma paymentMiddleware_outbound:
  assumes "paymentMiddleware deps r rw w = (p, sw', w')"
  shows "sends (rq_Body r) w w'"
proof (cases "acquireSlot deps w")
  case None
  then show ?thesis using assms
    by (auto simp: paymentMiddleware_def rejectCapacity_def still_def Let_def intro!: still_outbound)
next
  case (Some w1)
  obtain p1 label sw1 w2 where b: "mwBody deps r (newStatusWriter rw) w1 = (p1, label, sw1, w2)" using prod_cases4 by blast
  have "sends (rq_Body r) w1 w2"
  proof (cases "mwAdmit deps r")
    case (Inl rj)
    then show ?thesis using b by (auto simp: mwBody_def intro!: still_outbound split: option.splits)
  next
    case (Inr ad)
    have "ad_body ad = rq_Body r" using Inr
      by (auto simp: mwAdmit_def rejection_def readAllMax_def Let_def split: sum.splits option.splits if_splits)
    then show ?thesis using b Inr mwPaid_outbound by (auto simp: mwBody_def split: prod.splits)
  qed
  moreover have "w' = releaseSlot deps (snd (recordRequest deps label (classifyOutcome (rq_CtxErr r) (sw_status sw1)) w2))"
    using assms Some b by (auto simp: paymentMiddleware_def Let_def split_beta)
  then have "still w2 w'" using still_trans [OF still_record still_slot(2), of w2] by simp
  ultimately show ?thesis using outbound_left [OF still_slot(1) [OF Some]] outbound_right by blast
qed

end

lemma worker_outbound:
  assumes "moduleFor rt (workerTok lib) (fetchClient tr) cap = Some md"
  shows "outbound_route (routeDeps md y (WithMetrics (grpcClient st) recNil) n) tr"
proof (rule outbound_route.intro [OF worker_route [OF assms]])
  show "outbound_module tr (dp_module (routeDeps md y (WithMetrics (grpcClient st) recNil) n))"
    using moduleFor_outbound [OF assms] by (simp add: routeDeps_def)
qed (unfold_locales, simp_all add: routeDeps_def WithMetrics_def meteredClient_def meteredRPC_def grpcClient_def onDaemon_def
    split_beta Let_def)

interpretation chatOutbound: outbound_route
  "routeDeps (chatModule rt (workerTok lib) (fetchClient tr) False) y (WithMetrics (grpcClient st) recNil) n" tr
  for rt lib tr y st recNil n
  by (rule worker_outbound [of rt lib tr chatCapability]) (simp add: moduleFor_def)

section \<open>A started worker\<close>

text \<open>A session opened at a positive price, a payment accepted under its hash, a debit the daemon
  confirmed: \<open>paidTrace\<close> without the sign of the balance, which the production client never reads as
  negative.\<close>

definition chargedTrace :: "bytes \<Rightarrow> string \<Rightarrow> call list \<Rightarrow> bool" where
  "chargedTrace s k xs \<longleftrightarrow>
     (\<exists>ys n b. fundedTrace s k ys \<and> xs = ys @ [Rpc (RpcDebitBalance s k n) (ReplyBalance b)] \<and> 0 \<le> n)"

lemma dispatch_charged: "protoOk (xs @ Dispatch cap url # ys) \<Longrightarrow> \<exists>s k. chargedTrace s k xs"
  using dispatch_paid unfolding paidTrace_def chargedTrace_def by blast

lemma outbound_recorder: "outbound_route deps tr \<Longrightarrow> outbound_route (deps\<lparr>dp_recorder := rec\<rparr>) tr"
  by (simp add: outbound_route_def outbound_route_axioms_def paid_route_recorder)

lemma started_outbound:
  assumes "run en w0 = (Started m, w1)" and "rq_Path r \<notin> snd ` set unpaidRoutes" and "ServeHTTP m r rw w = (p, rw', w')"
  shows "outbound (en_transport en) (rq_Path r) (rq_Body r) w w'"
  using started_serve [OF assms]
proof (elim disjE exE conjE)
  fix md sw assume md: "PaidRoute md \<in> snd ` set (mx_routes m)" and path: "m_HTTPPath md = rq_Path r" and s: "paymentMiddleware (depsOf m md) r rw w = (p, sw, w')"
  have "outbound_route (depsOf m md) (en_transport en)"
    using started_deps [OF assms(1) md] outbound_recorder [OF worker_outbound] by metis
  from outbound_route.paymentMiddleware_outbound [OF this s] path show ?thesis by (simp add: depsOf_def)
next
  assume "w' = w"
  then show ?thesis using still_outbound [OF still_refl] by simp
qed

end
