(* ===== verification/Concurrency.thy ===== *)
theory Concurrency
  imports Middleware
begin

text \<open>
  Requests in flight. \<open>net/http\<close> runs every handler on its own goroutine; they share the
  semaphore, the daemon's client, the backend and the recorder. A handler is cut into the
  steps between which another handler can run: \<open>mwStep\<close> does one call on a shared object,
  and its phases carry the handler's locals.

  \<open>complete\<close> is what is left to do from a phase. The lemmas show that a step does not
  change it, so that a handler run to its end, in at most eleven steps, does what
  \<open>paymentMiddleware\<close> does; and, for any interleaving of any number of handlers, that the
  semaphore counts the handlers between the gate and the release and never exceeds its
  capacity (\<open>sysStep\<close>, an inductive relation, with the invariant by rule induction).
\<close>

section \<open>The steps of a handler\<close>

datatype phase =
    PhGate
  | PhBody
  | PhOpen Admitted
  | PhProcess Admitted
  | PhEstimate Admitted bytes
  | PhDebit Admitted bytes int
  | PhServe Admitted bytes int
  | PhReconcile Admitted bytes int int
  | PhClose Admitted bytes bool
  | PhRecord string bool
  | PhRelease bool
  | PhDone bool

type_synonym ('d, 'b) config = "phase \<times> statusWriter \<times> ('d, 'b) World"

definition openRequest :: "Admitted \<Rightarrow> OpenSessionRequest" where
  "openRequest ad =
     \<lparr>os_WorkID = deriveWorkID (ad_payment ad), os_Capability = mr_Capability (ad_route ad),
      os_Offering = mr_Model (ad_route ad), os_PricePerWorkUnitWei = ad_price ad, os_WorkUnit = mr_WorkUnit (ad_route ad)\<rparr>"

fun mwStep :: "('d, 'b) paidRouteDeps \<Rightarrow> Request \<Rightarrow> ('d, 'b) config \<Rightarrow> ('d, 'b) config" where
  "mwStep deps r (PhGate, sw, w) =
     (case acquireSlot deps w of
        None \<Rightarrow> (let (sw1, w1) = rejectCapacity deps sw w in (PhDone False, sw1, w1))
      | Some w1 \<Rightarrow> (PhBody, sw, w1))"
| "mwStep deps r (PhBody, sw, w) =
     (case mwAdmit deps r of
        Inl rj \<Rightarrow>
          (PhRecord (rj_label rj) False, writeJSONError statusRW (rj_status rj) (rj_code rj) (rj_detail rj) sw,
           (case rj_reason rj of None \<Rightarrow> w | Some reason \<Rightarrow> emit (IncPaymentRejection reason) w))
      | Inr ad \<Rightarrow> (PhOpen ad, sw, w))"
| "mwStep deps r (PhOpen ad, sw, w) =
     (case callOpenSession deps (openRequest ad) w of
        (Inl e, w1) \<Rightarrow>
          (PhRecord (ad_model ad) False,
           writeJSONError statusRW 502 ''backend_unavailable'' (''OpenSession: '' @ emsg e) sw, w1)
      | (Inr _, w1) \<Rightarrow> (PhProcess ad, sw, w1))"
| "mwStep deps r (PhProcess ad, sw, w) =
     (case callProcessPayment deps (ad_payment ad) (deriveWorkID (ad_payment ad)) w of
        (Inl e, w1) \<Rightarrow>
          (PhRecord (ad_model ad) False, writeJSONError statusRW 402 ''payment_rejected'' (emsg e) sw,
           emit (IncPaymentRejection PaymentRejectProcessPayment) w1)
      | (Inr pp, w1) \<Rightarrow> (PhEstimate ad (pp_Sender pp), sw, w1))"
| "mwStep deps r (PhEstimate ad s, sw, w) =
     (case m_EstimateWorkUnits (dp_module deps) (ad_body ad) (ad_model ad) w of
        (Inl e, w1) \<Rightarrow>
          (PhClose ad s False,
           writeJSONError statusRW 400 ''invalid_request'' (''could not estimate work units: '' @ emsg e) sw, w1)
      | (Inr est0, w1) \<Rightarrow> (PhDebit ad s (if est0 < 0 then 0 else est0), sw, w1))"
| "mwStep deps r (PhDebit ad s est, sw, w) =
     (case callDebitBalance deps s (deriveWorkID (ad_payment ad)) est w of
        (Inl e, w1) \<Rightarrow>
          (PhClose ad s False, writeJSONError statusRW 502 ''backend_unavailable'' (''DebitBalance: '' @ emsg e) sw,
           emit (IncPaymentRejection PaymentRejectDebitError) w1)
      | (Inr db, w1) \<Rightarrow>
          if db_BalanceWei db < 0 then
            (PhClose ad s False,
             writeJSONError statusRW 402 ''insufficient_balance'' ''balance after estimate debit is negative'' sw,
             emit (IncPaymentRejection PaymentRejectInsufficientBalance) w1)
          else (PhServe ad s est, sw, w1))"
| "mwStep deps r (PhServe ad s est, sw, w) =
     (let m = dp_module deps;
          w0 = note_call (Dispatch (m_Capability m) (mr_BackendURL (ad_route ad))) w
      in case m_Serve m sw r (ad_body ad) (ad_model ad) (mr_BackendURL (ad_route ad)) w0 of
           (Panicked, sw1, w1) \<Rightarrow> (PhClose ad s True, sw1, w1)
         | (Returned actual (Some err), sw1, w1) \<Rightarrow> (PhClose ad s False, sw1, w1)
         | (Returned actual None, sw1, w1) \<Rightarrow>
             (PhReconcile ad s est actual, sw1,
              if 0 < actual then emit (AddWorkUnits (m_Capability m) (ad_model ad) (m_Unit m) actual) w1 else w1))"
| "mwStep deps r (PhReconcile ad s est actual, sw, w) =
     (PhClose ad s False, sw,
      if est < actual
      then snd (callDebitBalance deps s (deriveWorkID (ad_payment ad)) (wrap64 (actual - est)) w) else w)"
| "mwStep deps r (PhClose ad s p, sw, w) =
     (PhRecord (ad_model ad) p, sw, snd (callCloseSession deps s (deriveWorkID (ad_payment ad)) w))"
| "mwStep deps r (PhRecord label p, sw, w) =
     (let (panic, w1) = recordRequest deps label (classifyOutcome (rq_CtxErr r) (sw_status sw)) w
      in (PhRelease (p \<or> panic), sw, w1))"
| "mwStep deps r (PhRelease p, sw, w) = (PhDone p, sw, releaseSlot deps w)"
| "mwStep deps r (PhDone p, sw, w) = (PhDone p, sw, w)"

section \<open>A handler run to its end\<close>

definition endRequest :: "('d, 'b) paidRouteDeps \<Rightarrow> Request \<Rightarrow> string \<Rightarrow> bool \<times> statusWriter \<times> ('d, 'b) World \<Rightarrow> bool \<times> statusWriter \<times> ('d, 'b) World" where
  "endRequest deps r label x =
     (let (p, sw, w) = x;
          (panic, w1) = recordRequest deps label (classifyOutcome (rq_CtxErr r) (sw_status sw)) w
      in (p \<or> panic, sw, releaseSlot deps w1))"

definition endSession :: "('d, 'b) paidRouteDeps \<Rightarrow> Request \<Rightarrow> Admitted \<Rightarrow> bytes \<Rightarrow> bool \<times> statusWriter \<times> ('d, 'b) World \<Rightarrow> bool \<times> statusWriter \<times> ('d, 'b) World" where
  "endSession deps r ad s x =
     (let (p, sw, w) = x
      in endRequest deps r (ad_model ad) (p, sw, snd (callCloseSession deps s (deriveWorkID (ad_payment ad)) w)))"

definition reconcile :: "('d, 'b) paidRouteDeps \<Rightarrow> Admitted \<Rightarrow> bytes \<Rightarrow> int \<Rightarrow> int \<Rightarrow> ('d, 'b) World \<Rightarrow> ('d, 'b) World" where
  "reconcile deps ad s est actual w =
     (if est < actual then snd (callDebitBalance deps s (deriveWorkID (ad_payment ad)) (wrap64 (actual - est)) w) else w)"

definition debitAndServe :: "('d, 'b) paidRouteDeps \<Rightarrow> Request \<Rightarrow> Admitted \<Rightarrow> bytes \<Rightarrow> int \<Rightarrow> statusWriter \<Rightarrow> ('d, 'b) World \<Rightarrow> bool \<times> statusWriter \<times> ('d, 'b) World" where
  "debitAndServe deps r ad s est sw w =
     (case callDebitBalance deps s (deriveWorkID (ad_payment ad)) est w of
        (Inl e, w1) \<Rightarrow>
          (False, writeJSONError statusRW 502 ''backend_unavailable'' (''DebitBalance: '' @ emsg e) sw,
           emit (IncPaymentRejection PaymentRejectDebitError) w1)
      | (Inr db, w1) \<Rightarrow>
          if db_BalanceWei db < 0 then
            (False, writeJSONError statusRW 402 ''insufficient_balance'' ''balance after estimate debit is negative'' sw,
             emit (IncPaymentRejection PaymentRejectInsufficientBalance) w1)
          else mwServe deps r (ad_body ad) (ad_model ad) (ad_route ad) s (deriveWorkID (ad_payment ad)) est sw w1)"

fun complete :: "('d, 'b) paidRouteDeps \<Rightarrow> Request \<Rightarrow> ('d, 'b) config \<Rightarrow> bool \<times> statusWriter \<times> ('d, 'b) World" where
  "complete deps r (PhGate, sw, w) =
     (case acquireSlot deps w of
        None \<Rightarrow> (let (sw1, w1) = rejectCapacity deps sw w in (False, sw1, w1))
      | Some w1 \<Rightarrow> (let (p, label, sw1, w2) = mwBody deps r sw w1 in endRequest deps r label (p, sw1, w2)))"
| "complete deps r (PhBody, sw, w) = (let (p, label, sw1, w2) = mwBody deps r sw w in endRequest deps r label (p, sw1, w2))"
| "complete deps r (PhOpen ad, sw, w) =
     endRequest deps r (ad_model ad)
       (mwPaid deps r (ad_body ad) (ad_model ad) (ad_route ad) (ad_payment ad) (deriveWorkID (ad_payment ad)) (ad_price ad) sw w)"
| "complete deps r (PhProcess ad, sw, w) =
     (case callProcessPayment deps (ad_payment ad) (deriveWorkID (ad_payment ad)) w of
        (Inl e, w1) \<Rightarrow>
          endRequest deps r (ad_model ad)
            (False, writeJSONError statusRW 402 ''payment_rejected'' (emsg e) sw,
             emit (IncPaymentRejection PaymentRejectProcessPayment) w1)
      | (Inr pp, w1) \<Rightarrow>
          endSession deps r ad (pp_Sender pp)
            (mwCharge deps r (ad_body ad) (ad_model ad) (ad_route ad) (pp_Sender pp) (deriveWorkID (ad_payment ad)) sw w1))"
| "complete deps r (PhEstimate ad s, sw, w) =
     endSession deps r ad s
       (mwCharge deps r (ad_body ad) (ad_model ad) (ad_route ad) s (deriveWorkID (ad_payment ad)) sw w)"
| "complete deps r (PhDebit ad s est, sw, w) = endSession deps r ad s (debitAndServe deps r ad s est sw w)"
| "complete deps r (PhServe ad s est, sw, w) =
     endSession deps r ad s
       (mwServe deps r (ad_body ad) (ad_model ad) (ad_route ad) s (deriveWorkID (ad_payment ad)) est sw w)"
| "complete deps r (PhReconcile ad s est actual, sw, w) =
     endSession deps r ad s (False, sw, reconcile deps ad s est actual w)"
| "complete deps r (PhClose ad s p, sw, w) = endSession deps r ad s (p, sw, w)"
| "complete deps r (PhRecord label p, sw, w) = endRequest deps r label (p, sw, w)"
| "complete deps r (PhRelease p, sw, w) = (p, sw, releaseSlot deps w)"
| "complete deps r (PhDone p, sw, w) = (p, sw, w)"

fun remaining :: "phase \<Rightarrow> nat" where
  "remaining PhGate = 11"
| "remaining PhBody = 10"
| "remaining (PhOpen _) = 9"
| "remaining (PhProcess _) = 8"
| "remaining (PhEstimate _ _) = 7"
| "remaining (PhDebit _ _ _) = 6"
| "remaining (PhServe _ _ _) = 5"
| "remaining (PhReconcile _ _ _ _) = 4"
| "remaining (PhClose _ _ _) = 3"
| "remaining (PhRecord _ _) = 2"
| "remaining (PhRelease _) = 1"
| "remaining (PhDone _) = 0"

lemma mwStep_complete: "complete deps r (mwStep deps r c) = complete deps r c"
proof (induction deps r c rule: mwStep.induct)
  case (1 deps r sw w)
  then show ?case by (cases "rejectCapacity deps sw w") (auto split: option.splits)
next
  case (2 deps r sw w)
  then show ?case by (auto simp: mwBody_def split: sum.splits prod.splits)
next
  case (3 deps r ad sw w)
  then show ?case
    by (auto simp: mwPaid_def openRequest_def endSession_def split_beta split: prod.splits sum.splits)
next
  case (5 deps r ad s sw w)
  then show ?case by (auto simp: mwCharge_def debitAndServe_def Let_def split: prod.splits sum.splits)
next
  case (6 deps r ad s est sw w)
  then show ?case by (auto simp: debitAndServe_def split: prod.splits sum.splits)
next
  case (7 deps r ad s est sw w)
  then show ?case by (auto simp: mwServe_def reconcile_def Let_def split: prod.splits served.splits option.splits)
qed (auto simp: endSession_def endRequest_def reconcile_def split: option.splits prod.splits sum.splits)

lemma mwStep_remaining:
  "remaining ph \<noteq> 0 \<Longrightarrow> remaining (fst (mwStep deps r (ph, sw, w))) < remaining ph"
  by (cases ph) (auto split: option.splits prod.splits sum.splits served.splits simp: Let_def)

lemma remaining_done: "remaining ph = 0 \<longleftrightarrow> (\<exists>p. ph = PhDone p)"
  by (cases ph) auto

lemma run_to_end:
  "remaining (fst c) \<le> n \<Longrightarrow> (mwStep deps r ^^ n) c = (let (p, sw, w) = complete deps r c in (PhDone p, sw, w))"
proof (induction n arbitrary: c)
  case 0
  obtain ph sw w where c: "c = (ph, sw, w)" using prod_cases3 by blast
  then obtain p where "ph = PhDone p" using 0 remaining_done by auto
  then show ?case using c by simp
next
  case (Suc n)
  obtain ph sw w where c: "c = (ph, sw, w)" using prod_cases3 by blast
  have "remaining (fst (mwStep deps r c)) \<le> n"
  proof (cases "remaining ph = 0")
    case True
    then show ?thesis using c remaining_done by auto
  next
    case False
    then show ?thesis using mwStep_remaining [OF False, of deps r sw w] Suc.prems c by simp
  qed
  from Suc.IH [OF this] show ?case by (simp add: funpow_Suc_right mwStep_complete del: funpow.simps)
qed

lemma complete_gate: "complete deps r (PhGate, newStatusWriter rw, w) = paymentMiddleware deps r rw w"
  by (auto simp: paymentMiddleware_def endRequest_def Let_def split: option.splits prod.splits)

section \<open>Handlers side by side\<close>

record ('d, 'b) thread =
  th_deps :: "('d, 'b) paidRouteDeps"
  th_request :: Request
  th_phase :: phase
  th_writer :: statusWriter

type_synonym ('d, 'b) system = "('d, 'b) thread list \<times> ('d, 'b) World"

fun holding :: "phase \<Rightarrow> bool" where
  "holding PhGate = False"
| "holding (PhDone _) = False"
| "holding _ = True"

definition holders :: "('d, 'b) thread list \<Rightarrow> nat" where
  "holders ts = length (filter (\<lambda>t. holding (th_phase t)) ts)"

text \<open>A request arrives for a paid route of the mux, or one handler makes a step.\<close>

inductive sysStep :: "nat \<Rightarrow> ('d, 'b) system \<Rightarrow> ('d, 'b) system \<Rightarrow> bool" for capacity where
  arrive: "paid_route deps \<Longrightarrow> dp_sem deps = Some capacity \<Longrightarrow>
    sysStep capacity (ts, w)
      (ts @ [\<lparr>th_deps = deps, th_request = r, th_phase = PhGate, th_writer = newStatusWriter rw\<rparr>], w)"
| advance: "i < length ts \<Longrightarrow> t = ts ! i \<Longrightarrow>
    mwStep (th_deps t) (th_request t) (th_phase t, th_writer t, w) = (ph, sw, w') \<Longrightarrow>
    sysStep capacity (ts, w) (ts[i := t\<lparr>th_phase := ph, th_writer := sw\<rparr>], w')"

inductive_cases sysStepE: "sysStep capacity s s'"

definition sysOk :: "nat \<Rightarrow> ('d, 'b) system \<Rightarrow> bool" where
  "sysOk capacity s \<longleftrightarrow>
     w_sem (snd s) = holders (fst s) \<and> holders (fst s) \<le> capacity \<and>
     (\<forall>t\<in>set (fst s). paid_route (th_deps t) \<and> dp_sem (th_deps t) = Some capacity)"

text \<open>What a step does to the semaphore, by the phases it goes between.\<close>

context paid_route
begin

lemma mwStep_sem:
  assumes "dp_sem deps = Some capacity" and "mwStep deps r (ph, sw, w) = (ph', sw', w')"
    and "w_sem w \<le> capacity" and "holding ph \<longrightarrow> 0 < w_sem w"
  shows "w_sem w' + (if holding ph then 1 else 0) = w_sem w + (if holding ph' then 1 else 0)" and "w_sem w' \<le> capacity"
proof -
  have o: "w_sem w2 = w_sem w1" if "callOpenSession deps req w1 = (x, w2)" for req w1 w2 x
    using traced_callRpc [OF payee.quiet_open, of "dp_payee deps" "RpcOpenSession req" ReplyOpened req w1 x w2] that
    by (simp add: rpcAct_def callOpenSession_def traced_def)
  have q: "w_sem w2 = w_sem w1" if "callProcessPayment deps pay k w1 = (x, w2)" for pay k w1 w2 x
    using traced_callRpc [OF payee.quiet_process, of "dp_payee deps" "RpcProcessPayment pay k" ReplyProcessed pay k w1 x w2] that
    by (simp add: rpcAct_def callProcessPayment_def traced_def)
  have d: "w_sem w2 = w_sem w1" if "callDebitBalance deps s k n w1 = (x, w2)" for s k n w1 w2 x
    using debit_traced [OF that] by (simp add: traced_def)
  have d': "w_sem (snd (callDebitBalance deps s k n w1)) = w_sem w1" for s k n w1
    using d [of s k n w1] by (metis prod.collapse)
  have c: "w_sem (snd (callCloseSession deps s k w1)) = w_sem w1" for s k w1
    using close_traced [of w1 s k] by (auto simp: traced_def)
  have e: "w_sem w2 = w_sem w1" if "m_EstimateWorkUnits (dp_module deps) body model w1 = (x, w2)" for body model w1 w2 x
    using mdl.estimate_quiet [of w1 body model] that by (simp add: extends_def)
  have s: "w_sem w2 = w_sem w1" if "m_Serve (dp_module deps) sw r body model url w1 = (x, sw1, w2)"
    for sw r body model url w1 w2 x sw1
    using mdl.serve_quiet [of w1 sw r body model url] that by (simp add: extends_def)
  have "w_sem w' + (if holding ph then 1 else 0) = w_sem w + (if holding ph' then 1 else 0) \<and> w_sem w' \<le> capacity"
  proof (cases ph)
    case PhGate
    then show ?thesis using assms
      by (auto simp: acquireSlot_def rejectCapacity_def Let_def split: if_splits)
  next
    case PhBody
    then show ?thesis using assms by (auto split: sum.splits option.splits)
  next
    case (PhOpen ad)
    then show ?thesis using assms by (auto split: prod.splits sum.splits dest!: o)
  next
    case (PhProcess ad)
    then show ?thesis using assms by (auto split: prod.splits sum.splits dest!: q)
  next
    case (PhEstimate ad s)
    then show ?thesis using assms by (auto split: prod.splits sum.splits dest!: e)
  next
    case (PhDebit ad s est)
    then show ?thesis using assms by (auto split: prod.splits sum.splits if_splits dest!: d)
  next
    case (PhServe ad s est)
    then show ?thesis using assms by (auto simp: Let_def split: prod.splits served.splits option.splits dest!: s)
  next
    case (PhReconcile ad s est actual)
    then show ?thesis using assms by (auto simp: d')
  next
    case (PhClose ad s p)
    then show ?thesis using assms by (auto simp: c)
  next
    case (PhRelease p)
    then show ?thesis using assms by (auto simp: releaseSlot_def)
  qed (use assms in \<open>auto simp: split_beta\<close>)
  then show "w_sem w' + (if holding ph then 1 else 0) = w_sem w + (if holding ph' then 1 else 0)" and "w_sem w' \<le> capacity"
    by blast+
qed

end

lemma holders_update:
  "i < length ts \<Longrightarrow> holders (ts[i := t]) + (if holding (th_phase (ts ! i)) then 1 else 0) =
     holders ts + (if holding (th_phase t) then 1 else 0)"
proof (induction ts arbitrary: i)
  case (Cons a ts)
  then show ?case by (cases i) (auto simp: holders_def)
qed simp

lemma holders_pos: "i < length ts \<Longrightarrow> holding (th_phase (ts ! i)) \<Longrightarrow> 0 < holders ts"
  by (auto simp: holders_def length_filter_conv_card card_gt_0_iff)

lemma sysOk_step:
  assumes "sysStep capacity s s'" and "sysOk capacity s"
  shows "sysOk capacity s'"
  using assms(1)
proof cases
  case (arrive deps ts w r rw)
  then show ?thesis using assms(2) by (auto simp: sysOk_def holders_def)
next
  case (advance i ts t w ph sw w')
  have t: "t \<in> set ts" using advance by simp
  then have pr: "paid_route (th_deps t)" and sem: "dp_sem (th_deps t) = Some capacity"
    using assms(2) advance by (auto simp: sysOk_def)
  have ok: "w_sem w = holders ts" "holders ts \<le> capacity" using assms(2) advance by (auto simp: sysOk_def)
  have pos: "holding (th_phase t) \<longrightarrow> 0 < w_sem w"
    using ok holders_pos [OF advance(3)] advance(4) by simp
  note sem_step = paid_route.mwStep_sem [OF pr sem advance(5) _ pos]
  have "w_sem w' = holders (ts[i := t\<lparr>th_phase := ph, th_writer := sw\<rparr>])"
    using sem_step(1) holders_update [OF advance(3), of "t\<lparr>th_phase := ph, th_writer := sw\<rparr>"] ok advance(4)
    by (auto split: if_splits)
  moreover have "w_sem w' \<le> capacity" using sem_step(2) ok by simp
  moreover have "\<forall>u\<in>set (ts[i := t\<lparr>th_phase := ph, th_writer := sw\<rparr>]).
      paid_route (th_deps u) \<and> dp_sem (th_deps u) = Some capacity"
    using set_update_subset_insert [of ts i "t\<lparr>th_phase := ph, th_writer := sw\<rparr>"] assms(2) advance t
    by (fastforce simp: sysOk_def)
  ultimately show ?thesis using advance by (simp add: sysOk_def)
qed

lemma sysOk_reachable: "(sysStep capacity)\<^sup>*\<^sup>* s s' \<Longrightarrow> sysOk capacity s \<Longrightarrow> sysOk capacity s'"
  by (induction rule: rtranclp_induct) (auto intro: sysOk_step)

end
