(* ===== verification/Samples.thy ===== *)
theory Samples
  imports Outbound Concurrency
begin

text \<open>
  A concrete worker for the instances of the properties: a file with one chat offering, a
  daemon that accepts every call, a backend that answers every request, and a paid
  request that runs through the whole pipeline. \<open>run_sample\<close> starts the worker and
  \<open>request_sample\<close> serves the request; the library parameters are concrete functions.
\<close>

section \<open>A concrete worker\<close>

text \<open>The state of its transport is the log of the requests it was handed.\<close>

type_synonym sampleBackend = "unit \<times> HttpRequest list"

abbreviation workerWorld :: "(unit, sampleBackend) World" where
  "workerWorld \<equiv> \<lparr>w_daemon = (), w_backend = ((), []), w_modelEnc = Map.empty, w_sem = 0, w_calls = []\<rparr>"

definition sampleEnv :: "(unit, sampleBackend) Env" where
  "sampleEnv =
     \<lparr>en_flags = Some \<lparr>fl_configPath = ''worker.yaml'', fl_logLevel = ''info'', fl_metricsListen = [],
                      fl_metricsMaxSeriesPerMetric = 10000\<rparr>,
      en_decodeYAML = (\<lambda>_. (Inr sampleYaml, TailEOF)), en_openFile = (\<lambda>_. Inr []),
      en_newClient = (\<lambda>_. Inr sampleStub), en_tiktoken = sampleLib,
      en_transport = logged (sampleTransport ''{\"usage\":{\"total_tokens\":20}}''), en_runtime = sampleRuntime,
      en_version = ''dev'', en_goVersion = ''go''\<rparr>"

definition samplePayee :: "(unit, sampleBackend) Client" where
  "samplePayee = WithMetrics (grpcClient sampleStub) False"

definition sampleModule :: "(unit, sampleBackend) Module" where
  "sampleModule = chatModule sampleRuntime (workerTok sampleLib)
     (fetchClient (logged (sampleTransport ''{\"usage\":{\"total_tokens\":20}}''))) False"

lemma moduleFor_sample:
  "moduleFor sampleRuntime (workerTok sampleLib) (fetchClient (logged (sampleTransport ''{\"usage\":{\"total_tokens\":20}}'')))
     chatCapability = Some sampleModule"
  by (simp add: moduleFor_def sampleModule_def)

lemma buildMux_sample:
  "\<exists>m. buildMux sampleEnv (projectFromYAML sampleYaml) samplePayee = Started m \<and>
     map_of (mx_routes m) (''POST'', chatHTTPPath) = Some (PaidRoute sampleModule) \<and> mx_cfg m = projectFromYAML sampleYaml \<and>
     mx_payee m = samplePayee \<and> mx_paidSem m = 2 \<and> mx_recorder m = RecNoop NewNoop"
proof -
  define cfg where "cfg = projectFromYAML sampleYaml"
  have caps: "map ce_Capability (Ordered (Capabilities cfg)) = [chatCapability]"
    by (simp add: cfg_def projectFromYAML_def New_def sampleYaml_def projectCapability_def Let_def)
  have mc: "MaxConcurrentRequests (Worker cfg) = 2"
    by (simp add: cfg_def projectFromYAML_def New_def sampleYaml_def Let_def)
  obtain e where e: "Ordered (Capabilities cfg) = [e]" "ce_Capability e = chatCapability" using caps by auto
  have path: "m_HTTPPath sampleModule = chatHTTPPath" "m_HTTPMethod sampleModule = ''POST''" "m_Capability sampleModule = chatCapability"
    by (simp_all add: sampleModule_def chatModule_def)
  show ?thesis
    using e mc path moduleFor_sample
    unfolding cfg_def [symmetric]
    by (simp add: buildMux_def sampleEnv_def RegisterUnpaidHandlers_def Register_def NewMux_def WithRecorder_def
        startRecorder_def chooseRecorder_def Let_def workerTok_def [symmetric]
        RegisterPaidRoute_def missingCapabilityModules_def HasPaidCapability_def)
qed

lemma run_sample: "\<exists>m w1. run sampleEnv workerWorld = (Started m, w1) \<and>
     map_of (mx_routes m) (''POST'', chatHTTPPath) = Some (PaidRoute sampleModule) \<and> mx_cfg m = projectFromYAML sampleYaml \<and>
     mx_payee m = samplePayee \<and> mx_paidSem m = 2 \<and> mx_recorder m = RecNoop NewNoop"
proof -
  define cfg where "cfg = projectFromYAML sampleYaml"
  define catalog where "catalog = \<lparr>lc_Capabilities = map daemonView (Ordered (Capabilities cfg))\<rparr>"
  have "showInt 7 = ''7''" by code_simp
  then have l: "grpcListCapabilities sampleStub () = (Inr catalog, ())"
    by (simp add: grpcListCapabilities_def sampleStub_def catalog_def cfg_def projectFromYAML_def New_def sampleYaml_def
        projectCapability_def projectOffering_def daemonView_def mapOffering_def priceInfoToWeiString_def quot_nonneg Let_def)
  have v: "VerifyDaemonCatalog (Some cfg) catalog = None" by (simp add: VerifyDaemonCatalog_ok catalog_def)
  obtain m where "buildMux sampleEnv cfg samplePayee = Started m"
      "map_of (mx_routes m) (''POST'', chatHTTPPath) = Some (PaidRoute sampleModule)" "mx_cfg m = projectFromYAML sampleYaml"
     "mx_payee m = samplePayee" "mx_paidSem m = 2" "mx_recorder m = RecNoop NewNoop"
    using buildMux_sample unfolding cfg_def by blast
  moreover have "\<exists>w1. run sampleEnv workerWorld = (buildMux sampleEnv cfg samplePayee, w1)"
  proof -
    have f: "en_flags sampleEnv = Some \<lparr>fl_configPath = ''worker.yaml'', fl_logLevel = ''info'', fl_metricsListen = [],
        fl_metricsMaxSeriesPerMetric = 10000\<rparr>"
      "Dial (rt_quote (en_runtime sampleEnv)) (en_newClient sampleEnv) (PaymentDaemonSocket (Worker cfg)) = Inr sampleStub"
      "Load (en_decodeYAML sampleEnv) (en_openFile sampleEnv) ''worker.yaml'' = Inr cfg"
      using Load_sample by (simp_all add: sampleEnv_def cfg_def Dial_def projectFromYAML_def New_def sampleYaml_def Let_def)
    have "\<exists>w1. cl_ListCapabilities samplePayee w = (Inr catalog, w1)" if "w_daemon w = ()" for w
      using l list_result [of sampleStub False w] that by (simp add: samplePayee_def prod_eq_iff)
    then obtain w2 where "cl_ListCapabilities samplePayee (emit (SetMaxConcurrent (MaxConcurrentRequests (Worker cfg)))
        (emit (SetBuildInfo (en_version sampleEnv) (showInt (ProtocolVersion cfg)) (en_goVersion sampleEnv)) workerWorld)) =
        (Inr catalog, w2)" by fastforce
    then show ?thesis
      using f v by (simp add: run_def validateMetricsListen_def samplePayee_def [symmetric] Let_def)
  qed
  ultimately show ?thesis by metis
qed

section \<open>A concrete request\<close>

text \<open>A paid chat request to the concrete worker: its payment is the byte \<open>a\<close>, its estimate 16 tokens,
  the backend reports 20. The hash is left symbolic.\<close>

definition sampleRequest :: Request where
  "sampleRequest = \<lparr>rq_Method = ''POST'', rq_Path = chatHTTPPath, rq_Header = [(''Livepeer-Payment'', ''YQ=='')],
     rq_Body = sampleChat2, rq_BodyErr = None, rq_CtxErr = None\<rparr>"

definition sampleDeps :: "(unit, sampleBackend) paidRouteDeps" where
  "sampleDeps = routeDeps sampleModule sampleYaml samplePayee 2"

definition sampleAdmitted :: Admitted where
  "sampleAdmitted = \<lparr>ad_body = sampleChat2, ad_payment = ''a'', ad_model = ''m'',
     ad_route = \<lparr>mr_Capability = chatCapability, mr_Model = ''m'', mr_WorkUnit = ''token'', mr_BackendURL = ''http://h'',
                 mr_PricePerWorkUnitWei = ''7''\<rparr>, ad_price = 7\<rparr>"

lemma admit_sample: "mwAdmit sampleDeps sampleRequest = Inr sampleAdmitted"
  by code_simp

lemma sampleDeps_route: "paid_route sampleDeps"
  unfolding sampleDeps_def samplePayee_def by (rule worker_route [OF moduleFor_sample])

lemmas sampleCall_defs = callOpenSession_def callProcessPayment_def callDebitBalance_def callCloseSession_def callRpc_def
  sampleDeps_def routeDeps_def samplePayee_def WithMetrics_def meteredClient_def meteredRPC_def grpcClient_def onDaemon_def
  grpcOpenSession_def grpcProcessPayment_def grpcDebitBalance_def grpcCloseSession_def sampleStub_def

text \<open>The concrete daemon accepts every call; only the log grows.\<close>

definition later :: "(unit, sampleBackend) World \<Rightarrow> call list \<Rightarrow> (unit, sampleBackend) World \<Rightarrow> bool" where
  "later w tr w' \<longleftrightarrow> effects (w_calls w') = effects (w_calls w) @ tr \<and> w_modelEnc w' = w_modelEnc w \<and> w_backend w' = w_backend w"

lemma open_sample: "\<exists>res w'. callOpenSession sampleDeps req w = (Inr res, w') \<and> later w [Rpc (RpcOpenSession req) (ReplyOpened res)] w'"
  by (simp add: sampleCall_defs later_def Let_def)

lemma process_sample: "\<exists>pp w'. callProcessPayment sampleDeps p k w = (Inr pp, w') \<and> pp_Sender pp = ''s'' \<and>
    later w [Rpc (RpcProcessPayment p k) (ReplyProcessed pp)] w'"
  by (simp add: sampleCall_defs later_def Let_def)

lemma debit_sample: "\<exists>db w'. callDebitBalance sampleDeps s k n w = (Inr db, w') \<and> db_BalanceWei db = 5 \<and>
    later w [Rpc (RpcDebitBalance s k n) (ReplyBalance 5)] w'"
proof -
  have "setBytes [CHR 0x05] = 5" by code_simp
  then show ?thesis by (simp add: sampleCall_defs later_def Let_def)
qed

lemma close_sample: "\<exists>res. later w [Rpc (RpcCloseSession s k) (ReplyClosed res)] (snd (callCloseSession sampleDeps s k w))"
  by (simp add: sampleCall_defs later_def Let_def)

lemma estimate_sample:
  assumes "w_modelEnc w = Map.empty"
  shows "\<exists>w'. m_EstimateWorkUnits sampleModule sampleChat2 ''m'' w = (Inr 16, w') \<and> effects (w_calls w') = effects (w_calls w) \<and>
    w_backend w' = w_backend w"
proof -
  have p: "parseChat sampleChat2 = Some \<lparr>cr_Model = ''m'', cr_MaxTokens = Some 10, cr_Stream = False,
      cr_Messages = [\<lparr>rm_Role = ''user'', rm_Content = JStr ''hi''\<rparr>]\<rparr>" by code_simp
  have "cacheOk sampleLib (w_modelEnc w)" using assms by (simp add: cacheOk_empty)
  from workerTokenizer.chatEstimate_result [OF this p, of sampleRuntime False 2048 "''m''"] sampleChat_tokens
  have "fst (m_EstimateWorkUnits sampleModule sampleChat2 ''m'' w) = Inr 16"
    by (simp add: sampleModule_def chatModule_def workerTok_def chatOutput_def wrap64_small)
  moreover have "extends w (snd (m_EstimateWorkUnits sampleModule sampleChat2 ''m'' w))"
    unfolding sampleModule_def by (rule chatQuiet.estimate_quiet)
  moreover have "w_backend (snd (m_EstimateWorkUnits sampleModule sampleChat2 ''m'' w)) = w_backend w"
    unfolding sampleModule_def by (rule chatOutbound.out.estimate_backend [unfolded routeDeps_def, simplified])
  ultimately show ?thesis by (metis extends_effects prod.collapse)
qed

lemma serve_sample:
  assumes "wr_sent (sw_ResponseWriter s) = None" and "wr_accepts (sw_ResponseWriter s) = None"
  shows "\<exists>s' w' hs. m_Serve sampleModule s r sampleChat2 ''m'' ''http://h'' w = (Returned 20 None, s', w') \<and>
    effects (w_calls w') = effects (w_calls w) \<and> wr_sent (sw_ResponseWriter s') = Some (200, hs) \<and>
    length (snd (w_backend w')) = Suc (length (snd (w_backend w)))"
proof -
  let ?body = "''{\"usage\":{\"total_tokens\":20}}''"
  have u: "urlParseOk (targetURL ''http://h'' chatHTTPPath)" by code_simp
  have t: "usageToUnits (parseUsage ?body) = 20" by code_simp
  have p: "chatParse sampleRuntime sampleChat2 = Inr \<lparr>cr_Model = ''m'', cr_MaxTokens = Some 10, cr_Stream = False,
      cr_Messages = [\<lparr>rm_Role = ''user'', rm_Content = JStr ''hi''\<rparr>]\<rparr>" by code_simp
  obtain s' where s': "relayJSON 200 ?body s = (False, s')"
    using relayJSON_no_panic [of 200 ?body s] by (cases "relayJSON 200 ?body s") (simp add: finalStatus_def)
  have "\<exists>w'. m_Serve sampleModule s r sampleChat2 ''m'' ''http://h'' w = (Returned 20 None, s', w') \<and>
      length (snd (w_backend w')) = Suc (length (snd (w_backend w)))"
    using u t p s'
    by (simp add: sampleModule_def chatModule_def chatServe_def serveJSON_def backendWithMetrics_def meteredBackend_def
        fetchClient_def fetchDoJSON_def fetchDoRaw_def logged_def sampleTransport_def recordOutcome_def Let_def)
  moreover have "extends w (snd (snd (m_Serve sampleModule s r sampleChat2 ''m'' ''http://h'' w)))"
    unfolding sampleModule_def by (rule chatQuiet.serve_quiet)
  moreover have "\<exists>hs. wr_sent (sw_ResponseWriter s') = Some (200, hs)"
    using relayJSON_fresh(1) [OF assms, of 200 ?body] s' by (simp add: finalStatus_def bodyAllowed_def)
  ultimately show ?thesis by (metis extends_effects snd_conv)
qed

lemma serve16_sample:
  assumes "wr_sent (sw_ResponseWriter sw) = None" and "wr_accepts (sw_ResponseWriter sw) = None"
  shows "\<exists>sw' w'. mwServe sampleDeps sampleRequest sampleChat2 ''m'' (ad_route sampleAdmitted) ''s'' k 16 sw w = (False, sw', w') \<and>
    effects (w_calls w') = effects (w_calls w) @
      [Dispatch chatCapability ''http://h'', Rpc (RpcDebitBalance ''s'' k 4) (ReplyBalance 5)] \<and>
    length (snd (w_backend w')) = Suc (length (snd (w_backend w)))"
proof -
  define w0 where "w0 = note_call (Dispatch chatCapability ''http://h'') w"
  obtain s' w1 where 1: "m_Serve sampleModule sw sampleRequest sampleChat2 ''m'' ''http://h'' w0 = (Returned 20 None, s', w1)"
    "effects (w_calls w1) = effects (w_calls w0)" "length (snd (w_backend w1)) = Suc (length (snd (w_backend w0)))"
    using serve_sample [OF assms, of sampleRequest w0] by blast
  obtain db w2 where 2: "callDebitBalance sampleDeps ''s'' k 4 (emit (AddWorkUnits chatCapability ''m'' UnitToken 20) w1) = (Inr db, w2)"
    "later (emit (AddWorkUnits chatCapability ''m'' UnitToken 20) w1) [Rpc (RpcDebitBalance ''s'' k 4) (ReplyBalance 5)] w2"
    using debit_sample by blast
  have md: "dp_module sampleDeps = sampleModule" "m_Capability sampleModule = chatCapability" "m_Unit sampleModule = UnitToken"
    by (simp_all add: sampleDeps_def routeDeps_def sampleModule_def chatModule_def)
  have "mwServe sampleDeps sampleRequest sampleChat2 ''m'' (ad_route sampleAdmitted) ''s'' k 16 sw w = (False, s', w2)"
    using 1 2(1) md by (simp add: mwServe_def sampleAdmitted_def w0_def [symmetric] wrap64_small)
  then show ?thesis using 1(2,3) 2(2) by (simp add: later_def w0_def)
qed

lemma paid_sample:
  assumes "wr_sent (sw_ResponseWriter sw) = None" and "wr_accepts (sw_ResponseWriter sw) = None" and "w_modelEnc w = Map.empty"
  shows "\<exists>sw' w' req o1 pp c. mwPaid sampleDeps sampleRequest sampleChat2 ''m'' (ad_route sampleAdmitted) ''a'' (deriveWorkID ''a'') 7 sw w =
      (False, sw', w') \<and>
    effects (w_calls w') = effects (w_calls w) @
      [Rpc (RpcOpenSession req) (ReplyOpened o1), Rpc (RpcProcessPayment ''a'' (deriveWorkID ''a'')) (ReplyProcessed pp),
       Rpc (RpcDebitBalance ''s'' (deriveWorkID ''a'') 16) (ReplyBalance 5), Dispatch chatCapability ''http://h'',
       Rpc (RpcDebitBalance ''s'' (deriveWorkID ''a'') 4) (ReplyBalance 5), Rpc (RpcCloseSession ''s'' (deriveWorkID ''a'')) (ReplyClosed c)] \<and>
    length (snd (w_backend w')) = Suc (length (snd (w_backend w)))"
proof -
  define k where "k = deriveWorkID ''a''"
  define req where "req = \<lparr>os_WorkID = k, os_Capability = chatCapability, os_Offering = ''m'', os_PricePerWorkUnitWei = 7, os_WorkUnit = ''token''\<rparr>"
  obtain o1 w1 where 1: "callOpenSession sampleDeps req w = (Inr o1, w1)" "later w [Rpc (RpcOpenSession req) (ReplyOpened o1)] w1"
    using open_sample by blast
  obtain pp w2 where 2: "callProcessPayment sampleDeps ''a'' k w1 = (Inr pp, w2)" "pp_Sender pp = ''s''"
    "later w1 [Rpc (RpcProcessPayment ''a'' k) (ReplyProcessed pp)] w2"
    using process_sample by blast
  obtain w3 where 3: "m_EstimateWorkUnits sampleModule sampleChat2 ''m'' w2 = (Inr 16, w3)" "effects (w_calls w3) = effects (w_calls w2)" "w_backend w3 = w_backend w2"
    using estimate_sample [of w2] assms(3) 1(2) 2(3) by (auto simp: later_def)
  obtain db w4 where 4: "callDebitBalance sampleDeps ''s'' k 16 w3 = (Inr db, w4)" "db_BalanceWei db = 5"
    "later w3 [Rpc (RpcDebitBalance ''s'' k 16) (ReplyBalance 5)] w4"
    using debit_sample by blast
  obtain sw' w5 where 5: "mwServe sampleDeps sampleRequest sampleChat2 ''m'' (ad_route sampleAdmitted) ''s'' k 16 sw w4 = (False, sw', w5)"
    "effects (w_calls w5) = effects (w_calls w4) @
      [Dispatch chatCapability ''http://h'', Rpc (RpcDebitBalance ''s'' k 4) (ReplyBalance 5)]"
    "length (snd (w_backend w5)) = Suc (length (snd (w_backend w4)))"
    using serve16_sample [OF assms(1,2)] by blast
  obtain c where 6: "later w5 [Rpc (RpcCloseSession ''s'' k) (ReplyClosed c)] (snd (callCloseSession sampleDeps ''s'' k w5))"
    using close_sample by blast
  have md: "dp_module sampleDeps = sampleModule" by (simp add: sampleDeps_def routeDeps_def)
  have "mwPaid sampleDeps sampleRequest sampleChat2 ''m'' (ad_route sampleAdmitted) ''a'' k 7 sw w =
      (False, sw', snd (callCloseSession sampleDeps ''s'' k w5))"
    using 1(1) 2(1,2) 3(1) 4(1,2) 5(1) md
    by (simp add: mwPaid_def mwCharge_def sampleAdmitted_def req_def)
  then show ?thesis using 1(2) 2(3) 3(2,3) 4(3) 5(2,3) 6 by (auto simp: later_def k_def [symmetric])
qed

lemma request_sample:
  "\<exists>sw' w' xs ys. paymentMiddleware sampleDeps sampleRequest (NewRespWriter None) workerWorld = (False, sw', w') \<and>
     effects (w_calls w') = xs @ Dispatch chatCapability ''http://h'' # ys \<and> length xs = 3 \<and> length (snd (w_backend w')) = 1"
proof -
  obtain w1 where w1: "acquireSlot sampleDeps workerWorld = Some w1" "effects (w_calls w1) = []" "w_modelEnc w1 = Map.empty"
    "w_backend w1 = ((), [])"
    by (simp add: acquireSlot_def sampleDeps_def routeDeps_def)
  define sw where "sw = newStatusWriter (NewRespWriter None)"
  have sw: "wr_sent (sw_ResponseWriter sw) = None" "wr_accepts (sw_ResponseWriter sw) = None"
    by (simp_all add: sw_def newStatusWriter_def NewRespWriter_def)
  obtain sw' w2 req o1 pp c where p: "mwPaid sampleDeps sampleRequest sampleChat2 ''m'' (ad_route sampleAdmitted) ''a'' (deriveWorkID ''a'') 7 sw w1 =
      (False, sw', w2)"
    and e: "effects (w_calls w2) =
      [Rpc (RpcOpenSession req) (ReplyOpened o1), Rpc (RpcProcessPayment ''a'' (deriveWorkID ''a'')) (ReplyProcessed pp),
       Rpc (RpcDebitBalance ''s'' (deriveWorkID ''a'') 16) (ReplyBalance 5), Dispatch chatCapability ''http://h'',
       Rpc (RpcDebitBalance ''s'' (deriveWorkID ''a'') 4) (ReplyBalance 5), Rpc (RpcCloseSession ''s'' (deriveWorkID ''a'')) (ReplyClosed c)]"
    and n: "length (snd (w_backend w2)) = 1"
    using paid_sample [OF sw w1(3)] w1(2,4) by fastforce
  have b: "mwBody sampleDeps sampleRequest sw w1 = (False, ''m'', sw', w2)"
    using p by (simp add: mwBody_def admit_sample sampleAdmitted_def)
  have "\<exists>w'. paymentMiddleware sampleDeps sampleRequest (NewRespWriter None) workerWorld = (False, sw', w') \<and>
      effects (w_calls w') = effects (w_calls w2) \<and> w_backend w' = w_backend w2"
    using w1(1) b
    by (simp add: paymentMiddleware_def sw_def [symmetric] releaseSlot_def recordRequest_def recordCall_def
        recPanics_noop sampleDeps_def routeDeps_def Let_def)
  then show ?thesis using n unfolding e
    by (metis (no_types, lifting) append_Cons append_Nil length_Cons list.size(3) numeral_3_eq_3)
qed

lemma sampleDeps_mux:
  assumes "mx_cfg m = projectFromYAML sampleYaml" and "mx_payee m = samplePayee" and "mx_paidSem m = 2"
    and "mx_recorder m = RecNoop NewNoop"
  shows "depsOf m sampleModule = sampleDeps"
  using assms by (simp add: depsOf_def sampleDeps_def routeDeps_def runningConfig_valid [OF wf_sampleYaml])

text \<open>The started worker serves the request.\<close>

lemma served_sample:
  "\<exists>m w1 rw' w' xs ys. run sampleEnv workerWorld = (Started m, w1) \<and> PaidRoute sampleModule \<in> snd ` set (mx_routes m) \<and>
     depsOf m sampleModule = sampleDeps \<and> ServeHTTP m sampleRequest (NewRespWriter None) workerWorld = (False, rw', w') \<and>
     effects (w_calls w') = xs @ Dispatch chatCapability ''http://h'' # ys \<and> length xs = 3 \<and> length (snd (w_backend w')) = 1"
proof -
  obtain m w1 where m: "run sampleEnv workerWorld = (Started m, w1)"
    "map_of (mx_routes m) (''POST'', chatHTTPPath) = Some (PaidRoute sampleModule)" "mx_cfg m = projectFromYAML sampleYaml"
    "mx_payee m = samplePayee" "mx_paidSem m = 2" "mx_recorder m = RecNoop NewNoop"
    using run_sample by blast
  obtain sw' w' xs ys where s: "paymentMiddleware sampleDeps sampleRequest (NewRespWriter None) workerWorld = (False, sw', w')"
    "effects (w_calls w') = xs @ Dispatch chatCapability ''http://h'' # ys" "length xs = 3" "length (snd (w_backend w')) = 1"
    using request_sample by blast
  have d: "depsOf m sampleModule = sampleDeps" using m by (intro sampleDeps_mux)
  have "findRoute m sampleRequest = Some (PaidRoute sampleModule)"
    using m(2) by (simp add: findRoute_def sampleRequest_def)
  then have "ServeHTTP m sampleRequest (NewRespWriter None) workerWorld = (False, sw_ResponseWriter sw', w')"
    using s(1) d by (simp add: ServeHTTP_def)
  moreover have "PaidRoute sampleModule \<in> snd ` set (mx_routes m)" using map_of_SomeD [OF m(2)] by force
  ultimately show ?thesis using m(1) s d by blast
qed

lemma sampleRequest_paid: "rq_Path sampleRequest \<notin> snd ` set unpaidRoutes"
  by (simp add: sampleRequest_def unpaidRoutes_def)

end
