(* ===== verification/Interleaving.thy ===== *)
theory Interleaving
  imports Session Concurrency
begin

text \<open>
  What a handler does among others. \<open>sysTrace\<close> runs the system of \<open>Concurrency\<close> and keeps, for
  every call on the daemon and every dispatch, the handler that made it; \<open>ownTrace\<close> is the
  part of one handler.

  The lemmas lift the payment protocol to any interleaving: whatever the other handlers do in
  between, the calls of each handler are a run of the protocol, complete when the handler is
  done (\<open>handlerOk\<close> by rule induction over \<open>sysTrace\<close>). The daemon sees the calls in the order of
  the trace, so on a client that keeps a ledger, and keeps different sessions apart (locale
  \<open>keyed_ledger\<close>), a balance changes by the sum of what the handlers account for: no update is
  lost.
\<close>

section \<open>Runs with the author of every call\<close>

type_synonym events = "(nat \<times> call) list"

definition ownTrace :: "nat \<Rightarrow> events \<Rightarrow> call list" where
  "ownTrace i tr = map snd (filter (\<lambda>e. fst e = i) tr)"

lemma ownTrace_append [simp]: "ownTrace i (xs @ ys) = ownTrace i xs @ ownTrace i ys"
  by (simp add: ownTrace_def)

lemma ownTrace_step [simp]: "ownTrace i (map (Pair j) es) = (if i = j then es else [])"
  by (auto simp: ownTrace_def comp_def)

lemma ownTrace_Nil [simp]: "ownTrace i [] = []"
  by (simp add: ownTrace_def)

inductive sysTrace :: "nat \<Rightarrow> ('d, 'b) system \<Rightarrow> events \<Rightarrow> ('d, 'b) system \<Rightarrow> bool" for capacity where
  trace_start: "sysTrace capacity s [] s"
| trace_arrive: "sysTrace capacity s tr (ts, w) \<Longrightarrow> paid_route deps \<Longrightarrow> dp_sem deps = Some capacity \<Longrightarrow>
    sysTrace capacity s tr
      (ts @ [\<lparr>th_deps = deps, th_request = r, th_phase = PhGate, th_writer = newStatusWriter rw\<rparr>], w)"
| trace_advance: "sysTrace capacity s tr (ts, w) \<Longrightarrow> i < length ts \<Longrightarrow> t = ts ! i \<Longrightarrow>
    mwStep (th_deps t) (th_request t) (th_phase t, th_writer t, w) = (ph, sw, w') \<Longrightarrow>
    effects (w_calls w') = effects (w_calls w) @ es \<Longrightarrow>
    sysTrace capacity s (tr @ map (Pair i) es) (ts[i := t\<lparr>th_phase := ph, th_writer := sw\<rparr>], w')"

section \<open>The protocol state a phase stands for\<close>

fun phaseProto :: "phase \<Rightarrow> proto \<Rightarrow> bool" where
  "phaseProto PhGate st = (st = Idle)"
| "phaseProto PhBody st = (st = Idle)"
| "phaseProto (PhOpen ad) st = (st = Idle \<and> 0 < ad_price ad)"
| "phaseProto (PhProcess ad) st = (st = Opened (deriveWorkID (ad_payment ad)))"
| "phaseProto (PhEstimate ad s) st = (st = Funded s (deriveWorkID (ad_payment ad)))"
| "phaseProto (PhDebit ad s est) st = (st = Funded s (deriveWorkID (ad_payment ad)) \<and> 0 \<le> est)"
| "phaseProto (PhServe ad s est) st = (st = Paid s (deriveWorkID (ad_payment ad)) \<and> 0 \<le> est)"
| "phaseProto (PhReconcile ad s est actual) st =
     (st = Serving s (deriveWorkID (ad_payment ad)) \<and> 0 \<le> est \<and> int64_range actual)"
| "phaseProto (PhClose ad s p) st =
     (let k = deriveWorkID (ad_payment ad) in st \<in> {Funded s k, Serving s k, Closing s k})"
| "phaseProto (PhRecord label p) st = (st \<in> {Idle, Refused, Done})"
| "phaseProto (PhRelease p) st = (st \<in> {Idle, Refused, Done})"
| "phaseProto (PhDone p) st = (st \<in> {Idle, Refused, Done})"

text \<open>\<open>stepped c w es w'\<close>: the effects \<open>es\<close> were added, and the daemon went through them.\<close>

definition stepped :: "('d, 'b) Client \<Rightarrow> ('d, 'b) World \<Rightarrow> call list \<Rightarrow> ('d, 'b) World \<Rightarrow> bool" where
  "stepped c w es w' \<longleftrightarrow> effects (w_calls w') = effects (w_calls w) @ es \<and> daemonRun c (w_daemon w) es (w_daemon w')"

lemma stepped_traced: "traced c w es ms w' \<Longrightarrow> stepped c w es w'"
  by (simp add: traced_def stepped_def)

lemma stepped_quiet: "effects (w_calls w') = effects (w_calls w) \<Longrightarrow> w_daemon w' = w_daemon w \<Longrightarrow> stepped c w [] w'"
  by (simp add: stepped_def daemonRun_Nil)

lemma stepped_emit: "stepped c w es w' \<Longrightarrow> stepped c w es (emit m w')"
  by (simp add: stepped_def)

lemma stepped_extends: "extends w w' \<Longrightarrow> w_daemon w' = w_daemon w \<Longrightarrow> stepped c w [] w'"
  by (simp add: stepped_quiet extends_effects)

lemma stepped_dispatch: "extends (note_call (Dispatch x y) w) w' \<Longrightarrow> w_daemon w' = w_daemon w \<Longrightarrow> stepped c w [Dispatch x y] w'"
  by (simp add: stepped_def extends_effects daemonRun_Dispatch daemonRun_Nil)

text \<open>What a phase and the calls of its step make of the protocol's state.\<close>

definition follows :: "('d, 'b) Client \<Rightarrow> proto \<Rightarrow> ('d, 'b) World \<Rightarrow> phase \<Rightarrow> ('d, 'b) World \<Rightarrow> bool" where
  "follows c st w ph w' \<longleftrightarrow> (\<exists>es st'. stepped c w es w' \<and> protoRun st es = Some st' \<and> phaseProto ph st')"

lemma followsI: "stepped c w es w' \<Longrightarrow> protoRun st es = Some st' \<Longrightarrow> phaseProto ph st' \<Longrightarrow> follows c st w ph w'"
  unfolding follows_def by blast

lemma follows_quiet: "stepped c w [] w' \<Longrightarrow> phaseProto ph st \<Longrightarrow> follows c st w ph w'"
  by (rule followsI [of _ _ "[]"]) simp_all

section \<open>A step follows the protocol\<close>

context paid_route
begin

lemma open_stepped:
  "callOpenSession deps req w = (res, w') \<Longrightarrow> stepped (dp_payee deps) w [Rpc (RpcOpenSession req) (replyOf ReplyOpened res)] w'"
  unfolding callOpenSession_def using payee.quiet_open
  by (rule stepped_traced [OF traced_callRpc]) (simp_all add: rpcAct_def)

lemma process_stepped:
  "callProcessPayment deps pay k w = (res, w') \<Longrightarrow>
     stepped (dp_payee deps) w [Rpc (RpcProcessPayment pay k) (replyOf ReplyProcessed res)] w'"
  unfolding callProcessPayment_def using payee.quiet_process
  by (rule stepped_traced [OF traced_callRpc]) (simp_all add: rpcAct_def)

lemma debit_stepped:
  "callDebitBalance deps s k n w = (res, w') \<Longrightarrow>
     stepped (dp_payee deps) w [Rpc (RpcDebitBalance s k n) (replyOf (\<lambda>db. ReplyBalance (db_BalanceWei db)) res)] w'"
  by (rule stepped_traced [OF debit_traced])

lemma estimate_stepped:
  "m_EstimateWorkUnits (dp_module deps) body model w = (x, w') \<Longrightarrow> stepped (dp_payee deps) w [] w'"
  using mdl.estimate_quiet [of w body model] mdl.estimate_daemon [of body model w] by (simp add: stepped_extends)

lemma serve_stepped:
  assumes "m_Serve (dp_module deps) sw r body model url (note_call (Dispatch cap url) w) = (out, sw', w')"
  shows "stepped (dp_payee deps) w [Dispatch cap url] w' \<and> (\<forall>n e. out = Returned n e \<longrightarrow> int64_range n)"
  using assms mdl.serve_quiet [of "note_call (Dispatch cap url) w" sw r body model url]
    mdl.serve_daemon [of sw r body model url "note_call (Dispatch cap url) w"]
    mdl.serve_range [of sw r body model url "note_call (Dispatch cap url) w"]
  by (simp add: stepped_dispatch)

lemma reconcile_follows:
  assumes "0 \<le> est" and "int64_range actual" and "est < actual"
  shows "follows (dp_payee deps) (Serving s (deriveWorkID (ad_payment ad))) w (PhClose ad s p)
    (snd (callDebitBalance deps s (deriveWorkID (ad_payment ad)) (wrap64 (actual - est)) w))"
proof -
  obtain res w' where c: "callDebitBalance deps s (deriveWorkID (ad_payment ad)) (wrap64 (actual - est)) w = (res, w')" by fastforce
  have "0 < wrap64 (actual - est)" using assms by (simp add: wrap64_id int64_range_def)
  then show ?thesis using c by (auto intro!: followsI [OF debit_stepped [OF c]])
qed

lemma mwStep_follows:
  assumes "mwStep deps r (ph, sw, w) = (ph', sw', w')" and "phaseProto ph st"
  shows "follows (dp_payee deps) st w ph' w'"
proof (cases ph)
  case PhGate
  then show ?thesis using assms
    by (auto simp: acquireSlot_def rejectCapacity_def Let_def
        split: option.splits if_splits intro!: follows_quiet stepped_quiet)
next
  case PhBody
  then show ?thesis using assms
    by (auto split: sum.splits option.splits intro!: follows_quiet stepped_quiet dest: admitted_price)
next
  case (PhOpen ad)
  then show ?thesis using assms
    by (auto simp: openRequest_def split: prod.splits sum.splits dest!: open_stepped intro!: followsI)
next
  case (PhProcess ad)
  then show ?thesis using assms
    by (auto split: prod.splits sum.splits dest!: process_stepped intro!: followsI stepped_emit)
next
  case (PhEstimate ad s)
  then show ?thesis using assms
    by (auto split: prod.splits sum.splits dest!: estimate_stepped intro!: follows_quiet)
next
  case (PhDebit ad s est)
  then show ?thesis using assms
    by (auto split: prod.splits sum.splits if_splits dest!: debit_stepped intro!: followsI stepped_emit)
next
  case (PhServe ad s est)
  then show ?thesis using assms
    by (auto simp: Let_def split: prod.splits served.splits option.splits if_splits
        dest!: serve_stepped intro!: followsI stepped_emit)
next
  case (PhReconcile ad s est actual)
  then show ?thesis using assms reconcile_follows [of est actual s ad w False]
    by (cases "est < actual") (auto intro: follows_quiet [OF stepped_quiet])
next
  case (PhClose ad s p)
  obtain rep where "stepped (dp_payee deps) w [Rpc (RpcCloseSession s (deriveWorkID (ad_payment ad))) rep]
      (snd (callCloseSession deps s (deriveWorkID (ad_payment ad)) w))"
    using close_traced stepped_traced by metis
  then show ?thesis using assms PhClose by (auto simp: Let_def intro!: followsI)
qed (use assms in \<open>auto simp: recordRequest_def recordCall_def releaseSlot_def Let_def split: if_splits option.splits intro!: follows_quiet stepped_quiet\<close>)

end

section \<open>Every handler follows the protocol\<close>

text \<open>Of handler \<open>i\<close>: it is a paid route, and its own calls have brought the protocol to the state of
  its phase.\<close>

definition handlerOk :: "events \<Rightarrow> nat \<Rightarrow> ('d, 'b) thread \<Rightarrow> bool" where
  "handlerOk tr i t \<longleftrightarrow> paid_route (th_deps t) \<and>
     (\<exists>st. protoRun Idle (ownTrace i tr) = Some st \<and> phaseProto (th_phase t) st)"

definition traceOk :: "events \<Rightarrow> ('d, 'b) thread list \<Rightarrow> bool" where
  "traceOk tr ts \<longleftrightarrow> (\<forall>i<length ts. handlerOk tr i (ts ! i)) \<and> (\<forall>e\<in>set tr. fst e < length ts)"

lemma traceOk_own: "traceOk tr ts \<Longrightarrow> length ts \<le> i \<Longrightarrow> ownTrace i tr = []"
  by (auto simp: traceOk_def ownTrace_def filter_empty_conv)

lemma traceOk_arrive:
  assumes "traceOk tr ts" and "paid_route (th_deps t)" and "th_phase t = PhGate"
  shows "traceOk tr (ts @ [t])"
  using assms traceOk_own [OF assms(1), of "length ts"]
  by (fastforce simp: traceOk_def handlerOk_def nth_append less_Suc_eq)

lemma handlerOk_follows:
  assumes "handlerOk tr i t" and "mwStep (th_deps t) (th_request t) (th_phase t, th_writer t, w) = (ph, sw, w')"
  shows "\<exists>es st. stepped (dp_payee (th_deps t)) w es w' \<and> protoRun Idle (ownTrace i tr @ es) = Some st \<and> phaseProto ph st"
proof -
  obtain st where st: "paid_route (th_deps t)" "protoRun Idle (ownTrace i tr) = Some st" "phaseProto (th_phase t) st"
    using assms(1) by (auto simp: handlerOk_def)
  then show ?thesis using paid_route.mwStep_follows [OF st(1) assms(2) st(3)]
    by (auto simp: follows_def protoRun_append)
qed

lemma traceOk_advance:
  assumes "traceOk tr ts" and "i < length ts" and "protoRun Idle (ownTrace i tr @ es) = Some st" and "phaseProto ph st"
  shows "traceOk (tr @ map (Pair i) es) (ts[i := (ts ! i)\<lparr>th_phase := ph, th_writer := sw\<rparr>])"
  using assms by (fastforce simp: traceOk_def handlerOk_def nth_list_update)

lemma sysTrace_ok:
  assumes "sysTrace capacity ([], w0) tr s"
  shows "traceOk tr (fst s) \<and> effects (w_calls (snd s)) = effects (w_calls w0) @ map snd tr \<and>
    ((\<forall>t\<in>set (fst s). dp_payee (th_deps t) = c) \<longrightarrow> daemonRun c (w_daemon w0) (map snd tr) (w_daemon (snd s)))"
  using assms
proof (induction "([] :: ('a, 'b) thread list, w0)" tr s rule: sysTrace.induct)
  case trace_start
  then show ?case by (simp add: traceOk_def daemonRun_Nil)
next
  case (trace_arrive tr ts w deps r rw)
  then show ?case by (auto intro: traceOk_arrive)
next
  case (trace_advance tr ts w i t ph sw w' es)
  have h: "handlerOk tr i t" using trace_advance by (auto simp: traceOk_def)
  obtain es' st where e: "stepped (dp_payee (th_deps t)) w es' w'" "protoRun Idle (ownTrace i tr @ es') = Some st" "phaseProto ph st"
    using handlerOk_follows [OF h trace_advance(5)] by blast
  have es: "es' = es" using e(1) trace_advance(6) by (simp add: stepped_def)
  have "traceOk (tr @ map (Pair i) es) (ts[i := t\<lparr>th_phase := ph, th_writer := sw\<rparr>])"
    using traceOk_advance [of tr ts i es st ph sw] trace_advance e es by simp
  moreover have "daemonRun c (w_daemon w0) (map snd (tr @ map (Pair i) es)) (w_daemon w')"
    if all: "\<forall>u\<in>set (ts[i := t\<lparr>th_phase := ph, th_writer := sw\<rparr>]). dp_payee (th_deps u) = c"
  proof -
    have same: "map th_deps (ts[i := t\<lparr>th_phase := ph, th_writer := sw\<rparr>]) = map th_deps ts"
      using trace_advance by (simp add: map_update list_update_same_conv)
    then have "\<forall>u\<in>set ts. dp_payee (th_deps u) = c" using all by (metis (no_types, lifting) image_iff set_map)
    then show ?thesis using trace_advance e(1) es by (auto simp: stepped_def comp_def intro: daemonRun_append)
  qed
  ultimately show ?case using trace_advance by (simp add: comp_def)
qed

lemma sysTrace_effects:
  "sysTrace capacity ([], w0) tr (ts, w) \<Longrightarrow> effects (w_calls w) = effects (w_calls w0) @ map snd tr"
  using sysTrace_ok [of capacity w0 tr "(ts, w)"] by simp

lemma sysTrace_known: "sysTrace capacity ([], w0) tr (ts, w) \<Longrightarrow> (i, c) \<in> set tr \<Longrightarrow> i < length ts"
  using sysTrace_ok [of capacity w0 tr "(ts, w)"] by (fastforce simp: traceOk_def)

text \<open>The traces are those of the system's runs: nothing is added and no run is left out.\<close>

lemma sysTrace_runs: "sysTrace capacity s tr s' \<Longrightarrow> (sysStep capacity)\<^sup>*\<^sup>* s s'"
  by (induction rule: sysTrace.induct) (auto intro: rtranclp.rtrancl_into_rtrancl sysStep.intros)

lemma runs_sysTrace: "(sysStep capacity)\<^sup>*\<^sup>* ([], w0) s \<Longrightarrow> \<exists>tr. sysTrace capacity ([], w0) tr s"
proof (induction rule: rtranclp_induct)
  case base
  show ?case using trace_start by blast
next
  case (step s s')
  then obtain tr where tr: "sysTrace capacity ([], w0) tr s" by blast
  from step.hyps(2) show ?case
  proof cases
    case (arrive deps ts w r rw)
    then show ?thesis using tr trace_arrive by blast
  next
    case (advance i ts t w ph sw w')
    have "handlerOk tr i t" using sysTrace_ok [OF tr] advance by (auto simp: traceOk_def)
    from handlerOk_follows [OF this advance(5)] obtain es where "effects (w_calls w') = effects (w_calls w) @ es"
      by (auto simp: stepped_def)
    then show ?thesis using trace_advance [OF _ advance(3-5)] tr advance by blast
  qed
qed

text \<open>A handler that is done has made a complete run of the protocol.\<close>

lemma handlerOk_done: "handlerOk tr i t \<Longrightarrow> th_phase t = PhDone p \<Longrightarrow> protoOk (ownTrace i tr)"
  by (auto simp: handlerOk_def protoOk_def)

lemma sysTrace_handler:
  assumes "sysTrace capacity ([], w0) tr (ts, w)" and "i < length ts"
  shows "protoRun Idle (ownTrace i tr) \<noteq> None" and "th_phase (ts ! i) = PhDone p \<Longrightarrow> protoOk (ownTrace i tr)"
  using sysTrace_ok [OF assms(1)] assms(2) handlerOk_done by (fastforce simp: traceOk_def handlerOk_def)+

text \<open>What a handler dispatches, it was paid for, whatever the others did in between.\<close>

lemma protoRun_dispatch_paid:
  assumes "protoRun Idle (xs @ Dispatch cap url # ys) \<noteq> None"
  shows "\<exists>s k. paidTrace s k xs"
proof -
  obtain st where st: "protoRun Idle xs = Some st" "protoStep st (Dispatch cap url) \<noteq> None"
    using assms by (auto simp: protoRun_append split: option.splits)
  then obtain s k where "st = Paid s k" by (cases st) auto
  then show ?thesis using protoRun_shape [OF st(1), of "[]"] by auto
qed

section \<open>The ledger under interleaving\<close>

text \<open>A call names its session by a work id of \<open>ids\<close>, or none.\<close>

fun keyIn :: "string set \<Rightarrow> call \<Rightarrow> bool" where
  "keyIn ids (Rpc (RpcProcessPayment _ k) _) = (k \<in> ids)"
| "keyIn ids (Rpc (RpcDebitBalance _ k _) _) = (k \<in> ids)"
| "keyIn ids (Rpc (RpcCloseSession _ k) _) = (k \<in> ids)"
| "keyIn ids (Rpc (RpcOpenSession _) _) = True"
| "keyIn ids (Rpc (RpcGetTicketParams _) _) = False"
| "keyIn ids (Dispatch _ _) = True"
| "keyIn ids (Metric _) = False"

locale keyed_ledger = session_ledger c balance rate
  for c :: "('d, 'b) Client"
    and balance :: "bytes \<Rightarrow> string \<Rightarrow> 'd \<Rightarrow> int"
    and rate :: "'d \<Rightarrow> int" +
  fixes ids :: "string set"
  assumes other_process:
      "cl_ProcessPayment c p k' w = (pres, w') \<Longrightarrow> k \<in> ids \<Longrightarrow> k' \<in> ids \<Longrightarrow> k \<noteq> k' \<Longrightarrow>
         balance s k (w_daemon w') = balance s k (w_daemon w) \<and> rate (w_daemon w') = rate (w_daemon w)"
    and other_debit:
      "cl_DebitBalance c s' k' n w = (dres, w') \<Longrightarrow> k \<in> ids \<Longrightarrow> k' \<in> ids \<Longrightarrow> k \<noteq> k' \<Longrightarrow>
         balance s k (w_daemon w') = balance s k (w_daemon w) \<and> rate (w_daemon w') = rate (w_daemon w)"
    and other_close:
      "cl_CloseSession c s' k' w = (cres, w') \<Longrightarrow> k \<in> ids \<Longrightarrow> k' \<in> ids \<Longrightarrow> k \<noteq> k' \<Longrightarrow>
         balance s k (w_daemon w') = balance s k (w_daemon w) \<and> rate (w_daemon w') = rate (w_daemon w)"
begin

text \<open>A call on another session is not seen.\<close>

lemma rpcAct_other:
  assumes "rpcAct c q w = (rep, w')" and "keyIn ids (Rpc q rep)" and "k \<in> ids" and "\<not> usesKey k (Rpc q rep)"
  shows "rate (w_daemon w') = rate (w_daemon w) \<and> balance s k (w_daemon w') = balance s k (w_daemon w)"
  using assms
proof (cases q)
  case (RpcOpenSession req)
  then show ?thesis using assms(1) open_balance [of req w _ w' s k]
    by (cases "cl_OpenSession c req w") (auto simp: rpcAct_def)
next
  case (RpcProcessPayment p k')
  then show ?thesis using assms other_process [of p k' w _ w' k s]
    by (cases "cl_ProcessPayment c p k' w") (auto simp: rpcAct_def)
next
  case (RpcDebitBalance s' k' n)
  then show ?thesis using assms other_debit [of s' k' n w _ w' k s]
    by (cases "cl_DebitBalance c s' k' n w") (auto simp: rpcAct_def)
next
  case (RpcCloseSession s' k')
  then show ?thesis using assms other_close [of s' k' w _ w' k s]
    by (cases "cl_CloseSession c s' k' w") (auto simp: rpcAct_def)
qed simp

lemma daemonRun_keyed:
  assumes "daemonRun c d tr d'" and "list_all (keyIn ids) tr" and "k \<in> ids"
  shows "rate d' = rate d \<and> balance s k d' = balance s k d + account (rate d) s (filter (usesKey k) tr)"
  using assms
proof (induction rule: daemonRun.induct)
  case (daemonRun_Rpc q w rep w1 tr d')
  then show ?case
    using rpcAct_account [OF daemonRun_Rpc.hyps(1), of k s] rpcAct_other [OF daemonRun_Rpc.hyps(1) _ assms(3), of s]
    by (cases "usesKey k (Rpc q rep)") (auto simp: account_def)
qed (simp_all add: account_def)

end

text \<open>The sessions of the protocol are named by work ids.\<close>

definition stateKey :: "proto \<Rightarrow> bool" where
  "stateKey st \<longleftrightarrow>
     (case st of Funded _ k \<Rightarrow> k \<in> range deriveWorkID | Paid _ k \<Rightarrow> k \<in> range deriveWorkID
               | Serving _ k \<Rightarrow> k \<in> range deriveWorkID | Closing _ k \<Rightarrow> k \<in> range deriveWorkID | _ \<Rightarrow> True)"

lemma protoStep_keyIn:
  "protoStep st c = Some st' \<Longrightarrow> stateKey st \<Longrightarrow> stateKey st' \<and> keyIn (range deriveWorkID) c"
  by (induction st c rule: protoStep.induct) (auto simp: stateKey_def split: reply.splits if_splits)

lemma protoRun_keyIn: "protoRun st cs \<noteq> None \<Longrightarrow> stateKey st \<Longrightarrow> list_all (keyIn (range deriveWorkID)) cs"
proof (induction cs arbitrary: st)
  case (Cons c cs)
  then show ?case using protoStep_keyIn by (fastforce split: option.splits)
qed simp

lemma sysTrace_keyIn:
  assumes "sysTrace capacity ([], w0) tr (ts, w)"
  shows "list_all (keyIn (range deriveWorkID)) (map snd tr)"
proof -
  have "keyIn (range deriveWorkID) c" if "(i, c) \<in> set tr" for i c
  proof -
    have "i < length ts" using sysTrace_known [OF assms that] .
    from sysTrace_handler(1) [OF assms this] have "list_all (keyIn (range deriveWorkID)) (ownTrace i tr)"
      by (rule protoRun_keyIn) (simp add: stateKey_def)
    moreover have "c \<in> set (ownTrace i tr)" using that by (force simp: ownTrace_def)
    ultimately show ?thesis by (simp add: list_all_iff)
  qed
  then show ?thesis by (auto simp: list_all_iff)
qed

text \<open>What a trace accounts for is the sum over its handlers.\<close>

lemma account_handlers:
  "\<forall>e\<in>set tr. fst e < n \<Longrightarrow>
     account r s (filter P (map snd tr)) = (\<Sum>i<n. account r s (filter P (ownTrace i tr)))"
proof (induction tr)
  case (Cons e tr)
  obtain j c where e: "e = (j, c)" by fastforce
  have "(\<Sum>i<n. account r s (filter P (ownTrace i (e # tr)))) =
      (\<Sum>i<n. account r s (filter P (ownTrace i tr)) + (if i = j then account r s (filter P [c]) else 0))"
    by (rule sum.cong) (auto simp: e ownTrace_def account_def)
  also have "\<dots> = account r s (filter P (map snd tr)) + account r s (filter P [c])"
    using Cons e by (simp add: sum.distrib)
  finally show ?case by (simp add: e account_def)
qed (simp add: account_def)

context keyed_ledger
begin

lemma sysTrace_account:
  assumes "sysTrace capacity ([], w0) tr (ts, w)" and "\<forall>t\<in>set ts. dp_payee (th_deps t) = c"
    and "range deriveWorkID \<subseteq> ids" and "k \<in> range deriveWorkID"
  shows "balance s k (w_daemon w) = balance s k (w_daemon w0) +
    (\<Sum>i<length ts. account (rate (w_daemon w0)) s (filter (usesKey k) (ownTrace i tr)))"
proof -
  have ok: "traceOk tr ts" and run: "daemonRun c (w_daemon w0) (map snd tr) (w_daemon w)"
    using sysTrace_ok [OF assms(1), of c] assms(2) by auto
  have "keyIn ids x" if "keyIn (range deriveWorkID) x" for x
    using that assms(3) by (cases "(ids, x)" rule: keyIn.cases) auto
  then have "list_all (keyIn ids) (map snd tr)"
    using sysTrace_keyIn [OF assms(1)] by (simp add: list_all_iff)
  from daemonRun_keyed [OF run this] assms(3,4) account_handlers [of tr "length ts"] ok show ?thesis
    by (auto simp: traceOk_def)
qed

end

text \<open>The in-memory daemon keeps its sessions apart: work ids have one length, so the key
  \<open>sender::workID\<close> determines them.\<close>

lemma length_deriveWorkID: "length (deriveWorkID p) = 64"
  by (simp add: deriveWorkID_def length_sha256)

lemma balanceKey_work: "balanceKey s (deriveWorkID p) = balanceKey s' (deriveWorkID p') \<longleftrightarrow> s = s' \<and> deriveWorkID p = deriveWorkID p'"
proof
  assume "balanceKey s (deriveWorkID p) = balanceKey s' (deriveWorkID p')"
  then have "(s @ ''::'') @ deriveWorkID p = (s' @ ''::'') @ deriveWorkID p'" by (simp add: balanceKey_def)
  then show "s = s' \<and> deriveWorkID p = deriveWorkID p'" using length_deriveWorkID append_eq_append_conv by metis
qed simp

interpretation fakeKeyed: keyed_ledger fakeClient BalanceFor fk_DebitWeiPerWorkUnit "range deriveWorkID"
  by unfold_locales (auto simp: fake_defs balanceKey_work split: option.splits)

section \<open>A handler run alone\<close>

lemma sysTrace_own:
  assumes "sysTrace capacity ([], w0) tr ([t], w)"
  shows "ownTrace 0 tr = map snd tr"
proof -
  have "filter (\<lambda>e. fst e = 0) tr = tr" using sysTrace_known [OF assms] by (force simp: filter_id_conv)
  then show ?thesis by (simp add: ownTrace_def)
qed

lemma sysTrace_solo:
  assumes "paid_route deps" and "dp_sem deps = Some capacity"
    and "(mwStep deps r ^^ n) (PhGate, newStatusWriter rw, w0) = (ph, sw, w)"
  shows "\<exists>tr. sysTrace capacity ([], w0) tr ([\<lparr>th_deps = deps, th_request = r, th_phase = ph, th_writer = sw\<rparr>], w) \<and>
    effects (w_calls w) = effects (w_calls w0) @ ownTrace 0 tr"
proof -
  have "(sysStep capacity)\<^sup>*\<^sup>* ([], w0) ([\<lparr>th_deps = deps, th_request = r, th_phase = ph, th_writer = sw\<rparr>], w)"
    using assms(3)
  proof (induction n arbitrary: ph sw w)
    case 0
    then show ?case using arrive [OF assms(1,2), of "[]" w0 r rw] by auto
  next
    case (Suc n)
    obtain ph1 sw1 w1 where p: "(mwStep deps r ^^ n) (PhGate, newStatusWriter rw, w0) = (ph1, sw1, w1)"
      using prod_cases3 by blast
    let ?t = "\<lparr>th_deps = deps, th_request = r, th_phase = ph1, th_writer = sw1\<rparr>"
    have "sysStep capacity ([?t], w1) ([?t][0 := ?t\<lparr>th_phase := ph, th_writer := sw\<rparr>], w)"
      by (rule advance) (use Suc.prems p in simp_all)
    then show ?case using Suc.IH [OF p] by auto
  qed
  then obtain tr where tr: "sysTrace capacity ([], w0) tr ([\<lparr>th_deps = deps, th_request = r, th_phase = ph, th_writer = sw\<rparr>], w)"
    using runs_sysTrace by blast
  then show ?thesis using sysTrace_own [OF tr] sysTrace_effects [OF tr] by auto
qed

lemma sysTrace_request:
  assumes "paid_route deps" and "dp_sem deps = Some capacity" and "paymentMiddleware deps r rw w0 = (p, sw, w)"
  shows "\<exists>tr. sysTrace capacity ([], w0) tr ([\<lparr>th_deps = deps, th_request = r, th_phase = PhDone p, th_writer = sw\<rparr>], w) \<and>
    effects (w_calls w) = effects (w_calls w0) @ ownTrace 0 tr"
proof (rule sysTrace_solo [OF assms(1,2)])
  show "(mwStep deps r ^^ 11) (PhGate, newStatusWriter rw, w0) = (PhDone p, sw, w)"
    using run_to_end [of "(PhGate, newStatusWriter rw, w0)" 11 deps r] complete_gate [of deps r rw w0] assms(3) by simp
qed

end
