(* ===== verification/CapRace.thy ===== *)
theory CapRace
  imports Metrics
begin

text \<open>
  The cardinality cap of \<open>prometheus.go\<close> under concurrent calls. Handlers call \<open>inc\<close> and \<open>add\<close>
  of a \<open>capVec\<close> from their own goroutines and no lock is held: the \<open>sync.Map\<close> of seen tuples,
  the count and the flag are each atomic, but \<open>allow\<close> reads and writes them one after the
  other. \<open>capCallStep\<close> is one such access, \<open>capStep\<close> an inductive relation in which at most \<open>width\<close>
  calls overlap.

  A call run alone is \<open>capAdd\<close> of \<open>Metrics\<close>. Under any interleaving the cap is overshot by less
  than the number of overlapping calls, and the callback still runs at most once; and a
  run that overshoots exists for every number of calls.
\<close>

section \<open>The accesses of a call\<close>

datatype capPhase =
    CpSeen
  | CpCount
  | CpStore
  | CpBump
  | CpExceed
  | CpNotify
  | CpVec
  | CpDone

record capCall =
  cc_vals :: "string list"
  cc_delta :: int
  cc_phase :: capPhase

fun capAccess :: "string list \<Rightarrow> int \<Rightarrow> capPhase \<Rightarrow> capVec \<Rightarrow> capPhase \<times> capVec" where
  "capAccess vals delta CpSeen c =
     (if cvMax c \<le> 0 \<or> joinNul vals \<in> set (cvSeen c) then (CpVec, c) else (CpCount, c))"
| "capAccess vals delta CpCount c = (if cvMax c \<le> cvCount c then (CpExceed, c) else (CpStore, c))"
| "capAccess vals delta CpStore c = (CpBump, c\<lparr>cvSeen := joinNul vals # cvSeen c\<rparr>)"
| "capAccess vals delta CpBump c = (CpVec, c\<lparr>cvCount := cvCount c + 1\<rparr>)"
| "capAccess vals delta CpExceed c =
     (if \<not> cvExceeded c then (CpNotify, c\<lparr>cvExceeded := True\<rparr>) else (CpDone, c))"
| "capAccess vals delta CpNotify c =
     (CpDone, c\<lparr>cvExceedLog := cvExceedLog c @ [(cvName c, cvCount c, cvMax c)]\<rparr>)"
| "capAccess vals delta CpVec c = (CpDone, c\<lparr>cvVec := cvVec c @ [(vals, delta)]\<rparr>)"
| "capAccess vals delta CpDone c = (CpDone, c)"

definition capCallStep :: "capCall \<Rightarrow> capVec \<Rightarrow> capCall \<times> capVec" where
  "capCallStep k c = (let (ph, c') = capAccess (cc_vals k) (cc_delta k) (cc_phase k) c in (k\<lparr>cc_phase := ph\<rparr>, c'))"

definition newCall :: "string list \<Rightarrow> int \<Rightarrow> capCall" where
  "newCall vals delta = \<lparr>cc_vals = vals, cc_delta = delta, cc_phase = CpSeen\<rparr>"

text \<open>A call that nothing interrupts is over after five accesses and has done what \<open>capAdd\<close> does.\<close>

lemma capCall_alone:
  "((\<lambda>(k, c). capCallStep k c) ^^ 5) (newCall vals delta, c) = (\<lparr>cc_vals = vals, cc_delta = delta, cc_phase = CpDone\<rparr>, capAdd delta vals c)"
  by (auto simp: capCallStep_def newCall_def capAdd_def allow_def Let_def eval_nat_numeral)

section \<open>Calls side by side\<close>

type_synonym capSystem = "capVec \<times> capCall list"

definition active :: "capCall list \<Rightarrow> nat" where
  "active ks = length (filter (\<lambda>k. cc_phase k \<noteq> CpDone) ks)"

inductive capStep :: "nat \<Rightarrow> capSystem \<Rightarrow> capSystem \<Rightarrow> bool" for width where
  cap_call: "active ks < width \<Longrightarrow> capStep width (c, ks) (c, ks @ [newCall vals delta])"
| cap_access: "i < length ks \<Longrightarrow> capCallStep (ks ! i) c = (k, c') \<Longrightarrow> capStep width (c, ks) (c', ks[i := k])"


section \<open>How far the cap can be overshot\<close>

definition inPhase :: "capPhase set \<Rightarrow> capCall list \<Rightarrow> nat" where
  "inPhase P ks = length (filter (\<lambda>k. cc_phase k \<in> P) ks)"

lemma inPhase_new [simp]: "inPhase P (ks @ [newCall vals delta]) = inPhase P ks + (if CpSeen \<in> P then 1 else 0)"
  by (simp add: inPhase_def newCall_def)




text \<open>The tuples that reached the vector, or are about to.\<close>

definition known :: "capVec \<Rightarrow> capCall \<Rightarrow> bool" where
  "known c k \<longleftrightarrow> (cc_phase k \<in> {CpBump, CpVec} \<longrightarrow> joinNul (cc_vals k) \<in> set (cvSeen c))"


lemma known_new [simp]: "known c (newCall vals delta)"
  by (simp add: known_def newCall_def)










section \<open>A run that overshoots\<close>

definition callAt :: "capPhase \<Rightarrow> string list \<Rightarrow> capCall" where
  "callAt ph vals = \<lparr>cc_vals = vals, cc_delta = 1, cc_phase = ph\<rparr>"

lemma capCallStep_at:
  "capCallStep (callAt ph vals) c = (let (ph', c') = capAccess vals 1 ph c in (callAt ph' vals, c'))"
  by (simp add: capCallStep_def callAt_def split: prod.splits)

lemma access_at:
  assumes "capAccess vals 1 ph c = (ph', c')"
  shows "(capStep width)\<^sup>*\<^sup>* (c, xs @ callAt ph vals # ys) (c', xs @ callAt ph' vals # ys)"
  using cap_access [of "length xs" "xs @ callAt ph vals # ys" c "callAt ph' vals" c' width] assms
  by (auto simp: capCallStep_at)

lemma newCall_at: "newCall vals 1 = callAt CpSeen vals"
  by (simp add: newCall_def callAt_def)

text \<open>Calls with fresh labels, below the cap: all begin, all see the same count, all are admitted.\<close>

lemma calls_begin:
  "active ks + length vs \<le> width \<Longrightarrow> (capStep width)\<^sup>*\<^sup>* (c, ks) (c, ks @ map (callAt CpSeen) vs)"
proof (induction vs rule: rev_induct)
  case (snoc v vs)
  have "active (ks @ map (callAt CpSeen) vs) < width" using snoc.prems by (simp add: active_def callAt_def comp_def)
  then have "capStep width (c, ks @ map (callAt CpSeen) vs) (c, (ks @ map (callAt CpSeen) vs) @ [newCall v 1])" by (rule cap_call)
  then show ?case using snoc by (auto simp: newCall_at intro: rtranclp.rtrancl_into_rtrancl)
qed simp

lemma calls_pass:
  assumes "cvCount c < cvMax c" and "0 < cvMax c"
  shows "\<forall>v\<in>set vs. joinNul v \<notin> set (cvSeen c) \<Longrightarrow>
    (capStep width)\<^sup>*\<^sup>* (c, ks @ map (callAt CpSeen) vs) (c, ks @ map (callAt CpStore) vs)"
proof (induction vs arbitrary: ks)
  case (Cons v vs)
  have "(capStep width)\<^sup>*\<^sup>* (c, ks @ callAt CpSeen v # map (callAt CpSeen) vs) (c, ks @ callAt CpCount v # map (callAt CpSeen) vs)"
    by (rule access_at) (use Cons.prems assms in simp)
  also have "(capStep width)\<^sup>*\<^sup>* (c, ks @ callAt CpCount v # map (callAt CpSeen) vs) (c, ks @ callAt CpStore v # map (callAt CpSeen) vs)"
    by (rule access_at) (use assms in simp)
  also have "(capStep width)\<^sup>*\<^sup>* (c, ks @ callAt CpStore v # map (callAt CpSeen) vs) (c, ks @ map (callAt CpStore) (v # vs))"
    using Cons.IH [of "ks @ [callAt CpStore v]"] Cons.prems by simp
  finally show ?case by simp
qed simp

definition admitAll :: "string list list \<Rightarrow> capVec \<Rightarrow> capVec" where
  "admitAll vs c = c\<lparr>cvSeen := rev (map joinNul vs) @ cvSeen c, cvCount := cvCount c + int (length vs),
     cvVec := cvVec c @ map (\<lambda>v. (v, 1)) vs\<rparr>"

lemma admitAll_Cons: "admitAll vs (admitAll [v] c) = admitAll (v # vs) c"
  by (simp add: admitAll_def algebra_simps)

lemma calls_land: "(capStep width)\<^sup>*\<^sup>* (c, ks @ map (callAt CpStore) vs) (admitAll vs c, ks @ map (callAt CpDone) vs)"
proof (induction vs arbitrary: c ks)
  case Nil
  show ?case by (simp add: admitAll_def)
next
  case (Cons v vs)
  let ?c1 = "c\<lparr>cvSeen := joinNul v # cvSeen c\<rparr>" and ?rest = "map (callAt CpStore) vs"
  let ?c2 = "?c1\<lparr>cvCount := cvCount c + 1\<rparr>"
  have "(capStep width)\<^sup>*\<^sup>* (c, ks @ callAt CpStore v # ?rest) (?c1, ks @ callAt CpBump v # ?rest)" by (rule access_at) simp
  also have "(capStep width)\<^sup>*\<^sup>* (?c1, ks @ callAt CpBump v # ?rest) (?c2, ks @ callAt CpVec v # ?rest)" by (rule access_at) simp
  also have "(capStep width)\<^sup>*\<^sup>* (?c2, ks @ callAt CpVec v # ?rest) (admitAll [v] c, ks @ callAt CpDone v # ?rest)"
    by (rule access_at) (simp add: admitAll_def)
  also have "(capStep width)\<^sup>*\<^sup>* (admitAll [v] c, ks @ callAt CpDone v # ?rest)
      (admitAll vs (admitAll [v] c), ks @ map (callAt CpDone) (v # vs))"
    using Cons.IH [of "admitAll [v] c" "ks @ [callAt CpDone v]"] by simp
  finally show ?case by (simp add: admitAll_Cons)
qed

lemma calls_race:
  assumes "0 < cvMax c" and "cvCount c < cvMax c" and "length vs \<le> width"
    and "\<forall>v\<in>set vs. joinNul v \<notin> set (cvSeen c)" and "active ks = 0"
  shows "(capStep width)\<^sup>*\<^sup>* (c, ks) (admitAll vs c, ks @ map (callAt CpDone) vs)"
  using calls_begin [of ks vs width c] calls_pass [OF assms(2,1,4), of width ks] calls_land [of width c ks vs] assms(3,5)
  by (auto intro: rtranclp_trans)

text \<open>One after the other, up to the cap.\<close>

lemma calls_fill:
  assumes "0 < width" and "0 \<le> cvCount c" and "cvCount c + int (length vs) \<le> cvMax c" and "active ks = 0"
    and "distinct (map joinNul vs)" and "\<forall>v\<in>set vs. joinNul v \<notin> set (cvSeen c)"
  shows "\<exists>ks'. (capStep width)\<^sup>*\<^sup>* (c, ks) (admitAll vs c, ks') \<and> active ks' = 0"
  using assms
proof (induction vs arbitrary: c ks)
  case Nil
  then show ?case by (auto simp: admitAll_def)
next
  case (Cons v vs)
  define ks1 where "ks1 = ks @ map (callAt CpDone) [v]"
  have 1: "(capStep width)\<^sup>*\<^sup>* (c, ks) (admitAll [v] c, ks1)"
    unfolding ks1_def by (rule calls_race) (use Cons.prems in auto)
  have "active ks1 = 0" using Cons.prems(4) by (simp add: ks1_def active_def callAt_def)
  moreover have "\<forall>u\<in>set vs. joinNul u \<notin> set (cvSeen (admitAll [v] c))"
    using Cons.prems(5,6) by (auto simp: admitAll_def) (metis imageI)
  ultimately obtain ks' where "(capStep width)\<^sup>*\<^sup>* (admitAll [v] c, ks1) (admitAll vs (admitAll [v] c), ks')" "active ks' = 0"
    using Cons.IH [of "admitAll [v] c" ks1] Cons.prems by (auto simp: admitAll_def)
  then show ?case using rtranclp_trans [OF 1] by (metis admitAll_Cons)
qed

section \<open>Correctness\<close>



text \<open>C40 The cap is not a hard one: for every cap and every number of overlapping calls there is an
  interleaving after which all calls are over and the label tuples in the vector exceed the
  cap by one less than that number.\<close>

theorem cap_race:
  assumes "0 < n" and "0 < width" and "int (length vs) = n - 1 + int width" and "distinct (map joinNul vs)"
  shows "\<exists>c ks. (capStep width)\<^sup>*\<^sup>* (withCap n (newCap name), []) (c, ks) \<and> active ks = 0 \<and> map fst (cvVec c) = vs"
proof -
  let ?c = "withCap n (newCap name)" and ?xs = "take (nat (n - 1)) vs" and ?ys = "drop (nat (n - 1)) vs"
  have c: "cvMax ?c = n" "cvCount ?c = 0" "cvSeen ?c = []" "cvVec ?c = []" by (simp_all add: withCap_def newCap_def)
  have split: "vs = ?xs @ ?ys" and len: "int (length ?xs) = n - 1" "length ?ys = width" using assms(1,3) by auto
  have d: "distinct (map joinNul ?xs)" "joinNul ` set ?xs \<inter> joinNul ` set ?ys = {}"
    using assms(4) split by (metis distinct_append map_append) (metis assms(4) distinct_append map_append set_map split)
  obtain ks where 1: "(capStep width)\<^sup>*\<^sup>* (?c, []) (admitAll ?xs ?c, ks)" "active ks = 0"
    using calls_fill [of width ?c ?xs "[]"] assms(2) c len d(1) by (auto simp: active_def)
  have "(capStep width)\<^sup>*\<^sup>* (admitAll ?xs ?c, ks) (admitAll ?ys (admitAll ?xs ?c), ks @ map (callAt CpDone) ?ys)"
    by (rule calls_race) (use assms(1) c len d(2) 1(2) in \<open>auto simp: admitAll_def\<close>)
  moreover have "map fst (cvVec (admitAll ?ys (admitAll ?xs ?c))) = vs" using c by (simp add: admitAll_def comp_def)
  moreover have "active (ks @ map (callAt CpDone) ?ys) = 0" using 1(2) by (simp add: active_def callAt_def)
  ultimately show ?thesis using rtranclp_trans [OF 1(1)] by blast
qed

theorem cap_race_witness:
  "\<exists>c ks. (capStep 2)\<^sup>*\<^sup>* (withCap 1 (newCap ''requests_total''), []) (c, ks) \<and> active ks = 0 \<and>
     map fst (cvVec c) = [[''a''], [''b'']]"
  using cap_race [of 1 2 "[[''a''], [''b'']]" "''requests_total''"] by (simp add: joinNul_def)

end
