(* ===== verification/Lifecycle.thy ===== *)
theory Lifecycle
  imports Startup Recorders
begin

text \<open>
  The life of a started worker: \<open>internal/runtime/http/server.go\<close>,
  \<open>internal/runtime/metrics/listener.go\<close> and the second half of \<open>run\<close> in
  \<open>cmd/openai-worker-node/main.go\<close>. Four goroutines run beside \<open>main\<close>: the server's, the
  metrics listener's, and the two \<open>Serve\<close> of the listener starts (one waits for the context and
  stops, one accepts). They meet on the channels \<open>serverErr\<close>, \<open>metricsErr\<close>, \<open>stopErr\<close> (all with
  one slot), \<open>stopped\<close> and \<open>sig\<close>, and on the two \<open>http.Server\<close> objects. \<open>lcStep\<close> gives the effect of
  one event, a goroutine's next step or something from outside, and refuses an event that is
  not enabled; a run is a sequence of events.

  Of \<open>net/http\<close> the steps use what it documents: \<open>ListenAndServe\<close> and \<open>Serve\<close> return an error,
  and it is \<open>ErrServerClosed\<close> exactly when \<open>Shutdown\<close> was called before they return. The uptime
  goroutine touches nothing the others use and is a function of the ticks it is given
  (\<open>uptimeGoroutine\<close>). The deferred calls of \<open>run\<close> come after its exit code is fixed; the one with an
  effect in the model, the close of the daemon's connection, is in \<open>Startup\<close>. \<open>mainExit\<close> puts
  start-up and the life cycle together.
\<close>

section \<open>The HTTP server\<close>

definition second :: int where
  "second = 1000000000"

record ('d, 'b) Server =
  sv_Addr :: string
  sv_Handler :: "('d, 'b) Mux"
  sv_ReadHeaderTimeout :: int

definition NewServer :: "('d, 'b) Mux \<Rightarrow> string \<Rightarrow> ('d, 'b) Server" where
  "NewServer mux listen = \<lparr>sv_Addr = listen, sv_Handler = mux, sv_ReadHeaderTimeout = 5 * second\<rparr>"

text \<open>What \<open>Start\<close> returns for the error \<open>ListenAndServe\<close> ended in.\<close>

definition Start :: "Err \<Rightarrow> Err option" where
  "Start err = (if errorsIs err ServerClosed then None else Some (wrapf ''http server: '' err))"

section \<open>The metrics listener\<close>

text \<open>The logger of the listener: \<open>SlogLogger\<close> forwards to a \<open>slog.Logger\<close> (\<open>None\<close> is a nil one), which
  keeps what is at its level or above. A line is its level and message; its attributes are not
  modelled.\<close>

type_synonym logLine = "logLevel \<times> string"

datatype Logger = SlogLogger "logLevel option" | DiscardLogger

fun loggerInfo :: "Logger \<Rightarrow> string \<Rightarrow> logLine list \<Rightarrow> logLine list" where
  "loggerInfo (SlogLogger L) msg log =
     (case L of None \<Rightarrow> log | Some level \<Rightarrow> if level \<le> LevelInfo then log @ [(LevelInfo, msg)] else log)"
| "loggerInfo DiscardLogger msg log = log"

fun loggerWarn :: "Logger \<Rightarrow> string \<Rightarrow> logLine list \<Rightarrow> logLine list" where
  "loggerWarn (SlogLogger L) msg log =
     (case L of None \<Rightarrow> log | Some level \<Rightarrow> if level \<le> LevelWarn then log @ [(LevelWarn, msg)] else log)"
| "loggerWarn DiscardLogger msg log = log"

text \<open>A recorder is seen by the listener only through the handler it serves metrics with. \<open>nil\<close> is
  \<open>None\<close>.\<close>

record listenerConfig =
  lcf_Addr :: string
  lcf_Path :: string
  lcf_Recorder :: "rawHandler option"
  lcf_Logger :: "Logger option"
  lcf_ReadHeaderTimeout :: int

record Listener =
  ls_Addr :: string
  ls_Path :: string
  ls_Handler :: rawHandler
  ls_Logger :: Logger
  ls_ReadHeaderTimeout :: int

definition healthz :: rawHandler where
  "healthz r w = snd (rawWrite (''ok'' @ [CHR 0x0A]) (snd (rawWriteHeader 200 w)))"

definition indexPage :: "string \<Rightarrow> bytes" where
  "indexPage path =
     ''openai-worker-node metrics'' @ [CHR 0x0A, CHR 0x0A] @ ''endpoints:'' @ [CHR 0x0A] @
     ''  '' @ path @ [CHR 0x0A] @ ''  /healthz'' @ [CHR 0x0A]"

text \<open>The listener's mux: a path of its own, the liveness page, and everything else.\<close>

definition listenerMux :: "string \<Rightarrow> rawHandler \<Rightarrow> rawHandler" where
  "listenerMux path h r w =
     (if rq_Path r = path then h r w
      else if rq_Path r = ''/healthz'' then healthz r w
      else if rq_Path r = ''/'' then snd (rawWrite (indexPage path) (snd (rawWriteHeader 200 w)))
      else httpError rawRW ''404 page not found'' 404 w)"

text \<open>\<open>NewListener\<close>: \<open>None\<close> is the panic of a second pattern for the same path, \<open>Inr None\<close> the nil
  listener. A configured path is one exact path, as in the worker, which leaves it empty.\<close>

definition NewListener :: "listenerConfig \<Rightarrow> (Err + Listener option) option" where
  "NewListener cfg =
     (if lcf_Addr cfg = [] then Some (Inr None)
      else case lcf_Recorder cfg of
             None \<Rightarrow> Some (Inl (errorsNew ''metrics listener: nil Recorder''))
           | Some h \<Rightarrow>
               let path = (if lcf_Path cfg = [] then ''/metrics'' else lcf_Path cfg);
                   logger = (case lcf_Logger cfg of None \<Rightarrow> DiscardLogger | Some lg \<Rightarrow> lg);
                   timeout = (if lcf_ReadHeaderTimeout cfg \<le> 0 then 5 * second else lcf_ReadHeaderTimeout cfg)
               in if path \<in> {''/healthz'', ''/''} then None
                  else Some (Inr (Some \<lparr>ls_Addr = lcf_Addr cfg, ls_Path = path, ls_Handler = listenerMux path h,
                                         ls_Logger = logger, ls_ReadHeaderTimeout = timeout\<rparr>)))"

text \<open>The recorder of \<open>run\<close>, seen as the handler it serves, and the listener \<open>run\<close> builds with it.\<close>

definition recorderHandler :: "rawHandler \<Rightarrow> Flags \<Rightarrow> rawHandler" where
  "recorderHandler prom fl = (if fl_metricsListen fl \<noteq> [] then prom else noopHandler)"

definition buildListener :: "rawHandler \<Rightarrow> Flags \<Rightarrow> (Err + Listener option) option" where
  "buildListener prom fl =
     NewListener \<lparr>lcf_Addr = fl_metricsListen fl, lcf_Path = [], lcf_Recorder = Some (recorderHandler prom fl),
                  lcf_Logger = Some (SlogLogger (Some (fst (buildLogger (fl_logLevel fl))))), lcf_ReadHeaderTimeout = 0\<rparr>"

text \<open>\<open>Addr\<close>: empty for a nil listener and before \<open>Serve\<close> has bound; \<open>netLn\<close> is the bound address.\<close>

definition listenerAddr :: "Listener option \<Rightarrow> string option \<Rightarrow> string" where
  "listenerAddr l netLn = (if l = None then [] else case netLn of None \<Rightarrow> [] | Some addr \<Rightarrow> addr)"

text \<open>\<open>Serve\<close> on a nil listener waits for the context: \<open>None\<close> is still waiting, \<open>Some None\<close> the nil error.\<close>

definition nilServe :: "bool \<Rightarrow> Err option option" where
  "nilServe ctxDone = (if ctxDone then Some None else None)"

section \<open>The uptime gauge\<close>

text \<open>The goroutine of \<open>run\<close>: a sample at once, one per tick, until \<open>uptimeDone\<close> is closed. What is
  read from the clock comes with the tick.\<close>

datatype uptimeEvent = UptimeTick nat | UptimeDone

fun uptimeLoop :: "uptimeEvent list \<Rightarrow> metric list" where
  "uptimeLoop [] = []"
| "uptimeLoop (UptimeTick n # evs) = SetUptimeSeconds n # uptimeLoop evs"
| "uptimeLoop (UptimeDone # evs) = []"

definition uptimeGoroutine :: "nat \<Rightarrow> uptimeEvent list \<Rightarrow> metric list" where
  "uptimeGoroutine n evs = SetUptimeSeconds n # uptimeLoop evs"

text \<open>The gauge shows the last reading before the end and nothing after it.\<close>

lemma uptime_last:
  "pUptimeSeconds (promRun (uptimeGoroutine n (map UptimeTick ticks @ UptimeDone # evs)) p) = last (n # ticks)"
proof -
  have loop: "uptimeLoop (map UptimeTick ticks @ UptimeDone # evs) = map SetUptimeSeconds ticks" by (induction ticks) simp_all
  have "pUptimeSeconds (fold (\<lambda>m q. snd (promCall m q)) (map SetUptimeSeconds ts) q) = last (pUptimeSeconds q # ts)" for ts q
    by (induction ts arbitrary: q) simp_all
  then show ?thesis by (simp add: uptimeGoroutine_def promRun_def loop)
qed

section \<open>The goroutines\<close>

datatype mainPhase = MainWait | MainShutdown | MainMetrics | MainDrain | MainExit int
datatype serverPhase = SvServing | SvReturned Err | SvSent
datatype listenerPhase = LsAbsent | LsBind string | LsSelect | LsGrace | LsReturned "Err option" | LsSent
datatype stopperPhase = StIdle | StWaiting | StStopping | StClosed
datatype acceptPhase = AcIdle | AcServing | AcReturned Err | AcSent

record proc =
  pc_main :: mainPhase
  pc_sig :: bool
  pc_server :: serverPhase
  pc_serverErr :: "Err option option"
  pc_closed :: bool
  pc_ctxDone :: bool
  pc_listener :: listenerPhase
  pc_metricsErr :: "Err option option"
  pc_stopper :: stopperPhase
  pc_once :: bool
  pc_metricsClosed :: bool
  pc_accept :: acceptPhase
  pc_stopErr :: "Err option"
  pc_stopped :: bool
  pc_logger :: Logger
  pc_log :: "logLine list"

text \<open>After \<open>go srv.Start()\<close> and, with a listener, \<open>go metricsListener.Serve(ctx)\<close>.\<close>

definition lcInit :: "Listener option \<Rightarrow> proc" where
  "lcInit metricsListener =
     \<lparr>pc_main = MainWait, pc_sig = False, pc_server = SvServing, pc_serverErr = None, pc_closed = False,
      pc_ctxDone = False, pc_listener = (case metricsListener of None \<Rightarrow> LsAbsent | Some l \<Rightarrow> LsBind (ls_Addr l)), pc_metricsErr = None,
      pc_stopper = StIdle, pc_once = False, pc_metricsClosed = False, pc_accept = AcIdle, pc_stopErr = None,
      pc_stopped = False, pc_logger = (case metricsListener of None \<Rightarrow> DiscardLogger | Some l \<Rightarrow> ls_Logger l), pc_log = []\<rparr>"

datatype event =
    Signal
  | ServerReturns Err | ServerSends
  | TakeServerErr | TakeMetricsErr | TakeSignal
  | ShutdownReturns "Err option" | AwaitMetrics | DrainServer
  | Bind "Err option" | SelectStopErr | SelectStopped | GraceStopErr | GraceTimeout | ListenerSends
  | SeeContext | StopReturns "Err option"
  | AcceptReturns Err | AcceptSends

text \<open>The steps of \<open>main\<close>: the three cases of its \<open>select\<close>, the graceful shutdown, the wait for the
  listener, the drain of the server.\<close>

definition exitWith :: "Err option \<Rightarrow> mainPhase" where
  "exitWith err = MainExit (if err \<noteq> None then 1 else 0)"

definition takeServerErr :: "proc \<Rightarrow> proc option" where
  "takeServerErr p =
     (if pc_main p \<noteq> MainWait then None
      else case pc_serverErr p of
             None \<Rightarrow> None
           | Some err \<Rightarrow> Some (p\<lparr>pc_main := exitWith err, pc_serverErr := None\<rparr>))"

definition takeMetricsErr :: "proc \<Rightarrow> proc option" where
  "takeMetricsErr p =
     (if pc_main p \<noteq> MainWait then None
      else case pc_metricsErr p of
             None \<Rightarrow> None
           | Some err \<Rightarrow> Some (p\<lparr>pc_main := exitWith err, pc_metricsErr := None\<rparr>))"

definition takeSignal :: "proc \<Rightarrow> proc option" where
  "takeSignal p =
     (if pc_main p = MainWait \<and> pc_sig p
      then Some (p\<lparr>pc_main := MainShutdown, pc_sig := False, pc_closed := True\<rparr>) else None)"

definition shutdownReturns :: "Err option \<Rightarrow> proc \<Rightarrow> proc option" where
  "shutdownReturns err p =
     (if pc_main p \<noteq> MainShutdown then None
      else if err \<noteq> None then Some (p\<lparr>pc_main := MainExit 1\<rparr>)
      else Some (p\<lparr>pc_ctxDone := True,
                   pc_main := (if pc_listener p \<noteq> LsAbsent then MainMetrics else MainDrain)\<rparr>))"

definition awaitMetrics :: "proc \<Rightarrow> proc option" where
  "awaitMetrics p =
     (if pc_main p = MainMetrics \<and> pc_metricsErr p \<noteq> None
      then Some (p\<lparr>pc_main := MainDrain, pc_metricsErr := None\<rparr>) else None)"

definition drainServer :: "proc \<Rightarrow> proc option" where
  "drainServer p =
     (if pc_main p = MainDrain \<and> pc_serverErr p \<noteq> None
      then Some (p\<lparr>pc_main := MainExit 0, pc_serverErr := None\<rparr>) else None)"

text \<open>The server's goroutine: \<open>ListenAndServe\<close> returns, and what \<open>Start\<close> makes of it is sent.\<close>

definition serverReturns :: "Err \<Rightarrow> proc \<Rightarrow> proc option" where
  "serverReturns err p =
     (if pc_server p = SvServing \<and> (errorsIs err ServerClosed \<longleftrightarrow> pc_closed p)
      then Some (p\<lparr>pc_server := SvReturned err\<rparr>) else None)"

definition serverSends :: "proc \<Rightarrow> proc option" where
  "serverSends p =
     (case pc_server p of
        SvReturned err \<Rightarrow> Some (p\<lparr>pc_server := SvSent, pc_serverErr := Some (Start err)\<rparr>)
      | _ \<Rightarrow> None)"

text \<open>\<open>Listener.Serve\<close>: the bind, which starts the two goroutines, the two selects and the
  error it returns.\<close>

definition bindReturns :: "Err option \<Rightarrow> proc \<Rightarrow> proc option" where
  "bindReturns err p =
     (case pc_listener p of
        LsBind addr \<Rightarrow>
          (case err of
             Some e \<Rightarrow> Some (p\<lparr>pc_listener := LsReturned (Some (wrapf (''metrics listener: bind '' @ addr @ '': '') e))\<rparr>)
           | None \<Rightarrow> Some (p\<lparr>pc_listener := LsSelect, pc_stopper := StWaiting, pc_accept := AcServing,
                            pc_log := loggerInfo (pc_logger p) ''metrics listening'' (pc_log p)\<rparr>))
      | _ \<Rightarrow> None)"

definition serveResult :: "Err \<Rightarrow> Err option" where
  "serveResult err = (if errorsIs err ServerClosed then None else Some err)"

definition takeStopErr :: "listenerPhase \<Rightarrow> proc \<Rightarrow> proc option" where
  "takeStopErr ph p =
     (if pc_listener p \<noteq> ph then None
      else case pc_stopErr p of
             None \<Rightarrow> None
           | Some err \<Rightarrow> Some (p\<lparr>pc_listener := LsReturned (serveResult err), pc_stopErr := None\<rparr>))"

definition selectStopped :: "proc \<Rightarrow> proc option" where
  "selectStopped p =
     (if pc_listener p = LsSelect \<and> pc_stopped p then Some (p\<lparr>pc_listener := LsGrace\<rparr>) else None)"

definition errServerClosed :: Err where
  "errServerClosed = \<lparr>emsg = ''http: Server closed'', eis = [ServerClosed], ecode = CodeOther 2\<rparr>"

definition graceTimeout :: "proc \<Rightarrow> proc option" where
  "graceTimeout p =
     (if pc_listener p = LsGrace then Some (p\<lparr>pc_listener := LsReturned (serveResult errServerClosed)\<rparr>) else None)"

definition listenerSends :: "proc \<Rightarrow> proc option" where
  "listenerSends p =
     (case pc_listener p of
        LsReturned r \<Rightarrow> Some (p\<lparr>pc_listener := LsSent, pc_metricsErr := Some r\<rparr>)
      | _ \<Rightarrow> None)"

text \<open>\<open>Listener.Stop\<close> up to its call of \<open>Shutdown\<close>: once, whoever calls it.\<close>

definition stopBegins :: "proc \<Rightarrow> proc" where
  "stopBegins p = (if pc_once p then p else p\<lparr>pc_once := True, pc_metricsClosed := True\<rparr>)"

definition seeContext :: "proc \<Rightarrow> proc option" where
  "seeContext p =
     (if pc_stopper p = StWaiting \<and> pc_ctxDone p then Some ((stopBegins p)\<lparr>pc_stopper := StStopping\<rparr>) else None)"

text \<open>\<open>Stop\<close> returns whatever \<open>Shutdown\<close> does: its error is only logged.\<close>

definition stopLog :: "Err option \<Rightarrow> proc \<Rightarrow> logLine list" where
  "stopLog err p =
     loggerInfo (pc_logger p) ''metrics stopped''
       (if err \<noteq> None then loggerWarn (pc_logger p) ''metrics shutdown error'' (pc_log p) else pc_log p)"

definition stopReturns :: "Err option \<Rightarrow> proc \<Rightarrow> proc option" where
  "stopReturns err p =
     (if pc_stopper p = StStopping then Some (p\<lparr>pc_stopper := StClosed, pc_stopped := True, pc_log := stopLog err p\<rparr>)
      else None)"

definition acceptReturns :: "Err \<Rightarrow> proc \<Rightarrow> proc option" where
  "acceptReturns err p =
     (if pc_accept p = AcServing \<and> (errorsIs err ServerClosed \<longleftrightarrow> pc_metricsClosed p)
      then Some (p\<lparr>pc_accept := AcReturned err\<rparr>) else None)"

definition acceptSends :: "proc \<Rightarrow> proc option" where
  "acceptSends p =
     (case pc_accept p of
        AcReturned err \<Rightarrow> Some (p\<lparr>pc_accept := AcSent, pc_stopErr := Some err\<rparr>)
      | _ \<Rightarrow> None)"

text \<open>A signal is kept when the channel is empty; after the exit nothing runs.\<close>

definition deliver :: "proc \<Rightarrow> proc option" where
  "deliver p = (if pc_sig p then None else Some (p\<lparr>pc_sig := True\<rparr>))"

definition exited :: "proc \<Rightarrow> bool" where
  "exited p = (case pc_main p of MainExit _ \<Rightarrow> True | _ \<Rightarrow> False)"

definition lcStep :: "event \<Rightarrow> proc \<Rightarrow> proc option" where
  "lcStep ev p =
     (if exited p then None
      else case ev of
             Signal \<Rightarrow> deliver p
           | ServerReturns err \<Rightarrow> serverReturns err p
           | ServerSends \<Rightarrow> serverSends p
           | TakeServerErr \<Rightarrow> takeServerErr p
           | TakeMetricsErr \<Rightarrow> takeMetricsErr p
           | TakeSignal \<Rightarrow> takeSignal p
           | ShutdownReturns err \<Rightarrow> shutdownReturns err p
           | AwaitMetrics \<Rightarrow> awaitMetrics p
           | DrainServer \<Rightarrow> drainServer p
           | Bind err \<Rightarrow> bindReturns err p
           | SelectStopErr \<Rightarrow> takeStopErr LsSelect p
           | SelectStopped \<Rightarrow> selectStopped p
           | GraceStopErr \<Rightarrow> takeStopErr LsGrace p
           | GraceTimeout \<Rightarrow> graceTimeout p
           | ListenerSends \<Rightarrow> listenerSends p
           | SeeContext \<Rightarrow> seeContext p
           | StopReturns err \<Rightarrow> stopReturns err p
           | AcceptReturns err \<Rightarrow> acceptReturns err p
           | AcceptSends \<Rightarrow> acceptSends p)"

fun lcRun :: "event list \<Rightarrow> proc \<Rightarrow> proc option" where
  "lcRun [] p = Some p"
| "lcRun (ev # evs) p = (case lcStep ev p of None \<Rightarrow> None | Some p' \<Rightarrow> lcRun evs p')"

lemma lcRun_append: "lcRun (xs @ ys) p = (case lcRun xs p of None \<Rightarrow> None | Some q \<Rightarrow> lcRun ys q)"
  by (induction xs arbitrary: p) (auto split: option.splits)

lemmas lc_step_defs = lcStep_def deliver_def serverReturns_def serverSends_def takeServerErr_def takeMetricsErr_def
  takeSignal_def shutdownReturns_def awaitMetrics_def drainServer_def bindReturns_def takeStopErr_def selectStopped_def
  graceTimeout_def listenerSends_def seeContext_def stopReturns_def acceptReturns_def acceptSends_def stopBegins_def

section \<open>Every run is short\<close>

text \<open>What each goroutine can still do.\<close>

fun mainLeft :: "mainPhase \<Rightarrow> nat" where
  "mainLeft MainWait = 5"
| "mainLeft MainShutdown = 3"
| "mainLeft MainMetrics = 2"
| "mainLeft MainDrain = 1"
| "mainLeft (MainExit _) = 0"

fun serverLeft :: "serverPhase \<Rightarrow> nat" where
  "serverLeft SvServing = 2" | "serverLeft (SvReturned _) = 1" | "serverLeft SvSent = 0"

fun listenerLeft :: "listenerPhase \<Rightarrow> nat" where
  "listenerLeft LsAbsent = 0" | "listenerLeft (LsBind _) = 8" | "listenerLeft LsSelect = 3" | "listenerLeft LsGrace = 2"
| "listenerLeft (LsReturned _) = 1" | "listenerLeft LsSent = 0"

fun stopperLeft :: "stopperPhase \<Rightarrow> nat" where
  "stopperLeft StIdle = 0" | "stopperLeft StWaiting = 2" | "stopperLeft StStopping = 1" | "stopperLeft StClosed = 0"

fun acceptLeft :: "acceptPhase \<Rightarrow> nat" where
  "acceptLeft AcIdle = 0" | "acceptLeft AcServing = 2" | "acceptLeft (AcReturned _) = 1" | "acceptLeft AcSent = 0"

definition stepsLeft :: "proc \<Rightarrow> nat" where
  "stepsLeft p = mainLeft (pc_main p) + (if pc_sig p then 0 else 1) + serverLeft (pc_server p) +
     listenerLeft (pc_listener p) + stopperLeft (pc_stopper p) + acceptLeft (pc_accept p)"

text \<open>The two goroutines of the listener are started by its bind.\<close>

definition idleOk :: "proc \<Rightarrow> bool" where
  "idleOk p \<longleftrightarrow> (pc_listener p \<in> range LsBind \<longrightarrow> pc_stopper p = StIdle \<and> pc_accept p = AcIdle)"

lemma idleOk_step: "lcStep ev p = Some q \<Longrightarrow> idleOk p \<Longrightarrow> idleOk q"
  by (cases ev) (auto simp: lc_step_defs idleOk_def split: if_splits option.splits serverPhase.splits
      listenerPhase.splits acceptPhase.splits)

lemma stepsLeft_step: "lcStep ev p = Some q \<Longrightarrow> idleOk p \<Longrightarrow> stepsLeft q < stepsLeft p"
  by (cases ev) (auto simp: lc_step_defs idleOk_def stepsLeft_def exitWith_def split: if_splits option.splits
      serverPhase.splits listenerPhase.splits acceptPhase.splits)

lemma lcRun_length: "lcRun evs p = Some q \<Longrightarrow> idleOk p \<Longrightarrow> length evs + stepsLeft q \<le> stepsLeft p"
proof (induction evs arbitrary: p)
  case (Cons ev evs)
  then obtain p' where p': "lcStep ev p = Some p'" "lcRun evs p' = Some q" by (auto split: option.splits)
  with Cons idleOk_step [OF p'(1)] stepsLeft_step [OF p'(1)] show ?case by fastforce
qed simp

section \<open>Why the process exits\<close>

text \<open>Something failed: a server did not end by being closed, the listener could not bind, or the
  graceful shutdown ran into its deadline.\<close>

definition serverFailed :: "event list \<Rightarrow> bool" where
  "serverFailed evs \<longleftrightarrow> (\<exists>e. ServerReturns e \<in> set evs \<and> \<not> errorsIs e ServerClosed)"

definition metricsFailed :: "event list \<Rightarrow> bool" where
  "metricsFailed evs \<longleftrightarrow>
     (\<exists>e. Bind (Some e) \<in> set evs) \<or> (\<exists>e. AcceptReturns e \<in> set evs \<and> \<not> errorsIs e ServerClosed)"

definition shutdownFailed :: "event list \<Rightarrow> bool" where
  "shutdownFailed evs \<longleftrightarrow> (\<exists>e. ShutdownReturns (Some e) \<in> set evs)"

definition exitCause :: "event list \<Rightarrow> int \<Rightarrow> bool" where
  "exitCause evs c \<longleftrightarrow>
     c = 0 \<and> Signal \<in> set evs \<and> ShutdownReturns None \<in> set evs \<or>
     c = 1 \<and> (serverFailed evs \<or> metricsFailed evs \<or> shutdownFailed evs)"

text \<open>What a result of the server or of the listener says about the events behind it.\<close>

definition serverCause :: "event list \<Rightarrow> bool \<Rightarrow> Err option \<Rightarrow> bool" where
  "serverCause evs closed r \<longleftrightarrow> (case r of None \<Rightarrow> closed | Some _ \<Rightarrow> serverFailed evs)"

definition listenerCause :: "event list \<Rightarrow> bool \<Rightarrow> Err option \<Rightarrow> bool" where
  "listenerCause evs ctxDone r \<longleftrightarrow> (case r of None \<Rightarrow> ctxDone | Some _ \<Rightarrow> metricsFailed evs)"

lemmas cause_defs = exitCause_def serverCause_def listenerCause_def serverFailed_def metricsFailed_def shutdownFailed_def

lemma cause_mono:
  assumes "set evs \<subseteq> set evs'"
  shows "exitCause evs c \<Longrightarrow> exitCause evs' c" and "serverCause evs b r \<Longrightarrow> serverCause evs' b r"
    and "listenerCause evs b r \<Longrightarrow> listenerCause evs' b r"
  using assms by (auto simp: cause_defs split: option.splits)

lemma cause_up:
  "serverCause evs False r \<Longrightarrow> serverCause evs b r"
  "listenerCause evs False r \<Longrightarrow> listenerCause evs b r"
  by (auto simp: cause_defs split: option.splits)

lemma cause_new:
  "ServerReturns e \<in> set evs \<Longrightarrow> serverCause evs (errorsIs e ServerClosed) (Start e)"
  "AcceptReturns e \<in> set evs \<Longrightarrow> (errorsIs e ServerClosed \<longrightarrow> b) \<Longrightarrow> listenerCause evs b (serveResult e)"
  "Bind (Some e) \<in> set evs \<Longrightarrow> listenerCause evs b (Some e')"
  "listenerCause evs True (serveResult errServerClosed)"
  "ShutdownReturns (Some e) \<in> set evs \<Longrightarrow> exitCause evs 1"
  "serverCause evs False r \<Longrightarrow> exitWith r = MainExit 1 \<and> exitCause evs 1"
  "listenerCause evs False r \<Longrightarrow> exitWith r = MainExit 1 \<and> exitCause evs 1"
  by (auto simp: cause_defs Start_def serveResult_def errServerClosed_def errorsIs_def exitWith_def split: option.splits)

section \<open>The invariant\<close>

definition mainInv :: "event list \<Rightarrow> proc \<Rightarrow> bool" where
  "mainInv evs p \<longleftrightarrow>
     (pc_sig p \<longrightarrow> Signal \<in> set evs) \<and>
     (pc_main p \<in> {MainShutdown, MainMetrics, MainDrain} \<longrightarrow> Signal \<in> set evs) \<and>
     (pc_main p \<in> {MainMetrics, MainDrain} \<longrightarrow> ShutdownReturns None \<in> set evs) \<and>
     (\<not> exited p \<longrightarrow> (pc_closed p \<longleftrightarrow> pc_main p \<noteq> MainWait) \<and>
        (pc_ctxDone p \<longleftrightarrow> pc_main p \<in> {MainMetrics, MainDrain})) \<and>
     (pc_main p = MainMetrics \<longrightarrow> pc_listener p \<noteq> LsAbsent) \<and>
     (\<forall>c. pc_main p = MainExit c \<longrightarrow> exitCause evs c)"

definition serverInv :: "event list \<Rightarrow> proc \<Rightarrow> bool" where
  "serverInv evs p \<longleftrightarrow>
     (\<forall>e. pc_server p = SvReturned e \<longrightarrow> serverCause evs (pc_closed p) (Start e)) \<and>
     (\<forall>r. pc_serverErr p = Some r \<longrightarrow> serverCause evs (pc_closed p) r) \<and>
     (pc_server p = SvSent \<and> \<not> exited p \<longrightarrow> pc_serverErr p \<noteq> None)"

definition stopInv :: "proc \<Rightarrow> bool" where
  "stopInv p \<longleftrightarrow>
     (pc_listener p = LsSelect \<longrightarrow> pc_stopper p \<noteq> StIdle) \<and>
     (pc_listener p = LsGrace \<longrightarrow> pc_ctxDone p) \<and>
     (pc_listener p = LsSent \<longrightarrow> pc_main p \<in> {MainWait, MainShutdown, MainMetrics} \<longrightarrow> pc_metricsErr p \<noteq> None) \<and>
     (pc_metricsClosed p \<longrightarrow> pc_ctxDone p) \<and> (pc_stopped p \<longrightarrow> pc_ctxDone p) \<and>
     (pc_stopper p \<in> {StStopping, StClosed} \<longrightarrow> pc_ctxDone p) \<and>
     (pc_stopper p = StClosed \<longrightarrow> pc_stopped p)"

definition listenerInv :: "event list \<Rightarrow> proc \<Rightarrow> bool" where
  "listenerInv evs p \<longleftrightarrow>
     (\<forall>r. pc_listener p = LsReturned r \<longrightarrow> listenerCause evs (pc_ctxDone p) r) \<and>
     (\<forall>r. pc_metricsErr p = Some r \<longrightarrow> listenerCause evs (pc_ctxDone p) r) \<and>
     (\<forall>e. pc_accept p = AcReturned e \<longrightarrow> listenerCause evs (pc_ctxDone p) (serveResult e)) \<and>
     (\<forall>e. pc_stopErr p = Some e \<longrightarrow> listenerCause evs (pc_ctxDone p) (serveResult e))"

text \<open>When a step is taken, and to which state.\<close>

lemma step_Some:
  "deliver p = Some q \<longleftrightarrow> \<not> pc_sig p \<and> q = p\<lparr>pc_sig := True\<rparr>"
  "serverReturns e p = Some q \<longleftrightarrow>
     pc_server p = SvServing \<and> errorsIs e ServerClosed = pc_closed p \<and> q = p\<lparr>pc_server := SvReturned e\<rparr>"
  "serverSends p = Some q \<longleftrightarrow>
     (\<exists>e. pc_server p = SvReturned e \<and> q = p\<lparr>pc_server := SvSent, pc_serverErr := Some (Start e)\<rparr>)"
  "takeServerErr p = Some q \<longleftrightarrow>
     pc_main p = MainWait \<and> (\<exists>r. pc_serverErr p = Some r \<and> q = p\<lparr>pc_main := exitWith r, pc_serverErr := None\<rparr>)"
  "takeMetricsErr p = Some q \<longleftrightarrow>
     pc_main p = MainWait \<and> (\<exists>r. pc_metricsErr p = Some r \<and> q = p\<lparr>pc_main := exitWith r, pc_metricsErr := None\<rparr>)"
  "takeSignal p = Some q \<longleftrightarrow>
     pc_main p = MainWait \<and> pc_sig p \<and> q = p\<lparr>pc_main := MainShutdown, pc_sig := False, pc_closed := True\<rparr>"
  "awaitMetrics p = Some q \<longleftrightarrow>
     pc_main p = MainMetrics \<and> pc_metricsErr p \<noteq> None \<and> q = p\<lparr>pc_main := MainDrain, pc_metricsErr := None\<rparr>"
  "drainServer p = Some q \<longleftrightarrow>
     pc_main p = MainDrain \<and> pc_serverErr p \<noteq> None \<and> q = p\<lparr>pc_main := MainExit 0, pc_serverErr := None\<rparr>"
  by (auto simp: deliver_def serverReturns_def serverSends_def takeServerErr_def takeMetricsErr_def takeSignal_def
      awaitMetrics_def drainServer_def split: option.splits serverPhase.splits)

lemma shutdown_Some:
  "shutdownReturns r p = Some q \<longleftrightarrow> pc_main p = MainShutdown \<and>
     (case r of
        Some _ \<Rightarrow> q = p\<lparr>pc_main := MainExit 1\<rparr>
      | None \<Rightarrow> q = p\<lparr>pc_ctxDone := True, pc_main := (if pc_listener p \<noteq> LsAbsent then MainMetrics else MainDrain)\<rparr>)"
  by (auto simp: shutdownReturns_def split: option.splits)

lemma listener_Some:
  "bindReturns r p = Some q \<longleftrightarrow>
     (\<exists>a. pc_listener p = LsBind a \<and>
        (case r of
           Some e \<Rightarrow> q = p\<lparr>pc_listener := LsReturned (Some (wrapf (''metrics listener: bind '' @ a @ '': '') e))\<rparr>
         | None \<Rightarrow> q = p\<lparr>pc_listener := LsSelect, pc_stopper := StWaiting, pc_accept := AcServing,
             pc_log := loggerInfo (pc_logger p) ''metrics listening'' (pc_log p)\<rparr>))"
  "takeStopErr ph p = Some q \<longleftrightarrow>
     pc_listener p = ph \<and> (\<exists>e. pc_stopErr p = Some e \<and> q = p\<lparr>pc_listener := LsReturned (serveResult e), pc_stopErr := None\<rparr>)"
  "selectStopped p = Some q \<longleftrightarrow> pc_listener p = LsSelect \<and> pc_stopped p \<and> q = p\<lparr>pc_listener := LsGrace\<rparr>"
  "graceTimeout p = Some q \<longleftrightarrow>
     pc_listener p = LsGrace \<and> q = p\<lparr>pc_listener := LsReturned (serveResult errServerClosed)\<rparr>"
  "listenerSends p = Some q \<longleftrightarrow>
     (\<exists>r. pc_listener p = LsReturned r \<and> q = p\<lparr>pc_listener := LsSent, pc_metricsErr := Some r\<rparr>)"
  "seeContext p = Some q \<longleftrightarrow> pc_stopper p = StWaiting \<and> pc_ctxDone p \<and> q = (stopBegins p)\<lparr>pc_stopper := StStopping\<rparr>"
  "stopReturns r p = Some q \<longleftrightarrow>
     pc_stopper p = StStopping \<and> q = p\<lparr>pc_stopper := StClosed, pc_stopped := True, pc_log := stopLog r p\<rparr>"
  "acceptReturns e p = Some q \<longleftrightarrow>
     pc_accept p = AcServing \<and> errorsIs e ServerClosed = pc_metricsClosed p \<and> q = p\<lparr>pc_accept := AcReturned e\<rparr>"
  "acceptSends p = Some q \<longleftrightarrow>
     (\<exists>e. pc_accept p = AcReturned e \<and> q = p\<lparr>pc_accept := AcSent, pc_stopErr := Some e\<rparr>)"
  by (auto simp: bindReturns_def takeStopErr_def selectStopped_def graceTimeout_def listenerSends_def seeContext_def
      stopReturns_def acceptReturns_def acceptSends_def split: option.splits listenerPhase.splits acceptPhase.splits)

lemmas lc_steps = step_Some shutdown_Some listener_Some

lemma exited_iff: "exited p \<longleftrightarrow> (\<exists>c. pc_main p = MainExit c)"
  by (simp add: exited_def split: mainPhase.splits)

lemma exited_update [simp]:
  "exited (p\<lparr>pc_sig := a\<rparr>) = exited p" "exited (p\<lparr>pc_server := b\<rparr>) = exited p"
  "exited (p\<lparr>pc_serverErr := c\<rparr>) = exited p" "exited (p\<lparr>pc_listener := d\<rparr>) = exited p"
  "exited (p\<lparr>pc_metricsErr := e\<rparr>) = exited p" "exited (p\<lparr>pc_stopper := f\<rparr>) = exited p"
  "exited (p\<lparr>pc_accept := g\<rparr>) = exited p" "exited (p\<lparr>pc_stopErr := h\<rparr>) = exited p"
  "exited (p\<lparr>pc_stopped := i\<rparr>) = exited p" "exited (p\<lparr>pc_once := k\<rparr>) = exited p"
  "exited (p\<lparr>pc_metricsClosed := l\<rparr>) = exited p" "exited (p\<lparr>pc_closed := l\<rparr>) = exited p"
  "exited (p\<lparr>pc_ctxDone := l\<rparr>) = exited p" "exited (p\<lparr>pc_log := o1\<rparr>) = exited p" "exited (p\<lparr>pc_main := MainExit n\<rparr>)"
  by (simp_all add: exited_def)

lemma init_inv:
  "mainInv [] (lcInit l)" "serverInv [] (lcInit l)" "stopInv (lcInit l)" "listenerInv [] (lcInit l)" "idleOk (lcInit l)"
  by (auto simp: lcInit_def mainInv_def serverInv_def stopInv_def listenerInv_def idleOk_def split: option.splits)

lemma inv_mono:
  assumes "set evs \<subseteq> set evs'"
  shows "mainInv evs p \<Longrightarrow> mainInv evs' p" and "serverInv evs p \<Longrightarrow> serverInv evs' p"
    and "listenerInv evs p \<Longrightarrow> listenerInv evs' p"
  using assms cause_mono [OF assms] unfolding mainInv_def serverInv_def listenerInv_def by blast+

text \<open>The three parts of the invariant are kept by a step among the events seen.\<close>

lemma serverInv_step:
  assumes "lcStep ev p = Some q" and "ev \<in> set evs" and "mainInv evs p" and "serverInv evs p"
  shows "serverInv evs q"
proof (cases ev)
  case TakeSignal
  then show ?thesis using assms(1,3,4)
    by (auto simp: lcStep_def lc_steps serverInv_def mainInv_def exited_def intro: cause_up split: if_splits)
next
  case (ServerReturns e)
  then show ?thesis using assms(1,2,4) cause_new(1) [of e evs]
    by (auto simp: lcStep_def lc_steps serverInv_def exited_def split: if_splits)
qed (use assms(1,4) in \<open>auto simp: lcStep_def lc_steps serverInv_def stopBegins_def exitWith_def exited_iff
    split: if_splits option.splits\<close>)

lemma stopInv_step:
  assumes "lcStep ev p = Some q" and "stopInv p"
  shows "stopInv q"
proof (cases ev)
  case (Bind r)
  then show ?thesis using assms by (cases r; clarsimp simp: lcStep_def lc_steps split: if_splits; simp add: stopInv_def)
qed (insert assms, (clarsimp simp: lcStep_def lc_steps split: if_splits option.splits; simp add: stopInv_def stopBegins_def exitWith_def)+)

lemma listenerInv_step:
  assumes "lcStep ev p = Some q" and "ev \<in> set evs" and "mainInv evs p" and "stopInv p" and "listenerInv evs p"
  shows "listenerInv evs q"
proof (cases ev)
  case (ShutdownReturns r)
  then have "\<not> pc_ctxDone p" using assms(1,3) by (auto simp: lcStep_def lc_steps mainInv_def exited_def split: if_splits)
  with ShutdownReturns show ?thesis
    using assms(1,5) by (auto simp: lcStep_def lc_steps listenerInv_def intro: cause_up split: if_splits option.splits)
next
  case (AcceptReturns e)
  then show ?thesis using assms(1,2,4,5) cause_new(2) [of e evs]
    by (auto simp: lcStep_def lc_steps listenerInv_def stopInv_def split: if_splits)
next
  case (Bind r)
  then show ?thesis using assms(1,2,5) cause_new(3)
    by (cases r) (auto simp: lcStep_def lc_steps listenerInv_def split: if_splits)
next
  case GraceTimeout
  then show ?thesis using assms(1,4,5) cause_new(4) [of evs]
    by (auto simp: lcStep_def lc_steps listenerInv_def stopInv_def split: if_splits)
qed (use assms(1,5) in \<open>auto simp: lcStep_def lc_steps listenerInv_def stopBegins_def split: if_splits\<close>)

lemma mainInv_frame:
  assumes "mainInv evs p" and "pc_main q = pc_main p" and "pc_sig q = pc_sig p" and "pc_closed q = pc_closed p"
    and "pc_ctxDone q = pc_ctxDone p" and "pc_listener p \<noteq> LsAbsent \<Longrightarrow> pc_listener q \<noteq> LsAbsent"
  shows "mainInv evs q"
  using assms by (simp add: mainInv_def exited_iff)

lemma mainInv_step:
  assumes "lcStep ev p = Some q" and "ev \<in> set evs" and "mainInv evs p" and "serverInv evs p" and "listenerInv evs p"
  shows "mainInv evs q"
proof (cases ev)
  case TakeServerErr
  then obtain r where r: "pc_main p = MainWait" "pc_serverErr p = Some r" "q = p\<lparr>pc_main := exitWith r, pc_serverErr := None\<rparr>"
    using assms(1) by (auto simp: lcStep_def lc_steps split: if_splits)
  then have "serverCause evs False r" using assms(3,4) by (auto simp: mainInv_def serverInv_def exited_def)
  with r show ?thesis using assms(3) cause_new(6) [of evs r] by (auto simp: mainInv_def exited_def)
next
  case TakeMetricsErr
  then obtain r where r: "pc_main p = MainWait" "pc_metricsErr p = Some r" "q = p\<lparr>pc_main := exitWith r, pc_metricsErr := None\<rparr>"
    using assms(1) by (auto simp: lcStep_def lc_steps split: if_splits)
  then have "listenerCause evs False r" using assms(3,5) by (auto simp: mainInv_def listenerInv_def exited_def)
  with r show ?thesis using assms(3) cause_new(7) [of evs r] by (auto simp: mainInv_def exited_def)
next
  case (ShutdownReturns r)
  then show ?thesis using assms(1,2,3) cause_new(5) [of _ evs]
    by (auto simp: lcStep_def lc_steps mainInv_def exited_def split: if_splits option.splits)
next
  case DrainServer
  then show ?thesis using assms(1,3) by (auto simp: lcStep_def lc_steps mainInv_def exited_def exitCause_def split: if_splits)
next
  case Signal
  then show ?thesis using assms(1-3) by (auto simp: lcStep_def lc_steps mainInv_def exited_iff split: if_splits)
next
  case TakeSignal
  then show ?thesis using assms(1-3) by (auto simp: lcStep_def lc_steps mainInv_def exited_iff split: if_splits)
next
  case AwaitMetrics
  then show ?thesis using assms(1-3) by (auto simp: lcStep_def lc_steps mainInv_def exited_iff split: if_splits)
qed (use assms(1) in \<open>auto simp: lcStep_def lc_steps stopBegins_def intro!: mainInv_frame [OF assms(3)]
    split: if_splits option.splits\<close>)

text \<open>All of it along a run.\<close>

lemma lcRun_snoc: "lcRun (evs @ [ev]) p = Some r \<longleftrightarrow> (\<exists>q. lcRun evs p = Some q \<and> lcStep ev q = Some r)"
  by (auto simp: lcRun_append split: option.splits)

lemma run_inv:
  assumes "lcRun evs (lcInit l) = Some p"
  shows "mainInv evs p \<and> serverInv evs p \<and> stopInv p \<and> listenerInv evs p"
  using assms
proof (induction evs arbitrary: p rule: rev_induct)
  case Nil
  then show ?case using init_inv by auto
next
  case (snoc ev evs)
  then obtain q where q: "lcRun evs (lcInit l) = Some q" "lcStep ev q = Some p" by (auto simp: lcRun_snoc)
  have "mainInv (evs @ [ev]) q" "serverInv (evs @ [ev]) q" "stopInv q" "listenerInv (evs @ [ev]) q"
    using snoc.IH [OF q(1)] inv_mono [of evs "evs @ [ev]"] by auto
  then show ?case using mainInv_step [OF q(2)] serverInv_step [OF q(2)] stopInv_step [OF q(2)] listenerInv_step [OF q(2)] by simp
qed

section \<open>The process ends\<close>

text \<open>The events that come by themselves: a goroutine that can take its next step takes it, a call with a
  deadline and a bind return, a server that was closed returns. Nobody has to send a signal, and
  nothing has to fail.\<close>

fun due :: "event \<Rightarrow> bool" where
  "due Signal = False"
| "due (ServerReturns err) = errorsIs err ServerClosed"
| "due (AcceptReturns err) = errorsIs err ServerClosed"
| "due _ = True"

definition canGo :: "proc \<Rightarrow> bool" where
  "canGo p \<longleftrightarrow> (\<exists>ev. due ev \<and> lcStep ev p \<noteq> None)"

lemma canGoI: "lcStep ev p \<noteq> None \<Longrightarrow> due ev \<Longrightarrow> canGo p"
  by (auto simp: canGo_def)

lemma metrics_step:
  assumes "stopInv p" and "mainInv evs p" and "pc_main p = MainMetrics"
  shows "canGo p"
proof -
  have live: "\<not> exited p" using assms(3) by (simp add: exited_def)
  have ctx: "pc_ctxDone p" "pc_listener p \<noteq> LsAbsent" using assms(2,3) live by (auto simp: mainInv_def)
  show ?thesis
  proof (cases "pc_listener p")
    case (LsBind a)
    then have "lcStep (Bind None) p \<noteq> None" using live by (simp add: lcStep_def bindReturns_def)
    then show ?thesis by (rule canGoI) simp
  next
    case LsSelect
    show ?thesis
    proof (cases "pc_stopper p")
      case StWaiting
      then have "lcStep SeeContext p \<noteq> None" using live ctx by (simp add: lcStep_def seeContext_def)
      then show ?thesis by (rule canGoI) simp
    next
      case StStopping
      then have "lcStep (StopReturns None) p \<noteq> None" using live by (simp add: lcStep_def stopReturns_def)
      then show ?thesis by (rule canGoI) simp
    next
      case StClosed
      then have "lcStep SelectStopped p \<noteq> None" using live LsSelect assms(1) by (simp add: lcStep_def selectStopped_def stopInv_def)
      then show ?thesis by (rule canGoI) simp
    qed (use LsSelect assms(1) in \<open>simp add: stopInv_def\<close>)
  next
    case LsGrace
    then have "lcStep GraceTimeout p \<noteq> None" using live by (simp add: lcStep_def graceTimeout_def)
    then show ?thesis by (rule canGoI) simp
  next
    case (LsReturned r)
    then have "lcStep ListenerSends p \<noteq> None" using live by (simp add: lcStep_def listenerSends_def)
    then show ?thesis by (rule canGoI) simp
  next
    case LsSent
    then have "lcStep AwaitMetrics p \<noteq> None" using live assms(1,3) by (simp add: lcStep_def awaitMetrics_def stopInv_def)
    then show ?thesis by (rule canGoI) simp
  qed (use ctx in simp)
qed

lemma drain_step:
  assumes "serverInv evs p" and "mainInv evs p" and "pc_main p = MainDrain"
  shows "canGo p"
proof -
  have live: "\<not> exited p" using assms(3) by (simp add: exited_def)
  show ?thesis
  proof (cases "pc_server p")
    case SvServing
    then have "lcStep (ServerReturns errServerClosed) p \<noteq> None"
      using live assms(2,3) by (simp add: lcStep_def serverReturns_def errServerClosed_def errorsIs_def mainInv_def)
    then show ?thesis by (rule canGoI) (simp add: errServerClosed_def errorsIs_def)
  next
    case (SvReturned e)
    then have "lcStep ServerSends p \<noteq> None" using live by (simp add: lcStep_def serverSends_def)
    then show ?thesis by (rule canGoI) simp
  next
    case SvSent
    then have "lcStep DrainServer p \<noteq> None" using live assms(1,3) by (simp add: lcStep_def drainServer_def serverInv_def)
    then show ?thesis by (rule canGoI) simp
  qed
qed

text \<open>While \<open>main\<close> waits: a signal that came is still there, and what failed is on its way to \<open>main\<close>.\<close>

definition failing :: "proc \<Rightarrow> bool" where
  "failing p \<longleftrightarrow> pc_listener p = LsSent \<or> (\<exists>r. pc_listener p = LsReturned r) \<or>
     pc_listener p = LsSelect \<and> (pc_stopErr p \<noteq> None \<or> (\<exists>e. pc_accept p = AcReturned e))"

definition waitInv :: "event list \<Rightarrow> proc \<Rightarrow> bool" where
  "waitInv evs p \<longleftrightarrow>
     (pc_listener p = LsAbsent \<longrightarrow> pc_accept p = AcIdle) \<and>
     (pc_main p = MainWait \<longrightarrow>
        (Signal \<in> set evs \<longrightarrow> pc_sig p) \<and> (serverFailed evs \<longrightarrow> pc_server p \<noteq> SvServing) \<and> (metricsFailed evs \<longrightarrow> failing p))"

lemma failed_snoc:
  "serverFailed (evs @ [ev]) \<longleftrightarrow> serverFailed evs \<or> (\<exists>e. ev = ServerReturns e \<and> \<not> errorsIs e ServerClosed)"
  "metricsFailed (evs @ [ev]) \<longleftrightarrow>
     metricsFailed evs \<or> (\<exists>e. ev = Bind (Some e)) \<or> (\<exists>e. ev = AcceptReturns e \<and> \<not> errorsIs e ServerClosed)"
  by (auto simp: serverFailed_def metricsFailed_def)

lemma failing_step:
  assumes "lcStep ev p = Some q" and "failing p" and "\<not> pc_stopped p"
  shows "failing q"
proof -
  consider "pc_listener p = LsSent" | r where "pc_listener p = LsReturned r"
    | e where "pc_listener p = LsSelect" "pc_stopErr p = Some e" | e where "pc_listener p = LsSelect" "pc_accept p = AcReturned e"
    using assms(2) by (auto simp: failing_def)
  then show ?thesis
  proof cases
    case 1
    then have "pc_listener q = LsSent" using assms(1)
      by (cases ev) (auto simp: lcStep_def lc_steps stopBegins_def split: if_splits option.splits)
    then show ?thesis by (simp add: failing_def)
  next
    case 2
    then have "pc_listener q \<in> {LsReturned r, LsSent}" using assms(1)
      by (cases ev) (auto simp: lcStep_def lc_steps stopBegins_def split: if_splits option.splits)
    then show ?thesis by (auto simp: failing_def)
  next
    case 3
    then have "pc_listener q = LsReturned (serveResult e) \<or> pc_listener q = LsSelect \<and> pc_stopErr q \<noteq> None" using assms(1,3)
      by (cases ev) (auto simp: lcStep_def lc_steps stopBegins_def split: if_splits option.splits)
    then show ?thesis by (auto simp: failing_def)
  next
    case 4
    then have "(\<exists>r. pc_listener q = LsReturned r) \<or>
        pc_listener q = LsSelect \<and> (pc_stopErr q \<noteq> None \<or> pc_accept q = AcReturned e)" using assms(1,3)
      by (cases ev) (auto simp: lcStep_def lc_steps stopBegins_def split: if_splits option.splits)
    then show ?thesis by (auto simp: failing_def)
  qed
qed

lemma waitInv_step:
  assumes "lcStep ev p = Some q" and "waitInv evs p" and "mainInv evs p" and "stopInv p" and "idleOk p"
  shows "waitInv (evs @ [ev]) q"
proof (cases "pc_main p = MainWait")
  case False
  then have "pc_main q \<noteq> MainWait" using assms(1)
    by (cases ev) (auto simp: lcStep_def lc_steps stopBegins_def exitWith_def split: if_splits option.splits)
  moreover have "pc_listener q = LsAbsent \<longrightarrow> pc_accept q = AcIdle" using assms(1,2)
    by (cases ev) (auto simp: lcStep_def lc_steps waitInv_def stopBegins_def split: if_splits option.splits)
  ultimately show ?thesis by (simp add: waitInv_def)
next
  case True
  then have "\<not> pc_ctxDone p" using assms(3) by (auto simp: mainInv_def exited_def)
  then have quiet: "\<not> pc_stopped p" "pc_listener p \<noteq> LsGrace" using assms(4) by (auto simp: stopInv_def)
  have acc: "pc_listener p \<in> {LsSelect, LsSent} \<union> range LsReturned" if "pc_accept p = AcServing"
    using that assms(2,5) quiet by (cases "pc_listener p") (auto simp: waitInv_def idleOk_def)
  have wait: "Signal \<in> set evs \<longrightarrow> pc_sig p" "serverFailed evs \<longrightarrow> pc_server p \<noteq> SvServing" "metricsFailed evs \<longrightarrow> failing p"
    "pc_listener p = LsAbsent \<longrightarrow> pc_accept p = AcIdle"
    using assms(2) True by (auto simp: waitInv_def)
  have step: "pc_main q = MainWait \<longrightarrow> (Signal \<in> set (evs @ [ev]) \<longrightarrow> pc_sig q)"
    using assms(1) wait(1) by (cases ev) (auto simp: lcStep_def lc_steps stopBegins_def split: if_splits option.splits)
  have serve: "serverFailed (evs @ [ev]) \<longrightarrow> pc_server q \<noteq> SvServing"
    using assms(1) wait(2) by (cases ev) (auto simp: lcStep_def lc_steps failed_snoc stopBegins_def split: if_splits option.splits)
  have absent: "pc_listener q = LsAbsent \<longrightarrow> pc_accept q = AcIdle"
    using assms(1) wait(4) by (cases ev) (auto simp: lcStep_def lc_steps stopBegins_def split: if_splits option.splits)
  have keep: "failing q" if "failing p" using failing_step [OF assms(1) that quiet(1)] .
  have new: "failing q" if "(\<exists>e. ev = Bind (Some e)) \<or> (\<exists>e. ev = AcceptReturns e)"
    using that assms(1) acc by (auto simp: lcStep_def lc_steps failing_def split: if_splits)
  show ?thesis using step serve absent keep new wait(3) unfolding waitInv_def failed_snoc by blast
qed

lemma waitInv_run: "lcRun evs (lcInit l) = Some p \<Longrightarrow> waitInv evs p"
proof (induction evs arbitrary: p rule: rev_induct)
  case Nil
  then show ?case by (auto simp: waitInv_def lcInit_def serverFailed_def metricsFailed_def split: option.splits)
next
  case (snoc ev evs)
  then obtain q where q: "lcRun evs (lcInit l) = Some q" "lcStep ev q = Some p" by (auto simp: lcRun_snoc)
  have "idleOk q" using q(1) init_inv(5) [of l] idleOk_step
    by (induction evs arbitrary: q rule: rev_induct) (auto simp: lcRun_snoc)
  then show ?case using waitInv_step [OF q(2) snoc.IH [OF q(1)]] run_inv [OF q(1)] by blast
qed

lemma wait_step:
  assumes "waitInv evs p" and "serverInv evs p" and "stopInv p" and "pc_main p = MainWait"
    and "Signal \<in> set evs \<or> serverFailed evs \<or> metricsFailed evs"
  shows "canGo p"
proof -
  have live: "\<not> exited p" using assms(4) by (simp add: exited_def)
  consider "pc_sig p" | e where "pc_server p = SvReturned e" | "pc_server p = SvSent" | "failing p"
    using assms(1,4,5) by (cases "pc_server p") (auto simp: waitInv_def)
  then show ?thesis
  proof cases
    case 1
    then show ?thesis using live assms(4) by (intro canGoI [of TakeSignal]) (simp_all add: lcStep_def takeSignal_def)
  next
    case 2
    then show ?thesis using live by (intro canGoI [of ServerSends]) (simp_all add: lcStep_def serverSends_def)
  next
    case 3
    then show ?thesis using live assms(2,4)
      by (intro canGoI [of TakeServerErr]) (auto simp: lcStep_def takeServerErr_def serverInv_def)
  next
    case 4
    then consider "pc_listener p = LsSent" | r where "pc_listener p = LsReturned r"
      | e where "pc_listener p = LsSelect" "pc_stopErr p = Some e" | e where "pc_accept p = AcReturned e"
      by (auto simp: failing_def)
    then show ?thesis
    proof cases
      case 1
      then show ?thesis using live assms(3,4)
        by (intro canGoI [of TakeMetricsErr]) (auto simp: lcStep_def takeMetricsErr_def stopInv_def)
    next
      case 2
      then show ?thesis using live by (intro canGoI [of ListenerSends]) (simp_all add: lcStep_def listenerSends_def)
    next
      case 3
      then show ?thesis using live by (intro canGoI [of SelectStopErr]) (simp_all add: lcStep_def takeStopErr_def)
    next
      case 4
      then show ?thesis using live by (intro canGoI [of AcceptSends]) (simp_all add: lcStep_def acceptSends_def)
    qed
  qed
qed

text \<open>A process that was told to end, or part of which failed, is never stuck short of its exit.\<close>

lemma progress:
  assumes "lcRun evs (lcInit l) = Some p" and "Signal \<in> set evs \<or> serverFailed evs \<or> metricsFailed evs" and "\<not> exited p"
  shows "canGo p"
proof -
  have inv: "mainInv evs p" "serverInv evs p" "stopInv p" "waitInv evs p" using run_inv [OF assms(1)] waitInv_run [OF assms(1)] by blast+
  show ?thesis
  proof (cases "pc_main p")
    case MainWait
    then show ?thesis using wait_step [OF inv(4,2,3)] assms(2) by blast
  next
    case MainShutdown
    then show ?thesis using assms(3) by (intro canGoI [of "ShutdownReturns None"]) (simp_all add: lcStep_def shutdownReturns_def)
  next
    case MainMetrics
    then show ?thesis using metrics_step inv by blast
  next
    case MainDrain
    then show ?thesis using drain_step inv by blast
  qed (use assms(3) in \<open>simp add: exited_def\<close>)
qed

lemma length_bound: "lcRun evs (lcInit l) = Some p \<Longrightarrow> length evs + stepsLeft p \<le> 16"
proof -
  assume r: "lcRun evs (lcInit l) = Some p"
  have "stepsLeft (lcInit l) \<le> 16" by (simp add: stepsLeft_def lcInit_def split: option.splits)
  then show ?thesis using lcRun_length [OF r init_inv(5)] by simp
qed

text \<open>Going on as long as something is due leads to the exit.\<close>

lemma due_to_exit:
  "lcRun evs (lcInit l) = Some p \<Longrightarrow> Signal \<in> set evs \<or> serverFailed evs \<or> metricsFailed evs \<Longrightarrow>
     \<exists>more q. list_all due more \<and> lcRun (evs @ more) (lcInit l) = Some q \<and> exited q"
proof (induction "16 - length evs" arbitrary: evs p rule: less_induct)
  case less
  show ?case
  proof (cases "exited p")
    case True
    then show ?thesis using less.prems(1) by (intro exI [of _ "[]"]) simp
  next
    case False
    then obtain ev q where ev: "due ev" "lcStep ev p = Some q" using progress [OF less.prems] by (auto simp: canGo_def)
    have run: "lcRun (evs @ [ev]) (lcInit l) = Some q" using less.prems(1) ev(2) by (auto simp: lcRun_snoc)
    have "16 - length (evs @ [ev]) < 16 - length evs" using length_bound [OF run] by simp
    moreover have "Signal \<in> set (evs @ [ev]) \<or> serverFailed (evs @ [ev]) \<or> metricsFailed (evs @ [ev])"
      using less.prems(2) by (auto simp: failed_snoc)
    ultimately obtain more q' where "list_all due more" "lcRun ((evs @ [ev]) @ more) (lcInit l) = Some q'" "exited q'"
      using less.hyps [OF _ run] by blast
    then show ?thesis using ev(1) by (intro exI [of _ "ev # more"] exI [of _ q']) simp
  qed
qed

text \<open>The listener reports that it stopped at most once, and only after it was told to.\<close>

abbreviation stoppedLines :: "proc \<Rightarrow> logLine list" where
  "stoppedLines p \<equiv> filter (\<lambda>l. snd l = ''metrics stopped'') (pc_log p)"

lemma loggerInfo_lines:
  "filter P (loggerInfo lg msg log) = filter P log \<or> filter P (loggerInfo lg msg log) = filter P (log @ [(LevelInfo, msg)])"
  by (cases lg) (auto split: option.splits)

lemma loggerWarn_lines:
  "\<not> P (LevelWarn, msg) \<Longrightarrow> filter P (loggerWarn lg msg log) = filter P log"
  by (cases lg) (auto split: option.splits)

definition logInv :: "proc \<Rightarrow> bool" where
  "logInv p \<longleftrightarrow> length (stoppedLines p) \<le> (if pc_stopper p = StClosed then 1 else 0)"

lemma loggerInfo_one:
  "filter P log = [] \<Longrightarrow> length (filter P (loggerInfo lg msg log)) \<le> 1"
  using loggerInfo_lines [of P lg msg log] by auto

lemma stopLog_lines: "stoppedLines p = [] \<Longrightarrow> length (filter (\<lambda>l. snd l = ''metrics stopped'') (stopLog err p)) \<le> 1"
  unfolding stopLog_def by (rule loggerInfo_one) (simp add: loggerWarn_lines)

lemma logInv_step:
  assumes "lcStep ev p = Some q" and "logInv p" and "idleOk p"
  shows "logInv q"
proof (cases ev)
  case (Bind r)
  have "filter (\<lambda>l. snd l = ''metrics stopped'') (loggerInfo (pc_logger p) ''metrics listening'' (pc_log p)) = stoppedLines p"
    using loggerInfo_lines [of "\<lambda>l. snd l = ''metrics stopped''" "pc_logger p" "''metrics listening''" "pc_log p"] by auto
  then show ?thesis using Bind assms
    by (cases r) (auto simp: lcStep_def lc_steps logInv_def idleOk_def split: if_splits)
next
  case (StopReturns r)
  then show ?thesis using assms stopLog_lines [of p r] by (auto simp: lcStep_def lc_steps logInv_def split: if_splits)
qed (use assms in \<open>auto simp: lcStep_def lc_steps logInv_def stopBegins_def exitWith_def split: if_splits option.splits\<close>)

lemma stopped_once: "lcRun evs (lcInit l) = Some p \<Longrightarrow> length (stoppedLines p) \<le> 1"
proof -
  have "lcRun evs q = Some p \<Longrightarrow> logInv q \<Longrightarrow> idleOk q \<Longrightarrow> logInv p" for q
    by (induction evs arbitrary: q) (auto split: option.splits dest: logInv_step idleOk_step)
  moreover have "logInv (lcInit l)" by (simp add: logInv_def lcInit_def)
  ultimately show "lcRun evs (lcInit l) = Some p \<Longrightarrow> length (stoppedLines p) \<le> 1"
    using init_inv(5) [of l] by (fastforce simp: logInv_def split: if_splits)
qed

section \<open>Correctness\<close>

text \<open>A serving worker exits with 0 only after a signal and a graceful shutdown that succeeded, and
  otherwise with 1, and then the server or the metrics listener failed or the shutdown ran into
  its deadline.\<close>

lemma exit_explained:
  assumes "lcRun evs (lcInit l) = Some p" and "pc_main p = MainExit c"
  shows "exitCause evs c"
  using run_inv [OF assms(1)] assms(2) by (auto simp: mainInv_def)

text \<open>C13 A worker that is told to stop does: once a signal has come, or the server or the metrics listener
  has failed, the process, without a listener or with one, goes on to its exit by events that come by
  themselves: no further signal and no failure has to happen. Such a process that has not exited
  always has one of them before it, so that no channel is waited for in vain, and no run has more than
  sixteen events.\<close>

theorem worker_stops:
  assumes "lcRun evs (lcInit l) = Some p" and "Signal \<in> set evs \<or> serverFailed evs \<or> metricsFailed evs"
  shows "length evs \<le> 16 \<and>
    ((\<exists>c. pc_main p = MainExit c) \<or> (\<exists>ev. due ev \<and> lcStep ev p \<noteq> None)) \<and>
    (\<exists>more q c. list_all due more \<and> lcRun (evs @ more) (lcInit l) = Some q \<and> pc_main q = MainExit c)"
  using length_bound [OF assms(1)] progress [OF assms] due_to_exit [OF assms] by (auto simp: exited_iff canGo_def)

text \<open>A worker with a metrics listener that is stopped by a signal: the listener's goroutine
  returns through the timeout of its second select.\<close>

definition sampleListener :: Listener where
  "sampleListener = \<lparr>ls_Addr = '':9093'', ls_Path = ''/metrics'', ls_Handler = listenerMux ''/metrics'' noopHandler,
     ls_Logger = DiscardLogger, ls_ReadHeaderTimeout = 5 * second\<rparr>"

definition sampleStop :: "event list" where
  "sampleStop = [Bind None, Signal, TakeSignal, ServerReturns errServerClosed, ShutdownReturns None, SeeContext,
     StopReturns None, SelectStopped, GraceTimeout, ListenerSends, AwaitMetrics, ServerSends, DrainServer]"

lemma sampleStop_run: "\<exists>p. lcRun sampleStop (lcInit (Some sampleListener)) = Some p \<and> pc_main p = MainExit 0"
  by (simp add: sampleStop_def lcInit_def sampleListener_def lc_step_defs exited_def errServerClosed_def errorsIs_def)

theorem worker_stops_witness:
  "\<exists>p q more c. lcRun (take 5 sampleStop) (lcInit (Some sampleListener)) = Some p \<and> pc_main p = MainMetrics \<and>
     list_all due more \<and> lcRun (take 5 sampleStop @ more) (lcInit (Some sampleListener)) = Some q \<and> pc_main q = MainExit c"
proof -
  obtain p where p: "lcRun (take 5 sampleStop) (lcInit (Some sampleListener)) = Some p" "pc_main p = MainMetrics"
    by (simp add: sampleStop_def lcInit_def sampleListener_def lc_step_defs exited_def errServerClosed_def errorsIs_def)
  have "Signal \<in> set (take 5 sampleStop)" by (simp add: sampleStop_def)
  with worker_stops [OF p(1)] p show ?thesis by blast
qed

text \<open>The metrics endpoint: \<open>run\<close> builds a listener exactly when the flag is set, without an error or a
  panic, and on a fresh response the listener serves \<open>/metrics\<close> with the recorder, answers the
  liveness path and the index with 200, and everything else with 404.\<close>

lemma metrics_endpoint:
  assumes "wr_sent w = None" and "wr_accepts w = None" and "fl_metricsListen fl \<noteq> []"
  obtains l where "buildListener prom fl = Some (Inr (Some l))" and "ls_Addr l = fl_metricsListen fl"
    and "rq_Path r = ''/metrics'' \<Longrightarrow> ls_Handler l r w = prom r w"
    and "rq_Path r \<noteq> ''/metrics'' \<Longrightarrow>
      \<exists>h. wr_sent (ls_Handler l r w) = Some (if rq_Path r \<in> {''/'', ''/healthz''} then 200 else 404, h)"
  using assms
  by (simp add: buildListener_def NewListener_def recorderHandler_def listenerMux_def healthz_def httpError_def rawRW_def
      rawWriteHeader_def rawWrite_def rawSet_def rawDel_def bodyAllowed_def Let_def)

lemma metrics_disabled: "fl_metricsListen fl = [] \<Longrightarrow> buildListener prom fl = Some (Inr None)"
  by (simp add: buildListener_def NewListener_def)

section \<open>The process\<close>

text \<open>\<open>main\<close>: the code \<open>os.Exit\<close> is called with, for the events of a process. \<open>run\<close> fails before it serves,
  or the metrics listener cannot be built, or the life cycle ends; \<open>None\<close> is a process that is
  still running, or an event that cannot happen.\<close>

definition mainExit :: "('d, 'b) Env \<Rightarrow> rawHandler \<Rightarrow> ('d, 'b) World \<Rightarrow> event list \<Rightarrow> int option" where
  "mainExit en prom w evs =
     (case fst (run en w) of
        Exited c \<Rightarrow> Some c
      | StartPanic \<Rightarrow> None
      | Started _ \<Rightarrow>
          (case en_flags en of
             None \<Rightarrow> None
           | Some fl \<Rightarrow>
               (case buildListener prom fl of
                  None \<Rightarrow> None
                | Some (Inl _) \<Rightarrow> Some 1
                | Some (Inr l) \<Rightarrow>
                    (case lcRun evs (lcInit l) of
                       None \<Rightarrow> None
                     | Some p \<Rightarrow> (case pc_main p of MainExit c \<Rightarrow> Some c | _ \<Rightarrow> None)))))"

lemma buildListener_ok: "\<exists>l. buildListener prom fl = Some (Inr l)"
  by (simp add: buildListener_def NewListener_def Let_def)

lemma mainExit_started:
  assumes "mainExit en prom w evs = Some c" and "fst (run en w) = Started m"
  shows "exitCause evs c"
proof -
  obtain fl where fl: "en_flags en = Some fl" using assms by (auto simp: mainExit_def split: option.splits)
  obtain l where l: "buildListener prom fl = Some (Inr l)" using buildListener_ok by blast
  obtain p where "lcRun evs (lcInit l) = Some p" "pc_main p = MainExit c"
    using assms fl l by (auto simp: mainExit_def split: option.splits mainPhase.splits)
  then show ?thesis by (rule exit_explained)
qed

end
