(* ===== verification/Lint.thy ===== *)
theory Lint
  imports GoCodec
begin

text \<open>
  \<open>lint/payment-middleware-check\<close>: the build-time check that no capability path is registered
  as an unpaid route. The syntax tree has the nodes the check looks at, every other node
  being \<open>OtherNode\<close> with its children in source order; the position of a call is what the file
  set reports for it. The Go parser and the file system are parameters: \<open>readFile\<close>, \<open>parseFile\<close>
  and the tree of directory entries that \<open>filepath.WalkDir\<close> walks. The root is a path in the
  form \<open>filepath.Clean\<close> leaves it, so that joining a name to it cleans nothing.
\<close>

section \<open>String literals\<close>

text \<open>The digits after \<open>\x\<close>, \<open>\u\<close> and \<open>\U\<close>.\<close>

fun hexDigits :: "nat \<Rightarrow> nat \<Rightarrow> string \<Rightarrow> (nat \<times> string) option" where
  "hexDigits 0 v s = Some (v, s)"
| "hexDigits (Suc n) v s =
     (case s of
        [] \<Rightarrow> None
      | c # t \<Rightarrow> (case unhex c of None \<Rightarrow> None | Some x \<Rightarrow> hexDigits n (v * 16 + x) t))"

fun octDigits :: "nat \<Rightarrow> nat \<Rightarrow> string \<Rightarrow> (nat \<times> string) option" where
  "octDigits 0 v s = Some (v, s)"
| "octDigits (Suc n) v s =
     (case s of
        [] \<Rightarrow> None
      | c # t \<Rightarrow>
          if 48 \<le> byteOf c \<and> byteOf c \<le> 55 then octDigits n (v * 8 + (byteOf c - 48)) t else None)"

definition validRune :: "nat \<Rightarrow> bool" where
  "validRune v \<longleftrightarrow> v < 0xD800 \<or> 0xDFFF < v \<and> v \<le> 0x10FFFF"

text \<open>An escape sequence of a string in double quotes, after the backslash: the bytes it
  stands for and the rest.\<close>

definition unescape :: "string \<Rightarrow> (string \<times> string) option" where
  "unescape s =
     (case s of
        [] \<Rightarrow> None
      | c # t \<Rightarrow>
          if c = CHR ''a'' then Some ([chr 7], t)
          else if c = CHR ''b'' then Some ([chr 8], t)
          else if c = CHR ''f'' then Some ([chr 12], t)
          else if c = CHR ''n'' then Some ([chr 10], t)
          else if c = CHR ''r'' then Some ([chr 13], t)
          else if c = CHR ''t'' then Some ([chr 9], t)
          else if c = CHR ''v'' then Some ([chr 11], t)
          else if c = chr 92 \<or> c = chr 34 then Some ([c], t)
          else if c = CHR ''x'' then map_option (\<lambda>(v, u). ([chr v], u)) (hexDigits 2 0 t)
          else if c = CHR ''u'' \<or> c = CHR ''U'' then
            (case hexDigits (if c = CHR ''u'' then 4 else 8) 0 t of
               None \<Rightarrow> None
             | Some (v, u) \<Rightarrow> if validRune v then Some (encodeRune v, u) else None)
          else if 48 \<le> byteOf c \<and> byteOf c \<le> 55 then
            (case octDigits 2 (byteOf c - 48) t of
               None \<Rightarrow> None
             | Some (v, u) \<Rightarrow> if v \<le> 255 then Some ([chr v], u) else None)
          else None)"

lemma hexDigits_length: "hexDigits n v s = Some (x, t) \<Longrightarrow> length t \<le> length s"
  by (induction n arbitrary: v s) (fastforce split: list.splits option.splits)+

lemma octDigits_length: "octDigits n v s = Some (x, t) \<Longrightarrow> length t \<le> length s"
  by (induction n arbitrary: v s) (fastforce split: list.splits if_splits)+

lemma unescape_length: "unescape s = Some (b, t) \<Longrightarrow> length t \<le> length s"
  by (auto simp: unescape_def dest: hexDigits_length octDigits_length
      split: list.splits if_splits option.splits)

text \<open>The rest of a string in double quotes; it has to end with the closing quote.\<close>

function unquoteRest :: "string \<Rightarrow> string option" where
  "unquoteRest [] = None"
| "unquoteRest (c # s) =
     (if c = chr 34 then (if s = [] then Some [] else None)
      else if c = chr 10 then None
      else if c = chr 92 then
        (case unescape s of None \<Rightarrow> None | Some (b, t) \<Rightarrow> map_option ((@) b) (unquoteRest t))
      else if 0x80 \<le> byteOf c then
        map_option ((@) (encodeRune (fst (decodeRune (c # s))))) (unquoteRest (drop (snd (decodeRune (c # s))) (c # s)))
      else map_option ((#) c) (unquoteRest s))"
  by pat_completeness auto
termination
proof (relation "measure length", goal_cases)
  case (2 c s x b t)
  then show ?case using unescape_length [of s b t] by simp
next
  case (3 c s)
  show ?case using decodeRune_width_pos [of c s] by simp
qed simp_all

text \<open>\<open>strconv.Unquote\<close> on the two forms a string literal has: double quotes, and back quotes
  with their carriage returns dropped.\<close>

definition unquote :: "string \<Rightarrow> string option" where
  "unquote s =
     (case s of
        [] \<Rightarrow> None
      | q # t \<Rightarrow>
          if q = chr 34 then unquoteRest t
          else if q = chr 96 then
            (if t \<noteq> [] \<and> last t = chr 96 \<and> chr 96 \<notin> set (butlast t)
             then Some (filter (\<lambda>c. c \<noteq> chr 13) (butlast t)) else None)
          else None)"

text \<open>The literal a plain path is written as.\<close>

definition quoted :: "string \<Rightarrow> string" where
  "quoted s = chr 34 # s @ [chr 34]"

definition plainChar :: "char \<Rightarrow> bool" where
  "plainChar c \<longleftrightarrow> byteOf c < 0x80 \<and> c \<notin> {chr 34, chr 92, chr 10}"

lemma unquoteRest_plain: "list_all plainChar s \<Longrightarrow> unquoteRest (s @ [chr 34]) = Some s"
  by (induction s) (auto simp: plainChar_def)

lemma unquote_quoted [simp]: "list_all plainChar s \<Longrightarrow> unquote (quoted s) = Some s"
  by (simp add: unquote_def quoted_def unquoteRest_plain)

section \<open>The check of a file\<close>

datatype litKind = INT | FLOAT | IMAG | CHAR | STRING

datatype node =
    CallExpr "string \<times> int" node "node list"
  | SelectorExpr node string
  | BasicLit litKind string
  | OtherNode "node list"

text \<open>\<open>ast.Inspect\<close> with a visitor that always goes on: every node, parents first.\<close>

fun inspect :: "node \<Rightarrow> node list" where
  "inspect (CallExpr p f args) = CallExpr p f args # inspect f @ concat (map inspect args)"
| "inspect (SelectorExpr x sel) = SelectorExpr x sel # inspect x"
| "inspect (BasicLit k v) = [BasicLit k v]"
| "inspect (OtherNode ns) = OtherNode ns # concat (map inspect ns)"

record finding =
  fi_File :: string
  fi_Line :: int
  fi_Path :: string

definition allowedUnpaidV1Paths :: "string list" where
  "allowedUnpaidV1Paths = [''/v1/payment/ticket-params'']"

text \<open>What the visitor appends for one node.\<close>

definition visit :: "node \<Rightarrow> finding list" where
  "visit n =
     (case n of
        CallExpr p f args \<Rightarrow>
          (case f of
             SelectorExpr _ sel \<Rightarrow>
               if sel \<noteq> ''Register'' then []
               else if length args \<noteq> 3 then []
               else (case args ! 1 of
                       BasicLit k v \<Rightarrow>
                         if k \<noteq> STRING then []
                         else (case unquote v of
                                 None \<Rightarrow> []
                               | Some pathStr \<Rightarrow>
                                   if \<not> hasPrefix ''/v1/'' pathStr then []
                                   else if pathStr \<in> set allowedUnpaidV1Paths then []
                                   else [\<lparr>fi_File = fst p, fi_Line = snd p, fi_Path = pathStr\<rparr>])
                     | _ \<Rightarrow> [])
           | _ \<Rightarrow> [])
      | _ \<Rightarrow> [])"

definition checkFile ::
    "(string \<Rightarrow> Err + bytes) \<Rightarrow> (string \<Rightarrow> bytes \<Rightarrow> Err + node) \<Rightarrow> string \<Rightarrow> Err + finding list" where
  "checkFile readFile parseFile path =
     (case readFile path of
        Inl e \<Rightarrow> Inl e
      | Inr src \<Rightarrow>
          (case parseFile path src of
             Inl e \<Rightarrow> Inl e
           | Inr file \<Rightarrow> Inr (concat (map visit (inspect file)))))"

section \<open>The walk\<close>

text \<open>A directory entry, with the names of a directory in the order \<open>os.ReadDir\<close> lists them and
  the error that listing may end in.\<close>

datatype entry = FileEntry string | DirEntry string "entry list" "Err option"

definition joinPath :: "string \<Rightarrow> string \<Rightarrow> string" where
  "joinPath p name = (if p = ''.'' then name else if p = ''/'' then p @ name else p @ ''/'' @ name)"

definition skipDir :: "string \<Rightarrow> bool" where
  "skipDir base \<longleftrightarrow> base \<in> {''vendor'', ''.git'', ''lint''}"

definition hasSuffix :: "string \<Rightarrow> string \<Rightarrow> bool" where
  "hasSuffix p s \<longleftrightarrow> hasPrefix (rev p) (rev s)"

fun entryName :: "entry \<Rightarrow> string" where
  "entryName (FileEntry n) = n"
| "entryName (DirEntry n _ _) = n"

text \<open>The walk below an entry: what it has found, and the error that stopped it. A directory that
  cannot be listed is reported to the callback, which returns the error.\<close>

fun walkDir :: "(string \<Rightarrow> Err + finding list) \<Rightarrow> string \<Rightarrow> entry \<Rightarrow> finding list \<times> Err option"
  and walkDirs :: "(string \<Rightarrow> Err + finding list) \<Rightarrow> string \<Rightarrow> entry list \<Rightarrow> finding list \<times> Err option" where
  "walkDir check path (FileEntry name) =
     (if \<not> hasSuffix ''.go'' path then ([], None)
      else (case check path of Inl e \<Rightarrow> ([], Some e) | Inr hits \<Rightarrow> (hits, None)))"
| "walkDir check path (DirEntry name ents err) =
     (if skipDir name then ([], None)
      else case err of Some e \<Rightarrow> ([], Some e) | None \<Rightarrow> walkDirs check path ents)"
| "walkDirs check path [] = ([], None)"
| "walkDirs check path (d # ds) =
     (case walkDir check (joinPath path (entryName d)) d of
        (out, Some e) \<Rightarrow> (out, Some e)
      | (out, None) \<Rightarrow> (let (out', e) = walkDirs check path ds in (out @ out', e)))"

definition checkTree ::
    "(string \<Rightarrow> Err + bytes) \<Rightarrow> (string \<Rightarrow> bytes \<Rightarrow> Err + node) \<Rightarrow> string \<Rightarrow> Err + entry \<Rightarrow> finding list \<times> Err option" where
  "checkTree readFile parseFile root ent =
     (case ent of
        Inl e \<Rightarrow> ([], Some e)
      | Inr d \<Rightarrow> walkDir (checkFile readFile parseFile) root d)"

text \<open>The exit code of the command.\<close>

definition lintMain ::
    "(string \<Rightarrow> Err + bytes) \<Rightarrow> (string \<Rightarrow> bytes \<Rightarrow> Err + node) \<Rightarrow> string \<Rightarrow> Err + entry \<Rightarrow> int" where
  "lintMain readFile parseFile root ent =
     (case checkTree readFile parseFile root ent of
        (_, Some e) \<Rightarrow> 2
      | (findings, None) \<Rightarrow> if 0 < length findings then 1 else 0)"

text \<open>The text of a finding; \<open>quote\<close> is the verb \<open>%q\<close>, and the section sign is two bytes of UTF-8.\<close>

definition format :: "(string \<Rightarrow> string) \<Rightarrow> finding \<Rightarrow> string" where
  "format quote f =
     fi_File f @ '':'' @ showInt (fi_Line f) @
     '': payment-middleware-check: mux.Register(...) called with capability path '' @ quote (fi_Path f) @ [chr 10] @
     ''  Remediation: paths under /v1/ are paid routes and MUST be registered via RegisterPaidRoute.'' @ [chr 10] @
     ''  See: docs/design-docs/core-beliefs.md '' @ [chr 0xC2, chr 0xA7] @ ''3, internal/runtime/http/mux.go''"

section \<open>What the check decides\<close>

text \<open>The nodes of a tree, the files below an entry and the violations, stated without the
  traversals.\<close>

inductive occurs :: "node \<Rightarrow> node \<Rightarrow> bool" where
  occurs_self: "occurs n n"
| occurs_fun: "occurs n f \<Longrightarrow> occurs n (CallExpr p f args)"
| occurs_arg: "occurs n a \<Longrightarrow> a \<in> set args \<Longrightarrow> occurs n (CallExpr p f args)"
| occurs_sel: "occurs n x \<Longrightarrow> occurs n (SelectorExpr x sel)"
| occurs_other: "occurs n m \<Longrightarrow> m \<in> set ns \<Longrightarrow> occurs n (OtherNode ns)"

inductive_simps occurs_simps:
  "occurs n (CallExpr p f args)" "occurs n (SelectorExpr x sel)" "occurs n (BasicLit k v)" "occurs n (OtherNode ns)"

inductive fileAt :: "string \<Rightarrow> entry \<Rightarrow> string \<Rightarrow> bool" where
  fileAt_file: "hasSuffix ''.go'' path \<Longrightarrow> fileAt path (FileEntry name) path"
| fileAt_dir: "fileAt (joinPath path (entryName d)) d f \<Longrightarrow> d \<in> set ents \<Longrightarrow> \<not> skipDir name \<Longrightarrow>
    fileAt path (DirEntry name ents err) f"

inductive_simps fileAt_simps: "fileAt path (FileEntry name) f" "fileAt path (DirEntry name ents err) f"

inductive listed :: "entry \<Rightarrow> bool" where
  listed_file: "listed (FileEntry name)"
| listed_skip: "skipDir name \<Longrightarrow> listed (DirEntry name ents err)"
| listed_dir: "(\<And>d. d \<in> set ents \<Longrightarrow> listed d) \<Longrightarrow> listed (DirEntry name ents None)"

inductive_simps listed_simps: "listed (FileEntry name)" "listed (DirEntry name ents err)"

text \<open>A call \<open>x.Register(a, "path", c)\<close> with a capability path.\<close>

inductive unpaidV1 :: "node \<Rightarrow> string \<Rightarrow> bool" where
  "unquote v = Some path \<Longrightarrow> hasPrefix ''/v1/'' path \<Longrightarrow> path \<notin> set allowedUnpaidV1Paths \<Longrightarrow>
     unpaidV1 (CallExpr p (SelectorExpr x ''Register'') [a, BasicLit STRING v, c]) path"

inductive_cases unpaidV1E: "unpaidV1 n path"

lemma inspect_occurs: "m \<in> set (inspect n) \<longleftrightarrow> occurs m n"
  by (induction n rule: inspect.induct) (auto simp: occurs_simps intro: occurs.intros)

lemma visit_iff: "(\<exists>f\<in>set (visit n). fi_Path f = path) \<longleftrightarrow> unpaidV1 n path"
proof
  assume "\<exists>f\<in>set (visit n). fi_Path f = path"
  then obtain p f args where n: "n = CallExpr p f args" by (cases n) (auto simp: visit_def)
  with \<open>\<exists>f\<in>set (visit n). fi_Path f = path\<close> obtain x v where f: "f = SelectorExpr x ''Register''"
    and len: "length args = 3" and arg: "args ! 1 = BasicLit STRING v"
    and v: "unquote v = Some path" "hasPrefix ''/v1/'' path" "path \<notin> set allowedUnpaidV1Paths"
    by (auto simp: visit_def split: node.splits if_splits option.splits)
  from len obtain a b c where "args = [a, b, c]"
    by (auto simp: numeral_3_eq_3 length_Suc_conv)
  with arg have "args = [a, BasicLit STRING v, c]" by simp
  with n f v show "unpaidV1 n path" by (auto intro: unpaidV1.intros)
next
  assume "unpaidV1 n path"
  then show "\<exists>f\<in>set (visit n). fi_Path f = path"
    by (cases rule: unpaidV1.cases) (simp add: visit_def)
qed

lemma checkFile_iff:
  "checkFile rd ps f = Inr hits \<longleftrightarrow>
     (\<exists>src file. rd f = Inr src \<and> ps f src = Inr file \<and> hits = concat (map visit (inspect file)))"
  by (auto simp: checkFile_def split: sum.splits)

lemma walkDirs_err: "snd (walkDirs check path ds) = None \<longleftrightarrow>
    (\<forall>d\<in>set ds. snd (walkDir check (joinPath path (entryName d)) d) = None)"
  by (induction ds) (auto split: prod.splits option.splits)

lemma walkDirs_hits: "snd (walkDirs check path ds) = None \<Longrightarrow>
    set (fst (walkDirs check path ds)) = (\<Union>d\<in>set ds. set (fst (walkDir check (joinPath path (entryName d)) d)))"
  by (induction ds) (auto split: prod.splits option.splits)

text \<open>The walk ends without an error exactly when everything it meets can be listed and checked.\<close>

lemma walkDir_err:
  "snd (walkDir check path d) = None \<longleftrightarrow> listed d \<and> (\<forall>f. fileAt path d f \<longrightarrow> (\<exists>hits. check f = Inr hits))"
proof (induction d arbitrary: path)
  case (FileEntry name)
  show ?case by (auto simp: listed_simps fileAt_simps split: sum.splits)
next
  case (DirEntry name ents err)
  then show ?case
    by (cases "skipDir name"; cases err) (auto simp: listed_simps fileAt_simps walkDirs_err)
qed

lemma walkDir_hits:
  "snd (walkDir check path d) = None \<Longrightarrow>
     h \<in> set (fst (walkDir check path d)) \<longleftrightarrow> (\<exists>f hits. fileAt path d f \<and> check f = Inr hits \<and> h \<in> set hits)"
proof (induction d arbitrary: path)
  case (FileEntry name)
  then show ?case by (auto simp: fileAt_simps split: sum.splits if_splits)
next
  case (DirEntry name ents err)
  show ?case
  proof (cases "skipDir name")
    case True
    then show ?thesis by (simp add: fileAt_simps)
  next
    case False
    with DirEntry.prems have err: "err = None" and all: "snd (walkDirs check path ents) = None"
      by (auto split: option.splits)
    with False DirEntry.IH show ?thesis
      by (simp add: walkDirs_hits fileAt_simps walkDirs_err) blast
  qed
qed

definition readable :: "(string \<Rightarrow> Err + bytes) \<Rightarrow> (string \<Rightarrow> bytes \<Rightarrow> Err + node) \<Rightarrow> string \<Rightarrow> entry \<Rightarrow> bool" where
  "readable rd ps root d \<longleftrightarrow>
     listed d \<and> (\<forall>f. fileAt root d f \<longrightarrow> (\<exists>src file. rd f = Inr src \<and> ps f src = Inr file))"

lemma checkTree_err: "snd (checkTree rd ps root (Inr d)) = None \<longleftrightarrow> readable rd ps root d"
  by (simp add: checkTree_def walkDir_err readable_def checkFile_iff) blast

lemma file_hits:
  "(\<exists>hits. checkFile rd ps f = Inr hits \<and> h \<in> set hits) \<longleftrightarrow>
     (\<exists>src file n. rd f = Inr src \<and> ps f src = Inr file \<and> occurs n file \<and> h \<in> set (visit n))"
  by (fastforce simp: checkFile_iff inspect_occurs)

lemma checkTree_hits:
  assumes "readable rd ps root d"
  shows "fst (checkTree rd ps root (Inr d)) = [] \<longleftrightarrow>
    \<not> (\<exists>f src file n path. fileAt root d f \<and> rd f = Inr src \<and> ps f src = Inr file \<and> occurs n file \<and> unpaidV1 n path)"
proof -
  have "snd (walkDir (checkFile rd ps) root d) = None"
    using assms by (simp add: checkTree_err [symmetric] checkTree_def)
  then have "h \<in> set (fst (checkTree rd ps root (Inr d))) \<longleftrightarrow>
      (\<exists>f src file n. fileAt root d f \<and> rd f = Inr src \<and> ps f src = Inr file \<and> occurs n file \<and> h \<in> set (visit n))" for h
    by (simp add: checkTree_def walkDir_hits file_hits)
  then have "(\<exists>h. h \<in> set (fst (checkTree rd ps root (Inr d)))) \<longleftrightarrow>
      (\<exists>f src file n path. fileAt root d f \<and> rd f = Inr src \<and> ps f src = Inr file \<and> occurs n file \<and> unpaidV1 n path)"
    by (simp add: visit_iff [symmetric]) blast
  then show ?thesis by (cases "fst (checkTree rd ps root (Inr d))") auto
qed

section \<open>Correctness\<close>

text \<open>C14 What the lint decides: it exits with 2 exactly when some directory or Go file of
  the tree outside \<open>vendor\<close>, \<open>.git\<close> and \<open>lint\<close> cannot be listed, read or parsed, and with 0 exactly
  when all can and no such file has, at any depth of its syntax tree, a three-argument call of a
  method \<open>Register\<close> whose second argument is a string literal for a path under \<open>/v1/\<close> other than
  the exempt \<open>/v1/payment/ticket-params\<close>. The exemption and the skipped directories are the code's;
  its documentation flags every such literal in every Go file.\<close>

theorem lint_exact:
  "(lintMain rd ps root (Inr d) = 2 \<longleftrightarrow> \<not> readable rd ps root d) \<and>
   (lintMain rd ps root (Inr d) = 0 \<longleftrightarrow> readable rd ps root d \<and>
      \<not> (\<exists>f src file n path. fileAt root d f \<and> rd f = Inr src \<and> ps f src = Inr file \<and> occurs n file \<and> unpaidV1 n path))"
  using checkTree_err [of rd ps root d] checkTree_hits [of rd ps root d]
  by (auto simp: lintMain_def split: prod.splits option.splits)

text \<open>A tree with a violation below a function body, another in a skipped directory, and a
  registration through the paid route.\<close>

definition registerCall :: "string \<Rightarrow> string \<Rightarrow> node" where
  "registerCall meth path =
     CallExpr (''a.go'', 9) (SelectorExpr (OtherNode []) ''Register'')
       [BasicLit STRING (quoted meth), BasicLit STRING (quoted path), OtherNode []]"

definition sampleTree :: entry where
  "sampleTree = DirEntry ''.'' [FileEntry ''a.go'', DirEntry ''lint'' [FileEntry ''b.go''] None, FileEntry ''c.md''] None"

definition sampleParse :: "string \<Rightarrow> string \<Rightarrow> bytes \<Rightarrow> Err + node" where
  "sampleParse p f src = (if f = ''a.go'' then Inr (OtherNode [registerCall ''POST'' p]) else Inl (errorsNew ''no''))"

lemma sampleTree_files: "fileAt ''.'' sampleTree f \<longleftrightarrow> f = ''a.go''"
  by (simp add: sampleTree_def fileAt_simps joinPath_def skipDir_def hasSuffix_def hasPrefix_def ex_disj_distrib conj_disj_distribL)

lemma sampleTree_readable: "readable (\<lambda>_. Inr []) (sampleParse p) ''.'' sampleTree"
  by (auto simp: readable_def sampleTree_files sampleParse_def)
     (simp add: sampleTree_def listed_simps skipDir_def)

theorem lint_exact_witness:
  "lintMain (\<lambda>_. Inr []) (sampleParse ''/v1/chat/completions'') ''.'' (Inr sampleTree) = 1 \<and>
   lintMain (\<lambda>_. Inr []) (sampleParse ''/v1/payment/ticket-params'') ''.'' (Inr sampleTree) = 0 \<and>
   (\<exists>f src file n path. fileAt ''.'' sampleTree f \<and> sampleParse ''/v1/chat/completions'' f src = Inr file \<and>
      occurs n file \<and> unpaidV1 n path)"
proof -
  have one: "lintMain (\<lambda>_. Inr []) (sampleParse ''/v1/chat/completions'') ''.'' (Inr sampleTree) = 1" by code_simp
  have zero: "lintMain (\<lambda>_. Inr []) (sampleParse ''/v1/payment/ticket-params'') ''.'' (Inr sampleTree) = 0" by code_simp
  from one zero show ?thesis
    using lint_exact [of "\<lambda>_. Inr []" "sampleParse ''/v1/chat/completions''" "''.''" sampleTree] sampleTree_readable
    by simp blast
qed

end
