(* ===== verification/Spec2Isabelle.thy ===== *)
theory Spec2Isabelle
  imports Samples Interleaving CapRace Lifecycle Lint
begin

text \<open>
  A verification development for \<open>openai-worker-node\<close>, the worker that sells OpenAI-compatible
  inference for Livepeer payments.

  \<^bold>\<open>The program.\<close> A worker reads \<open>worker.yaml\<close>, dials the payment daemon next to it, compares its
  catalog of capabilities and prices with the daemon's, registers one paid route per configured
  capability and serves. A paid request goes through \<open>paymentMiddleware\<close>
  (\<open>src/internal/runtime/http/middleware.go\<close>): a slot of the semaphore, the body, the payment
  header, the model and its route, \<open>OpenSession\<close> and \<open>ProcessPayment\<close> on the daemon, the module's
  estimate, the upfront \<open>DebitBalance\<close>, the module's \<open>Serve\<close> against the backend, a second debit
  when the module reports more units than were reserved, \<open>CloseSession\<close>, the request's metrics
  and the release of the slot, the last three deferred and so run on every way out, panics
  included.

  \<^bold>\<open>How it is modelled.\<close> A handler is a function on a \<open>World\<close> (theory \<open>World\<close>): the state of the
  daemon, of the backend's transport and of the tokenizer cache, the length of the semaphore,
  and the log of every call that leaves the handler, in order: daemon RPCs with their answers,
  recorder calls, and an entry (\<open>Dispatch\<close>) where a module's \<open>Serve\<close> is called; what the module then
  sends to a backend changes the state of the transport. Errors are values of a sum or option type, a panic is
  a result of its own, \<open>int64\<close> arithmetic wraps (\<open>wrap64\<close>) wherever the source computes in it, and
  strings are bytes. Code outside the repository is a parameter: the daemon behind the gRPC stub,
  the backend's HTTP transport, the tiktoken library, the YAML decoder, the multipart reader, the
  formatting verb \<open>%q\<close> and the messages of the JSON decoder, the Go parser and the file system.
  What the source uses of Go's standard library is written out.

  \<^bold>\<open>The theories.\<close>
  \<^item> \<open>Prelude\<close>, \<open>GoText\<close>, \<open>GoCodec\<close>, \<open>GoJson\<close>, \<open>GoUrl\<close>: integers, errors and lists; UTF-8, white space
    and decimal numbers; hex, base64, big-endian numbers and SHA-256; the JSON parser, struct
    decoding and printing; \<open>url.Parse\<close>. Round trips of the codecs; the parser has fuel
    \<open>2 * length s + 2\<close>, and \<open>json_fuel_irrelevant\<close> shows that more changes nothing.
  \<^item> \<open>JsonTrip\<close>: what the JSON encoder writes, the parser reads back, with invalid UTF-8 replaced
    (\<open>jsonUnmarshal_jsonEnc\<close>); the answers of \<open>Writer\<close> and \<open>Handlers\<close> are read through it.
  \<^item> \<open>Metrics\<close> (\<open>internal/providers/metrics\<close>): the recorder, the Prometheus vectors with their cap on
    label tuples, the counting recorder. What the cap admits, and that it holds; a label that is not
    UTF-8 makes the Prometheus recorder panic. \<open>CapRace\<close> cuts a
    call on a capped vector into its atomic accesses: how far overlapping calls overshoot the cap.
    \<open>Recorders\<close> holds the three implementations of the interface with their HTTP handlers, the
    choice \<open>main\<close> makes among them, when a call panics (\<open>recPanics\<close>), and locale \<open>request_tally\<close>.
  \<^item> \<open>World\<close>, \<open>Payee\<close> (\<open>internal/providers/payeedaemon\<close>): the client interface, the gRPC client, the
    metrics decorator, the in-memory daemon. Locales \<open>quiet_client\<close> (an RPC only appends to the
    log and touches only the daemon) and \<open>session_ledger\<close> (what the operations do to balances).
  \<^item> \<open>Writer\<close> (the \<open>statusWriter\<close> and error answers of \<open>middleware.go\<close>): on \<open>net/http\<close>'s response
    writer, which may return an error from any write on; locale \<open>response_writer\<close>.
  \<^item> \<open>Config\<close> (\<open>internal/config\<close>): decoding of nodes, validation in the order of the code,
    projection, lookup, comparison with the daemon. \<open>wfYaml\<close> is the declarative form of validity.
  \<^item> \<open>Tokenizer\<close>, \<open>Backend\<close> (\<open>internal/providers\<close>): the token counters with locale \<open>token_counter\<close> (a
    count is a function of model and text, whatever is cached), the backend client with locale
    \<open>quiet_backend\<close>.
  \<^item> \<open>Module\<close>, \<open>Chat\<close>, \<open>Embeddings\<close>, \<open>Multipart\<close>, \<open>Images\<close>, \<open>Audio\<close> (\<open>internal/service/modules\<close>): the module
    interface with locale \<open>quiet_module\<close> and the six capabilities: what is reserved, what is
    relayed to the client, what is reported for the second debit.
  \<^item> \<open>Middleware\<close>, \<open>Session\<close>: the pipeline, its payment protocol as an automaton (\<open>protoStep\<close>) and
    what an accepted trace means; locale \<open>paid_route\<close> for any quiet client and module, extended by
    \<open>paid_ledger\<close> with a ledger.
  \<^item> \<open>Outbound\<close>: what leaves for a backend. Locales \<open>single_request\<close> (a backend client hands the
    transport at most one request per call), \<open>outbound_module\<close> and \<open>outbound_route\<close>, and a transport
    that keeps a log of its requests.
  \<^item> \<open>Concurrency\<close>: the handler cut into eleven steps on shared objects, equal to \<open>paymentMiddleware\<close>
    when run alone (\<open>handler_steps\<close> below), and any number of handlers interleaved by \<open>sysStep\<close>. \<open>Interleaving\<close> keeps the author
    of every call in the trace and lifts the protocol and the ledger to interleaved handlers;
    locale \<open>keyed_ledger\<close> extends \<open>session_ledger\<close> by the separation of sessions.
  \<^item> \<open>Handlers\<close>, \<open>Mux\<close> (\<open>internal/runtime/http\<close>): the unpaid handlers and the routing surface with its
    invariant \<open>muxOk\<close>.
  \<^item> \<open>Startup\<close>, \<open>Lifecycle\<close> (\<open>cmd/openai-worker-node/main.go\<close>, \<open>server.go\<close>, \<open>internal/runtime/metrics\<close>):
    \<open>run\<close> up to the populated mux, then the goroutines of a serving process, the way it ends and
    the exit code of \<open>main\<close>.
    \<open>Startup\<close> interprets the locales on the six modules with the production client, and \<open>paid_ledger\<close> on the
    in-memory daemon.
  \<^item> \<open>Lint\<close> (\<open>lint/payment-middleware-check\<close>): the build-time check of unpaid registrations.
  \<^item> \<open>Samples\<close>: one concrete worker and request, for the instances of the properties.

  \<^bold>\<open>What is shown.\<close> Of a started worker, over every request, daemon, backend and client: at most one
  request leaves for a backend, and none without a payment that was accepted and a debit the daemon
  confirmed; every trace follows the payment protocol; slots and sessions are given back on every path.
  The same protocol holds of each handler when any number of them interleave, and no update of a
  balance is lost. What a request costs; what is admitted, turned away and recorded, and when the
  recorder panics instead. Start-up fails closed or serves exactly the configured capabilities; a
  process that got a signal, or part of which failed, goes on to its exit by itself, and the exit code
  of the program is explained. The lint is characterised exactly and agrees with the routes of the
  running worker. A file is accepted exactly when it is well formed, and the routing table is the file's.
  The modules' estimates are exact sums, for images rounded up, while they fit an \<open>int64\<close>; where the
  documentation gives other sums the manifest says so. Answers and streams are relayed
  unchanged, up to the first write that fails. The recorder's series of counters are bounded and its
  decorators transparent. The unpaid handlers ask the daemon only with a valid request and map its
  errors; what the daemon grants, the configured catalogue and the error answers are read back from the
  JSON sent. Five theorems show where the code does less than it says: with the production client the
  balance test cannot fail, two estimates wrap around, the cap on label tuples leaves out the
  histograms, and overlapping calls overshoot it; the two on recorded and rejected requests include the
  panic of the recorder on a model that is not UTF-8.

  \<^bold>\<open>Bounds.\<close> A paid body has at most 16 MiB, a ticket-params body 8 KiB, a form field 64 KiB, a
  boundary is looked for in 1024 bytes, JSON nests at most 10000 deep; these are the source's or
  the library's numbers. A handler takes eleven steps, each of which is one call of the code, in which the code may wait; a
  process' life cycle has at most sixteen events.

  \<^bold>\<open>Not modelled.\<close> A call that never returns (of the daemon, a backend or a library); the recorder's
  panic on names of the configuration or the build that are not UTF-8, which a YAML text can only
  give through a \<open>!!binary\<close> value; sockets, timeouts and the drain of connections, of which the life cycle uses what
  \<open>net/http\<close> documents; the text of the Prometheus exposition and the durations handed to the
  recorder; log output, but for the lines of the metrics listener; redirects of unclean paths and
  the suppressed body of a \<open>HEAD\<close> answer in \<open>http.ServeMux\<close>; the generated protobuf code. What is left
  of the source beside these is imports, package comments and the build's version string.
\<close>

section \<open>The payment protocol of a running worker\<close>

text \<open>C2 Every request to a started worker, on any path but the three unpaid ones, leaves on the daemon
  and the backends a trace the payment protocol accepts, whatever the daemon, the backend
  and the client do, and whether the handler returns or panics.\<close>

theorem served_protocol:
  assumes "run en w0 = (Started m, w1)" and "rq_Path r \<notin> snd ` set unpaidRoutes" and "ServeHTTP m r rw w = (p, rw', w')"
  shows "\<exists>tr. effects (w_calls w') = effects (w_calls w) @ tr \<and> protoOk tr"
  using started_traced [OF assms] by (auto simp: traced_def)

theorem served_protocol_witness:
  "\<exists>m w1 rw' w' tr. run sampleEnv workerWorld = (Started m, w1) \<and>
     ServeHTTP m sampleRequest (NewRespWriter None) workerWorld = (False, rw', w') \<and>
     effects (w_calls w') = tr \<and> tr \<noteq> [] \<and> protoOk tr"
proof -
  obtain m w1 rw' w' xs ys where s: "run sampleEnv workerWorld = (Started m, w1)"
    "ServeHTTP m sampleRequest (NewRespWriter None) workerWorld = (False, rw', w')"
    "effects (w_calls w') = xs @ Dispatch chatCapability ''http://h'' # ys"
    using served_sample by blast
  from served_protocol [OF s(1) sampleRequest_paid s(2)] s show ?thesis by auto
qed



text \<open>Sessions do not leak: in the trace of a request the sessions closed are as many as the
  payments accepted, whether the module answers, fails or panics.\<close>

theorem served_sessions_closed:
  assumes "run en w0 = (Started m, w1)" and "rq_Path r \<notin> snd ` set unpaidRoutes" and "ServeHTTP m r rw w = (p, rw', w')"
  shows "\<exists>tr. effects (w_calls w') = effects (w_calls w) @ tr \<and>
    length (filter is_close tr) = length (filter is_processed tr)"
  using started_traced [OF assms] protoOk_balanced by (auto simp: traced_def)

theorem served_sessions_closed_witness:
  "\<exists>m w1 rw' w'. run sampleEnv workerWorld = (Started m, w1) \<and>
     ServeHTTP m sampleRequest (NewRespWriter None) workerWorld = (False, rw', w') \<and>
     length (filter is_close (effects (w_calls w'))) = length (filter is_processed (effects (w_calls w')))"
proof -
  obtain m w1 rw' w' where s: "run sampleEnv workerWorld = (Started m, w1)"
    "ServeHTTP m sampleRequest (NewRespWriter None) workerWorld = (False, rw', w')"
    using served_sample by blast
  from served_sessions_closed [OF s(1) sampleRequest_paid s(2)] s show ?thesis by auto
qed

text \<open>C3 The slot comes back: a request to a started worker leaves the semaphore as it found it, on
  every path through the handler, panics included.\<close>

theorem served_slot_released:
  assumes "run en w0 = (Started m, w1)" and "rq_Path r \<notin> snd ` set unpaidRoutes" and "ServeHTTP m r rw w = (p, rw', w')"
  shows "InflightPaid m w' = InflightPaid m w"
  using started_traced [OF assms] by (auto simp: traced_def InflightPaid_def)

theorem served_slot_released_witness:
  "\<exists>m w1 rw' w'. run sampleEnv workerWorld = (Started m, w1) \<and>
     ServeHTTP m sampleRequest (NewRespWriter None) workerWorld = (False, rw', w') \<and> InflightPaid m w' = 0"
proof -
  obtain m w1 rw' w' where s: "run sampleEnv workerWorld = (Started m, w1)"
    "ServeHTTP m sampleRequest (NewRespWriter None) workerWorld = (False, rw', w')"
    using served_sample by blast
  from served_slot_released [OF s(1) sampleRequest_paid s(2)] s show ?thesis by (auto simp: InflightPaid_def)
qed

text \<open>C36 With the production client no balance reaches the middleware as a negative number, whatever the
  daemon holds. A negative balance is the only thing it rejects as \<open>insufficient_balance\<close>, so a
  started worker never records such a rejection, for any request.\<close>

theorem served_balance_unsigned:
  assumes "run en w0 = (Started m, w1)" and "rq_Path r \<notin> snd ` set unpaidRoutes" and "ServeHTTP m r rw w = (p, rw', w')"
  shows "\<exists>tr ms. effects (w_calls w') = effects (w_calls w) @ tr \<and> mwMetrics (w_calls w') = mwMetrics (w_calls w) @ ms \<and>
    (\<forall>q b. Rpc q (ReplyBalance b) \<in> set tr \<longrightarrow> 0 \<le> b) \<and>
    Metric (IncPaymentRejection PaymentRejectInsufficientBalance) \<notin> set ms"
proof -
  obtain st tr ms where t: "traced (WithMetrics (grpcClient st) False) w tr ms w'" "insufficient \<in> set ms \<longrightarrow> overdrawn tr"
    using started_traced [OF assms] by blast
  then have b: "0 \<le> b" if "Rpc q (ReplyBalance b) \<in> set tr" for q b
    using that daemonRun_unsigned by (fastforce simp: traced_def)
  then have "\<not> overdrawn tr" by (fastforce simp: overdrawn_def)
  then show ?thesis using t b by (auto simp: traced_def)
qed

theorem served_balance_unsigned_witness:
  "\<exists>m w1 rw' w'. run sampleEnv workerWorld = (Started m, w1) \<and>
     ServeHTTP m sampleRequest (NewRespWriter None) workerWorld = (False, rw', w') \<and>
     (\<forall>q b. Rpc q (ReplyBalance b) \<in> set (effects (w_calls w')) \<longrightarrow> 0 \<le> b) \<and>
     Metric (IncPaymentRejection PaymentRejectInsufficientBalance) \<notin> set (mwMetrics (w_calls w'))"
proof -
  obtain m w1 rw' w' where s: "run sampleEnv workerWorld = (Started m, w1)"
    "ServeHTTP m sampleRequest (NewRespWriter None) workerWorld = (False, rw', w')"
    using served_sample by blast
  from served_balance_unsigned [OF s(1) sampleRequest_paid s(2)] s show ?thesis by auto
qed

text \<open>C9 At capacity a request is turned away before anything else happens: the answer is the JSON 503,
  and the only trace it leaves is three recorder calls.\<close>

theorem gate_full:
  assumes "dp_sem deps = Some n" and "n \<le> w_sem w" and "wr_sent rw = None" and "wr_accepts rw = None"
  shows "\<exists>sw'. paymentMiddleware deps r rw w =
      (False, sw', w\<lparr>w_calls := w_calls w @ [Metric (IncCapacityRejection (m_Capability (dp_module deps))),
         Metric (IncRequest (m_Capability (dp_module deps)) LabelUnset OutcomeRequest5xx),
         Metric (ObserveRequest (m_Capability (dp_module deps)) LabelUnset OutcomeRequest5xx)]\<rparr>) \<and>
    wr_sent (sw_ResponseWriter sw') = Some (503, headerSet ''Content-Type'' ''application/json'' (wr_header rw)) \<and>
    wr_body (sw_ResponseWriter sw') = wr_body rw @ errorJSON ''capacity_exhausted'' capacityDetail"
proof -
  have s: "wr_sent (sw_ResponseWriter (newStatusWriter rw)) = None" "wr_accepts (sw_ResponseWriter (newStatusWriter rw)) = None"
    using assms(3,4) by (simp_all add: newStatusWriter_def)
  have "acquireSlot deps w = None" using assms(1,2) by (simp add: acquireSlot_def)
  then show ?thesis
    using swWriter.writeJSONError_sent [OF s(1), of 503] swWriter.writeJSONError_body [of "newStatusWriter rw" 503] s
    by (simp add: paymentMiddleware_def rejectCapacity_def emit_def bodyAllowed_def newStatusWriter_def Let_def)
qed

theorem gate_full_witness:
  "\<exists>sw'. fst (paymentMiddleware sampleDeps sampleRequest (NewRespWriter None) (workerWorld\<lparr>w_sem := 2\<rparr>)) = False \<and>
     fst (snd (paymentMiddleware sampleDeps sampleRequest (NewRespWriter None) (workerWorld\<lparr>w_sem := 2\<rparr>))) = sw' \<and>
     wr_body (sw_ResponseWriter sw') = errorJSON ''capacity_exhausted'' capacityDetail"
proof -
  have "dp_sem sampleDeps = Some 2" by (simp add: sampleDeps_def routeDeps_def)
  from gate_full [OF this, of "workerWorld\<lparr>w_sem := 2\<rparr>" "NewRespWriter None" sampleRequest] show ?thesis
    by (auto simp: NewRespWriter_def)
qed

section \<open>The price of a request\<close>

text \<open>The balance of a session around a debit on the in-memory daemon.\<close>

lemma fake_debit:
  assumes "fk_DebitBalanceError (w_daemon w) = None"
  shows "\<exists>w'. callDebitBalance (routeDeps md y fakeClient n) s k units w =
      (Inr \<lparr>db_BalanceWei = BalanceFor s k (w_daemon w) - fk_DebitWeiPerWorkUnit (w_daemon w) * units\<rparr>, w') \<and>
    BalanceFor s k (w_daemon w') = BalanceFor s k (w_daemon w) - fk_DebitWeiPerWorkUnit (w_daemon w) * units \<and>
    fk_DebitWeiPerWorkUnit (w_daemon w') = fk_DebitWeiPerWorkUnit (w_daemon w) \<and> fk_DebitBalanceError (w_daemon w') = None"
  using assms
  by (auto simp: callDebitBalance_def callRpc_def routeDeps_def fake_defs)

text \<open>What serving costs beyond an estimate that has been debited.\<close>

lemma fake_serve:
  assumes q: "quiet_module md" and "0 \<le> e" and "fk_DebitBalanceError (w_daemon w) = None"
    and ch: "mwServe (routeDeps md y fakeClient n) r body model route s k e sw w = (p, sw', w')"
  shows "\<exists>out w3. m_Serve md sw r body model (mr_BackendURL route)
      (note_call (Dispatch (m_Capability md) (mr_BackendURL route)) w) = (out, sw', w3) \<and> (p \<longleftrightarrow> out = Panicked) \<and>
    BalanceFor s k (w_daemon w') = BalanceFor s k (w_daemon w) - fk_DebitWeiPerWorkUnit (w_daemon w) *
      (case out of Returned actual None \<Rightarrow> max e actual - e | _ \<Rightarrow> 0)"
proof -
  define deps where "deps = routeDeps md y fakeClient n"
  have md: "dp_module deps = md" by (simp add: deps_def routeDeps_def)
  note ch = ch [folded deps_def]
  define w2 where "w2 = note_call (Dispatch (m_Capability md) (mr_BackendURL route)) w"
  obtain out sw1 w3 where o: "m_Serve md sw r body model (mr_BackendURL route) w2 = (out, sw1, w3)" using prod_cases3 by blast
  have d3: "w_daemon w3 = w_daemon w"
    using quiet_module.serve_daemon [OF q, of sw r body model "mr_BackendURL route" w2] o by (simp add: w2_def)
  have "BalanceFor s k (w_daemon w') = BalanceFor s k (w_daemon w) - fk_DebitWeiPerWorkUnit (w_daemon w) *
      (case out of Returned actual None \<Rightarrow> max e actual - e | _ \<Rightarrow> 0)"
  proof (cases "\<exists>actual. out = Returned actual None \<and> e < actual")
    case False
    then have "w_daemon w' = w_daemon w3"
      using ch o md by (auto simp: mwServe_def w2_def Let_def split: served.splits option.splits if_splits)
    then show ?thesis using False d3 by (auto simp: max_def split: served.splits option.splits)
  next
    case True
    then obtain actual where a: "out = Returned actual None" "e < actual" by blast
    have "int64_range actual" using quiet_module.serve_range [OF q, of sw r body model "mr_BackendURL route" w2 actual None] o a by simp
    then have wr: "wrap64 (actual - e) = actual - e" using a(2) assms(2) by (intro wrap64_small) (auto simp: int64_range_def)
    define w4 where "w4 = emit (AddWorkUnits (m_Capability md) model (m_Unit md) actual) w3"
    have "w' = snd (callDebitBalance deps s k (actual - e) w4)"
      using ch o md a wr assms(2) by (auto simp: mwServe_def w2_def w4_def Let_def)
    moreover have "fk_DebitBalanceError (w_daemon w4) = None" "w_daemon w4 = w_daemon w" using assms(3) d3 by (simp_all add: w4_def)
    ultimately show ?thesis using fake_debit [of w4 md y n s k "actual - e"] a unfolding deps_def [symmetric] by auto
  qed
  moreover have "sw' = sw1 \<and> (p \<longleftrightarrow> out = Panicked)"
    using ch o md by (auto simp: mwServe_def w2_def Let_def split: served.splits option.splits)
  ultimately show ?thesis using o unfolding w2_def by blast
qed

text \<open>C7 What a request costs: on the in-memory daemon, with a module of the binary, a request whose
  estimate the balance covers is charged the larger of the estimate (never less than zero)
  and the units the module reports when it succeeds, and the estimate alone when the
  module fails or panics; nothing is refunded.\<close>

theorem charge_is_max:
  assumes "moduleFor rt (NewWordCount pct) fakeBackend cap = Some md"
    and "fk_DebitBalanceError (w_daemon w) = None"
    and "fst (m_EstimateWorkUnits md body model w) = Inr est"
    and "0 \<le> BalanceFor s k (w_daemon w) - fk_DebitWeiPerWorkUnit (w_daemon w) * max 0 est"
    and "mwCharge (routeDeps md y fakeClient n) r body model route s k sw w = (p, sw', w')"
  shows "\<exists>out w3. m_Serve md sw r body model (mr_BackendURL route)
      (note_call (Dispatch (m_Capability md) (mr_BackendURL route))
        (snd (callDebitBalance (routeDeps md y fakeClient n) s k (max 0 est) (snd (m_EstimateWorkUnits md body model w))))) =
      (out, sw', w3) \<and> (p \<longleftrightarrow> out = Panicked) \<and>
    BalanceFor s k (w_daemon w') = BalanceFor s k (w_daemon w) - fk_DebitWeiPerWorkUnit (w_daemon w) *
      (case out of Returned actual None \<Rightarrow> max (max 0 est) actual | _ \<Rightarrow> max 0 est)"
proof -
  define deps where "deps = routeDeps md y fakeClient n"
  have q: "quiet_module md"
    using wordCounter.token_counter_axioms fakeQuiet.quiet_backend_axioms assms(1) by (rule moduleFor_quiet)
  define e where "e = max 0 est"
  obtain w1 where w1: "m_EstimateWorkUnits md body model w = (Inr est, w1)" "w_daemon w1 = w_daemon w"
    using assms(3) quiet_module.estimate_daemon [OF q, of body model w] by (cases "m_EstimateWorkUnits md body model w") auto
  obtain w2 where w2: "callDebitBalance deps s k e w1 =
      (Inr \<lparr>db_BalanceWei = BalanceFor s k (w_daemon w) - fk_DebitWeiPerWorkUnit (w_daemon w) * e\<rparr>, w2)"
    "BalanceFor s k (w_daemon w2) = BalanceFor s k (w_daemon w) - fk_DebitWeiPerWorkUnit (w_daemon w) * e"
    "fk_DebitWeiPerWorkUnit (w_daemon w2) = fk_DebitWeiPerWorkUnit (w_daemon w)" "fk_DebitBalanceError (w_daemon w2) = None"
    using fake_debit [of w1 md y n s k e] w1(2) assms(2) unfolding deps_def by auto
  have "mwServe deps r body model route s k e sw w2 = (p, sw', w')"
    using assms(4,5) w1(1) w2(1)
    by (simp add: mwCharge_def deps_def [symmetric] e_def max_def routeDeps_def deps_def split: if_splits)
  then obtain out w3 where "m_Serve md sw r body model (mr_BackendURL route)
      (note_call (Dispatch (m_Capability md) (mr_BackendURL route)) w2) = (out, sw', w3)" "p \<longleftrightarrow> out = Panicked"
    "BalanceFor s k (w_daemon w') = BalanceFor s k (w_daemon w2) - fk_DebitWeiPerWorkUnit (w_daemon w2) *
      (case out of Returned actual None \<Rightarrow> max e actual - e | _ \<Rightarrow> 0)"
    using fake_serve [OF q _ w2(4), of e y n r body model route s k sw p sw' w'] unfolding deps_def e_def by auto
  then show ?thesis using w1(1) w2 unfolding e_def [symmetric] deps_def [symmetric]
    by (intro exI [of _ out] exI [of _ w3]) (auto simp: algebra_simps split: served.splits option.splits)
qed

definition fakeWorld :: "(Fake, FakeBackend) World" where
  "fakeWorld = \<lparr>w_daemon = NewFake\<lparr>fk_balances := [balanceKey ''s'' ''k'' \<mapsto> 100]\<rparr>, w_backend = NewFakeBackend,
     w_modelEnc = Map.empty, w_sem = 0, w_calls = []\<rparr>"

theorem charge_is_max_witness:
  "\<exists>p sw' w'. mwCharge (routeDeps (chatModule sampleRuntime (NewWordCount 133) fakeBackend False) sampleYaml fakeClient 2)
      sampleRequest sampleChat2 ''m'' (ad_route sampleAdmitted) ''s'' ''k'' (newStatusWriter (NewRespWriter None)) fakeWorld = (p, sw', w') \<and>
    BalanceFor ''s'' ''k'' (w_daemon w') \<le> 86"
proof -
  let ?md = "chatModule sampleRuntime (NewWordCount 133) fakeBackend False :: (Fake, FakeBackend) Module"
  have m: "moduleFor sampleRuntime (NewWordCount 133) fakeBackend chatCapability = Some ?md" by (simp add: moduleFor_def)
  have e: "fst (m_EstimateWorkUnits ?md sampleChat2 ''m'' fakeWorld) = Inr 14" by code_simp
  have b: "BalanceFor ''s'' ''k'' (w_daemon fakeWorld) = 100" "fk_DebitWeiPerWorkUnit (w_daemon fakeWorld) = 1"
    "fk_DebitBalanceError (w_daemon fakeWorld) = None"
    by (simp_all add: fakeWorld_def BalanceFor_def NewFake_def)
  obtain p sw' w' where c: "mwCharge (routeDeps ?md sampleYaml fakeClient 2) sampleRequest sampleChat2 ''m'' (ad_route sampleAdmitted)
      ''s'' ''k'' (newStatusWriter (NewRespWriter None)) fakeWorld = (p, sw', w')" using prod_cases3 by blast
  obtain out :: served where "BalanceFor ''s'' ''k'' (w_daemon w') =
      100 - (case out of Returned actual None \<Rightarrow> max (max 0 14) actual | _ \<Rightarrow> max 0 14)"
    using charge_is_max [OF m b(3) e _ c] b by auto
  then have "BalanceFor ''s'' ''k'' (w_daemon w') \<le> 86" by (cases out) (auto split: option.splits)
  then show ?thesis unfolding c by blast
qed

text \<open>The ledger agrees with the trace: on the in-memory daemon all calls of a request are on one
  session, and every sender's balance in it changes by what the trace accounts for, the
  credits of its accepted payments less the debits that succeeded at the daemon's rate.\<close>

theorem request_account:
  assumes "moduleFor rt (NewWordCount pct) fakeBackend cap = Some md"
    and "paymentMiddleware (routeDeps md y fakeClient n) r rw w = (p, sw', w')"
  shows "\<exists>tr k. effects (w_calls w') = effects (w_calls w) @ tr \<and> protoOk tr \<and> list_all (usesKey k) tr \<and>
    (\<forall>s. BalanceFor s k (w_daemon w') = BalanceFor s k (w_daemon w) + account (fk_DebitWeiPerWorkUnit (w_daemon w)) s tr)"
  by (rule paid_ledger.paymentMiddleware_account [OF fake_route [OF assms(1)] assms(2)])

theorem request_account_witness:
  "\<exists>p sw' w' tr k. paymentMiddleware (routeDeps (chatModule sampleRuntime (NewWordCount 133) fakeBackend False) sampleYaml fakeClient 2)
      sampleRequest (NewRespWriter None) fakeWorld = (p, sw', w') \<and> effects (w_calls w') = tr \<and> protoOk tr \<and> list_all (usesKey k) tr"
proof -
  have m: "moduleFor sampleRuntime (NewWordCount 133) fakeBackend chatCapability =
      Some (chatModule sampleRuntime (NewWordCount 133) fakeBackend False)" by (simp add: moduleFor_def)
  obtain p sw' w' where c: "paymentMiddleware (routeDeps (chatModule sampleRuntime (NewWordCount 133) fakeBackend False) sampleYaml fakeClient 2)
      sampleRequest (NewRespWriter None) fakeWorld = (p, sw', w')" using prod_cases3 by blast
  from request_account [OF m c] c show ?thesis by (fastforce simp: fakeWorld_def)
qed

section \<open>Admission, recording and concurrency\<close>

text \<open>C19 Every request on a paid route is recorded once: among the middleware's recorder calls there is
  one counter and one duration for it, with the model the request names (or the unset label when it was
  turned away before one was read) and the class of the status the handler wrote (5xx when the gate
  was full). The one exception: when metrics are served and that label is not UTF-8, the recorder
  panics in the counter, or, past the series cap, in the duration, and with it the handler.\<close>

theorem request_recorded_once:
  assumes "run en w0 = (Started m, w1)" and "PaidRoute md \<in> snd ` set (mx_routes m)"
    and "paymentMiddleware (depsOf m md) r rw w = (p, sw', w')"
    and "label = (if w_sem w < mx_paidSem m then requestLabel (depsOf m md) r else LabelUnset)"
    and "outcome = (if w_sem w < mx_paidSem m then classifyOutcome (rq_CtxErr r) (sw_status sw') else OutcomeRequest5xx)"
  shows "\<exists>ms. mwMetrics (w_calls w') = mwMetrics (w_calls w) @ ms \<and>
    (if metricsOn en \<and> \<not> utf8Valid label
     then p \<and> (\<exists>n\<in>{1, 2}. filter is_request_metric ms = take n (endMetrics (depsOf m md) label outcome))
     else filter is_request_metric ms = endMetrics (depsOf m md) label outcome)"
proof (cases "w_sem w < mx_paidSem m")
  case True
  then obtain wa where "acquireSlot (depsOf m md) w = Some wa" by (simp add: acquireSlot_def depsOf_def Let_def)
  from paid_route.admitted_traced [OF started_route [OF assms(1,2)] assms(3) this] True assms(4,5)
  obtain tr ms es ms' where t: "traced (dp_payee (depsOf m md)) w tr (ms @ es @ ms') w'" "bodyMetrics tr (ms @ ms')"
    "ended (depsOf m md) label outcome p es" by auto
  have "recordable (depsOf m md) label outcome \<longleftrightarrow> (metricsOn en \<longrightarrow> utf8Valid label)"
    using started_recordable [OF assms(1,2)] True assms(5) by simp
  moreover have "filter is_request_metric (take n (endMetrics deps label outcome)) = take n (endMetrics deps label outcome)"
    for n and deps :: "('a, 'b) paidRouteDeps" by (simp add: endMetrics_def take_Cons split: nat.splits)
  moreover have "filter is_request_metric ms = []" "filter is_request_metric ms' = []"
    using t(2) by (simp_all add: bodyMetrics_def filter_empty_conv list_all_iff)
  moreover have "filter is_request_metric (endMetrics (depsOf m md) label outcome) = endMetrics (depsOf m md) label outcome"
    by (simp add: endMetrics_def)
  ultimately show ?thesis using t(1,3)
    by (intro exI [of _ "ms @ es @ ms'"]) (auto simp: traced_def ended_def)
next
  case False
  then have "acquireSlot (depsOf m md) w = None" by (simp add: acquireSlot_def depsOf_def)
  then have "w' = snd (rejectCapacity (depsOf m md) (newStatusWriter rw) w)"
    using assms(3) by (simp add: paymentMiddleware_def split_beta)
  moreover have "utf8Valid LabelUnset" by (rule utf8Valid_ascii) simp
  ultimately show ?thesis
    using rejectCapacity_traced [of "dp_payee (depsOf m md)" w "depsOf m md" "newStatusWriter rw"] False assms(4,5)
    by (intro exI [of _ "Metric (IncCapacityRejection (m_Capability (dp_module (depsOf m md)))) # endMetrics (depsOf m md) LabelUnset OutcomeRequest5xx"])
      (simp add: traced_def endMetrics_def)
qed

theorem request_recorded_once_witness:
  "\<exists>m w1 sw' w' ms. run sampleEnv workerWorld = (Started m, w1) \<and>
     paymentMiddleware (depsOf m sampleModule) sampleRequest (NewRespWriter None) workerWorld = (False, sw', w') \<and>
     mwMetrics (w_calls w') = ms \<and>
     filter is_request_metric ms = endMetrics sampleDeps ''m'' (classifyOutcome None (sw_status sw'))"
proof -
  obtain m w1 where m: "run sampleEnv workerWorld = (Started m, w1)" "PaidRoute sampleModule \<in> snd ` set (mx_routes m)"
    "depsOf m sampleModule = sampleDeps" using served_sample by blast
  obtain sw' w' where s: "paymentMiddleware (depsOf m sampleModule) sampleRequest (NewRespWriter None) workerWorld = (False, sw', w')"
    using request_sample m(3) by auto
  have "Some (mx_paidSem m) = dp_sem sampleDeps" unfolding m(3) [symmetric] by (simp add: depsOf_def)
  then have "mx_paidSem m = 2" by (simp add: sampleDeps_def routeDeps_def)
  moreover have "\<not> metricsOn sampleEnv" by (simp add: metricsOn_def sampleEnv_def)
  moreover have "requestLabel sampleDeps sampleRequest = ''m''" by (simp add: requestLabel_def admit_sample sampleAdmitted_def)
  moreover have "rq_CtxErr sampleRequest = None" by (simp add: sampleRequest_def)
  ultimately show ?thesis using request_recorded_once [OF m(1,2) s refl refl] s m(1,3) by auto
qed

text \<open>C8 Admission is exact: with a valid file a request passes the middleware's checks exactly when its
  body is readable and at most 16 MiB, its payment header is base64, the module finds a
  model in the body and the file has that model under the route's capability; what it is
  admitted with is the file's backend, unit and price.\<close>

theorem admit_exact:
  assumes "wfYaml y" and "dp_cfg deps = projectFromYAML y"
  shows "mwAdmit deps r = Inr ad \<longleftrightarrow>
    length (rq_Body r) \<le> 16777216 \<and> rq_BodyErr r = None \<and> ad_body ad = rq_Body r \<and>
    headerGet PaymentHeaderName (rq_Header r) \<noteq> [] \<and>
    b64Decode (headerGet PaymentHeaderName (rq_Header r)) = Some (ad_payment ad) \<and>
    m_ExtractModel (dp_module deps) (rq_Body r) = Inr (ad_model ad) \<and>
    (\<exists>c\<in>set (y_Capabilities y). \<exists>o1\<in>set (yc_Offerings c). yc_Capability c = m_Capability (dp_module deps) \<and>
       yf_ID o1 = ad_model ad \<and> ad_route ad = yamlRoute c o1 \<and>
       setString10 (yf_PricePerWorkUnitWei o1) = Some (ad_price ad))"
proof -
  have l: "(\<exists>c\<in>set (y_Capabilities y). \<exists>o1\<in>set (yc_Offerings c). yc_Capability c = m_Capability (dp_module deps) \<and>
       yf_ID o1 = ad_model ad \<and> ad_route ad = yamlRoute c o1 \<and> setString10 (yf_PricePerWorkUnitWei o1) = Some (ad_price ad)) \<longleftrightarrow>
     Lookup (dp_cfg deps) (m_Capability (dp_module deps)) (ad_model ad) = Some (ad_route ad) \<and>
     setString10 (mr_PricePerWorkUnitWei (ad_route ad)) = Some (ad_price ad)"
  proof -
    have "mr_PricePerWorkUnitWei (yamlRoute c o1) = yf_PricePerWorkUnitWei o1" for c o1 by (simp add: yamlRoute_def)
    then show ?thesis unfolding assms(2) Lookup_wf [OF assms(1)] by metis
  qed
  show ?thesis unfolding l
    by (cases ad) (auto simp: mwAdmit_def rejection_def readAllMax_def Let_def split: sum.splits option.splits if_splits)
qed

theorem admit_exact_witness:
  "wfYaml sampleYaml \<and> dp_cfg sampleDeps = projectFromYAML sampleYaml \<and> mwAdmit sampleDeps sampleRequest = Inr sampleAdmitted \<and>
   b64Decode (headerGet PaymentHeaderName (rq_Header sampleRequest)) = Some ''a'' \<and>
   (\<exists>c\<in>set (y_Capabilities sampleYaml). \<exists>o1\<in>set (yc_Offerings c). yc_Capability c = chatCapability \<and>
      yf_ID o1 = ''m'' \<and> ad_route sampleAdmitted = yamlRoute c o1)"
proof -
  have y: "dp_cfg sampleDeps = projectFromYAML sampleYaml"
    by (simp add: sampleDeps_def routeDeps_def runningConfig_valid [OF wf_sampleYaml])
  have "m_Capability (dp_module sampleDeps) = chatCapability"
    by (simp add: sampleDeps_def routeDeps_def sampleModule_def chatModule_def)
  moreover have "ad_model sampleAdmitted = ''m''" "ad_payment sampleAdmitted = ''a''" by (simp_all add: sampleAdmitted_def)
  ultimately show ?thesis
    using admit_exact [OF wf_sampleYaml y, of sampleRequest sampleAdmitted] admit_sample wf_sampleYaml y by (simp only: simp_thms) metis
qed

text \<open>C18 A request that is not admitted by a started worker gets, on a fresh response, the JSON error of
  its rejection, which is a 400, a 402 or a 404 and never a 500; a client that parses the body
  reads the code and the detail back; neither the daemon nor a backend is touched and nothing is
  logged as an effect. The handler then returns, unless metrics are served and the label of the
  request is not UTF-8: then the recorder panics, and what \<open>net/http\<close> still buffers of the answer is lost.\<close>

theorem admission_error:
  assumes "run en w0 = (Started m, w1)" and "PaidRoute md \<in> snd ` set (mx_routes m)"
    and "mwAdmit (depsOf m md) r = Inl rj" and "w_sem w < mx_paidSem m" and "wr_sent rw = None" and "wr_accepts rw = None"
  shows "(rj_status rj, rj_code rj) \<in>
      {(400, ''invalid_request''), (402, ''missing_or_invalid_payment''), (404, ''capability_not_found'')} \<and>
    (\<exists>p sw' w'. paymentMiddleware (depsOf m md) r rw w = (p, sw', w') \<and>
       (p \<longleftrightarrow> metricsOn en \<and> \<not> utf8Valid (rj_label rj)) \<and>
       wr_sent (sw_ResponseWriter sw') = Some (rj_status rj, headerSet ''Content-Type'' ''application/json'' (wr_header rw)) \<and>
       wr_body (sw_ResponseWriter sw') = wr_body rw @ errorJSON (rj_code rj) (rj_detail rj) \<and>
       jsonUnmarshal (errorJSON (rj_code rj) (rj_detail rj)) =
         Some (JObj [(''detail'', JStr (toValidUTF8 (rj_detail rj))), (''error'', JStr (rj_code rj))]) \<and>
       effects (w_calls w') = effects (w_calls w) \<and> w_daemon w' = w_daemon w \<and> w_backend w' = w_backend w)"
proof -
  have st: "(rj_status rj, rj_code rj) \<in>
      {(400, ''invalid_request''), (402, ''missing_or_invalid_payment''), (404, ''capability_not_found'')}"
    by (rule paid_route.admit_rejects [OF started_route [OF assms(1,2)] assms(3)])
  then have range: "200 \<le> rj_status rj" "rj_status rj \<le> 999" "bodyAllowed (rj_status rj)" by (auto simp: bodyAllowed_def)
  have s: "wr_sent (sw_ResponseWriter (newStatusWriter rw)) = None" "wr_accepts (sw_ResponseWriter (newStatusWriter rw)) = None"
    using assms(5,6) by (simp_all add: newStatusWriter_def)
  have "toValidUTF8 (rj_code rj) = rj_code rj" using st by (auto intro!: toValidUTF8_ascii)
  then have json: "jsonUnmarshal (errorJSON (rj_code rj) (rj_detail rj)) =
      Some (JObj [(''detail'', JStr (toValidUTF8 (rj_detail rj))), (''error'', JStr (rj_code rj))])"
    by (simp add: errorJSON_read)
  define sw1 where "sw1 = writeJSONError statusRW (rj_status rj) (rj_code rj) (rj_detail rj) (newStatusWriter rw)"
  define wa where "wa = emit (SetInflightRequests (w_sem w + 1)) (w\<lparr>w_sem := w_sem w + 1\<rparr>)"
  define w2 where "w2 = (case rj_reason rj of None \<Rightarrow> wa | Some reason \<Rightarrow> emit (IncPaymentRejection reason) wa)"
  define q where "q = recordRequest (depsOf m md) (rj_label rj) (classifyOutcome (rq_CtxErr r) (sw_status sw1)) w2"
  have "acquireSlot (depsOf m md) w = Some wa" using assms(4) by (simp add: acquireSlot_def depsOf_def wa_def)
  moreover have "mwBody (depsOf m md) r (newStatusWriter rw) wa = (False, rj_label rj, sw1, w2)"
    using assms(3) by (simp add: mwBody_def sw1_def w2_def)
  ultimately have mw: "paymentMiddleware (depsOf m md) r rw w = (fst q, sw1, releaseSlot (depsOf m md) (snd q))"
    by (simp add: paymentMiddleware_def q_def Let_def split_beta)
  have "fst q \<longleftrightarrow> metricsOn en \<and> \<not> utf8Valid (rj_label rj)"
    unfolding q_def by (simp add: recordRequest_panics started_recordable [OF assms(1,2)])
  moreover have "effects (w_calls w2) = effects (w_calls w)" "w_daemon w2 = w_daemon w" "w_backend w2 = w_backend w"
    by (simp_all add: w2_def wa_def split: option.splits)
  ultimately show ?thesis
    using st json mw swWriter.writeJSONError_sent [OF s(1) range(1,2)] swWriter.writeJSONError_body [OF s(1) range s(2)]
    by (simp add: releaseSlot_def depsOf_def sw1_def q_def newStatusWriter_def Let_def)
qed

lemma noPayment_sample: "\<exists>rj. mwAdmit sampleDeps (sampleRequest\<lparr>rq_Header := []\<rparr>) = Inl rj \<and> rj_status rj = 402"
proof -
  have "headerGet PaymentHeaderName [] = []" by (simp add: headerGet_def)
  moreover have "length sampleChat2 \<le> 16777216" by code_simp
  ultimately show ?thesis by (simp add: mwAdmit_def readAllMax_def sampleRequest_def rejection_def)
qed

theorem admission_error_witness:
  "\<exists>m w1 sw' w' hs. run sampleEnv workerWorld = (Started m, w1) \<and>
     paymentMiddleware (depsOf m sampleModule) (sampleRequest\<lparr>rq_Header := []\<rparr>) (NewRespWriter None) workerWorld = (False, sw', w') \<and>
     wr_sent (sw_ResponseWriter sw') = Some (402, hs) \<and> effects (w_calls w') = []"
proof -
  obtain m w1 where m: "run sampleEnv workerWorld = (Started m, w1)" "PaidRoute sampleModule \<in> snd ` set (mx_routes m)"
    "depsOf m sampleModule = sampleDeps" using served_sample by blast
  obtain rj where rj: "mwAdmit sampleDeps (sampleRequest\<lparr>rq_Header := []\<rparr>) = Inl rj" "rj_status rj = 402"
    using noPayment_sample by blast
  have "Some (mx_paidSem m) = dp_sem sampleDeps" unfolding m(3) [symmetric] by (simp add: depsOf_def)
  then have "mx_paidSem m = 2" by (simp add: sampleDeps_def routeDeps_def)
  then show ?thesis
    using admission_error [OF m(1,2), of "sampleRequest\<lparr>rq_Header := []\<rparr>" rj workerWorld "NewRespWriter None"] m rj
    by (auto simp: NewRespWriter_def metricsOn_def sampleEnv_def)
qed

text \<open>C5 However the handlers interleave, the semaphore counts exactly the requests between the gate and
  the release, there are never more of them than \<open>max_concurrent_requests\<close>, and when all
  handlers have ended every slot is free.\<close>

theorem interleaved_slots:
  assumes "(sysStep capacity)\<^sup>*\<^sup>* ([], w) (ts, w')" and "w_sem w = 0"
  shows "w_sem w' = holders ts \<and> holders ts \<le> capacity \<and>
    ((\<forall>t\<in>set ts. \<exists>p. th_phase t = PhDone p) \<longrightarrow> w_sem w' = 0)"
proof -
  have "sysOk capacity ([], w)" using assms(2) by (simp add: sysOk_def holders_def)
  then have "sysOk capacity (ts, w')" by (rule sysOk_reachable [OF assms(1)])
  moreover have "holders ts = 0" if "\<forall>t\<in>set ts. \<exists>p. th_phase t = PhDone p"
    using that by (auto simp: holders_def filter_empty_conv)
  ultimately show ?thesis by (simp add: sysOk_def)
qed

definition sampleThread :: "(unit, sampleBackend) thread" where
  "sampleThread = \<lparr>th_deps = sampleDeps, th_request = sampleRequest, th_phase = PhGate, th_writer = newStatusWriter (NewRespWriter None)\<rparr>"

lemma arrive_sample: "(sysStep 2)\<^sup>*\<^sup>* ([], workerWorld) ([sampleThread], workerWorld)"
  using arrive [OF sampleDeps_route, of 2 "[]" workerWorld sampleRequest "NewRespWriter None"]
  by (auto simp: sampleThread_def sampleDeps_def routeDeps_def)

lemma enter_sample:
  "\<exists>t w'. (sysStep 2)\<^sup>*\<^sup>* ([], workerWorld) ([t], w') \<and> holding (th_phase t)"
proof -
  obtain w' where g: "mwStep sampleDeps sampleRequest (PhGate, th_writer sampleThread, workerWorld) = (PhBody, th_writer sampleThread, w')"
    by (simp add: acquireSlot_def sampleDeps_def routeDeps_def)
  have "sysStep 2 ([sampleThread], workerWorld) ([sampleThread][0 := sampleThread\<lparr>th_phase := PhBody, th_writer := th_writer sampleThread\<rparr>], w')"
    by (rule advance) (use g in \<open>auto simp: sampleThread_def\<close>)
  then show ?thesis using arrive_sample
    by (intro exI [of _ "sampleThread\<lparr>th_phase := PhBody\<rparr>"] exI [of _ w']) (auto simp: sampleThread_def)
qed

theorem interleaved_slots_witness:
  "\<exists>t w'. (sysStep 2)\<^sup>*\<^sup>* ([], workerWorld) ([t], w') \<and> holding (th_phase t) \<and> w_sem w' = 1"
proof -
  obtain t w' where t: "(sysStep 2)\<^sup>*\<^sup>* ([], workerWorld) ([t], w')" "holding (th_phase t)" using enter_sample by blast
  from interleaved_slots [OF t(1)] t show ?thesis by (auto simp: holders_def)
qed

text \<open>C4 The payment protocol holds under concurrency: in every run of any number of handlers, whatever
  their interleaving, the effects are the handlers' own calls in some order, the calls of each
  handler are a run of the protocol, a complete one once the handler has ended, and what a
  handler dispatches to a backend it was paid for in its own calls before.\<close>

theorem interleaved_protocol:
  assumes "(sysStep capacity)\<^sup>*\<^sup>* ([], w) (ts, w')"
  shows "\<exists>tr. sysTrace capacity ([], w) tr (ts, w') \<and> effects (w_calls w') = effects (w_calls w) @ map snd tr \<and>
    (\<forall>i<length ts. protoRun Idle (ownTrace i tr) \<noteq> None \<and>
      (\<forall>p. th_phase (ts ! i) = PhDone p \<longrightarrow> protoOk (ownTrace i tr)) \<and>
      (\<forall>xs cap url ys. ownTrace i tr = xs @ Dispatch cap url # ys \<longrightarrow> (\<exists>s k. paidTrace s k xs)))"
proof -
  obtain tr where tr: "sysTrace capacity ([], w) tr (ts, w')" using runs_sysTrace [OF assms] by blast
  have "\<exists>s k. paidTrace s k xs" if "i < length ts" "ownTrace i tr = xs @ Dispatch cap url # ys" for i xs cap url ys
    using sysTrace_handler(1) [OF tr that(1)] that(2) protoRun_dispatch_paid by metis
  then show ?thesis using tr sysTrace_handler [OF tr] sysTrace_effects [OF tr] by blast
qed

theorem interleaved_protocol_witness:
  "\<exists>t w' tr s k xs. (sysStep 2)\<^sup>*\<^sup>* ([], workerWorld) ([t], w') \<and> sysTrace 2 ([], workerWorld) tr ([t], w') \<and>
     protoOk (ownTrace 0 tr) \<and> paidTrace s k xs"
proof -
  obtain sw w' xs ys where s: "paymentMiddleware sampleDeps sampleRequest (NewRespWriter None) workerWorld = (False, sw, w')"
    and e: "effects (w_calls w') = xs @ Dispatch chatCapability ''http://h'' # ys"
    using request_sample by blast
  define t where "t = \<lparr>th_deps = sampleDeps, th_request = sampleRequest, th_phase = PhDone False, th_writer = sw\<rparr>"
  have "dp_sem sampleDeps = Some 2" by (simp add: sampleDeps_def routeDeps_def)
  from sysTrace_request [OF sampleDeps_route this s] have steps: "(sysStep 2)\<^sup>*\<^sup>* ([], workerWorld) ([t], w')"
    using sysTrace_runs unfolding t_def by blast
  obtain tr where tr: "sysTrace 2 ([], workerWorld) tr ([t], w')" "protoOk (ownTrace 0 tr)" "effects (w_calls w') = map snd tr"
    "\<forall>xs cap url ys. ownTrace 0 tr = xs @ Dispatch cap url # ys \<longrightarrow> (\<exists>s k. paidTrace s k xs)"
    using interleaved_protocol [OF steps] by (auto simp: t_def)
  have "ownTrace 0 tr = map snd tr" using sysTrace_own [OF tr(1)] .
  then show ?thesis using steps tr e by metis
qed

text \<open>C6 No update of a balance is lost: when any number of handlers run on the in-memory daemon, the
  balance of every sender in every session changes, whatever the interleaving, by the sum over
  the handlers of what their own calls on that session account for.\<close>

theorem interleaved_account:
  assumes "sysTrace capacity ([], w) tr (ts, w')" and "\<forall>t\<in>set ts. dp_payee (th_deps t) = fakeClient"
  shows "BalanceFor s (deriveWorkID pay) (w_daemon w') = BalanceFor s (deriveWorkID pay) (w_daemon w) +
    (\<Sum>i<length ts. account (fk_DebitWeiPerWorkUnit (w_daemon w)) s (filter (usesKey (deriveWorkID pay)) (ownTrace i tr)))"
  by (rule fakeKeyed.sysTrace_account [OF assms]) auto

theorem interleaved_account_witness:
  "\<exists>tr t u w'. sysTrace 2 ([], fakeWorld) tr ([t, u], w') \<and> th_phase t \<in> range PhDone \<and> th_phase u = PhGate \<and>
     (\<forall>s. BalanceFor s (deriveWorkID ''a'') (w_daemon w') = BalanceFor s (deriveWorkID ''a'') (w_daemon fakeWorld) +
        (account 1 s (filter (usesKey (deriveWorkID ''a'')) (ownTrace 0 tr)) +
         account 1 s (filter (usesKey (deriveWorkID ''a'')) (ownTrace 1 tr))))"
proof -
  define deps where "deps = routeDeps (chatModule sampleRuntime (NewWordCount 133) fakeBackend False :: (Fake, FakeBackend) Module) sampleYaml fakeClient 2"
  have d: "paid_route deps" "dp_sem deps = Some 2" "dp_payee deps = fakeClient"
    unfolding deps_def by (rule chatLedger.paid_route_axioms) (simp_all add: routeDeps_def)
  obtain p sw w' where m: "paymentMiddleware deps sampleRequest (NewRespWriter None) fakeWorld = (p, sw, w')" using prod_cases3 by blast
  define t where "t = \<lparr>th_deps = deps, th_request = sampleRequest, th_phase = PhDone p, th_writer = sw\<rparr>"
  define u where "u = \<lparr>th_deps = deps, th_request = sampleRequest, th_phase = PhGate, th_writer = newStatusWriter (NewRespWriter None)\<rparr>"
  obtain tr where "sysTrace 2 ([], fakeWorld) tr ([t], w')" using sysTrace_request [OF d(1,2) m] unfolding t_def by blast
  from trace_arrive [OF this d(1,2)] have tr: "sysTrace 2 ([], fakeWorld) tr ([t, u], w')" by (simp add: u_def)
  have "fk_DebitWeiPerWorkUnit (w_daemon fakeWorld) = 1" by (simp add: fakeWorld_def NewFake_def)
  with interleaved_account [OF tr, of _ "''a''"] d(3) tr show ?thesis
    by (intro exI [of _ tr] exI [of _ t] exI [of _ u] exI [of _ w']) (simp add: t_def u_def lessThan_Suc numeral_2_eq_2 add.commute)
qed

text \<open>The gate turns a request away only when it must: in every reachable state a handler at the gate
  is admitted exactly when fewer handlers hold a slot than the capacity.\<close>

theorem gate_admits_iff:
  assumes "(sysStep capacity)\<^sup>*\<^sup>* ([], w) (ts, w')" and "w_sem w = 0" and "t \<in> set ts" and "th_phase t = PhGate"
  shows "fst (mwStep (th_deps t) (th_request t) (th_phase t, th_writer t, w')) = PhBody \<longleftrightarrow> holders ts < capacity"
proof -
  have "sysOk capacity ([], w)" using assms(2) by (simp add: sysOk_def holders_def)
  then have ok: "sysOk capacity (ts, w')" by (rule sysOk_reachable [OF assms(1)])
  then have "dp_sem (th_deps t) = Some capacity" "w_sem w' = holders ts" using assms(3) by (auto simp: sysOk_def)
  then show ?thesis using assms(4) by (auto simp: acquireSlot_def Let_def split: prod.splits)
qed

theorem gate_admits_iff_witness:
  "fst (mwStep sampleDeps sampleRequest (PhGate, newStatusWriter (NewRespWriter None), workerWorld)) = PhBody"
  using gate_admits_iff [OF arrive_sample, of sampleThread] by (simp add: holders_def sampleThread_def)

text \<open>The handler cut into its steps on shared objects is done after at most eleven of them, and run without
  interference they compute what \<open>paymentMiddleware\<close> does: the interleaved handlers are those of the
  sequential theorems.\<close>

lemma handler_steps:
  "(mwStep deps r ^^ 11) (PhGate, newStatusWriter rw, w) =
     (let (p, sw, w') = paymentMiddleware deps r rw w in (PhDone p, sw, w'))"
  using run_to_end [of "(PhGate, newStatusWriter rw, w)" 11 deps r] complete_gate [of deps r rw w] by simp

section \<open>Start-up\<close>

text \<open>C10 Start-up ends in one of two ways: the process exits with code 1 or 2, or it serves with a mux
  whose routing table is that of a valid file, whose every configured capability has its
  paid route, and whose capacity is the file's \<open>max_concurrent_requests\<close>. It never panics.\<close>

theorem run_outcome:
  "(\<exists>c\<in>{1, 2}. fst (run en w) = Exited c) \<or>
   (\<exists>m y. fst (run en w) = Started m \<and> wfYaml y \<and> mx_cfg m = projectFromYAML y \<and> muxOk m \<and>
      int (mx_paidSem m) = yw_MaxConcurrentRequests (y_Worker y) \<and>
      (\<forall>c\<in>set (y_Capabilities y). HasPaidCapability m (yc_Capability c)))"
proof (cases "fst (run en w)")
  case (Started m)
  then obtain w1 where "run en w = (Started m, w1)" by (cases "run en w") auto
  then obtain y st where y: "wfYaml y" "startedOk en (projectFromYAML y) (WithMetrics (grpcClient st) False) m"
    using run_started by blast
  have "Ordered (Capabilities (projectFromYAML y)) = map projectCapability (y_Capabilities y)"
    by (simp add: projectFromYAML_def New_def Let_def)
  moreover have "0 < yw_MaxConcurrentRequests (y_Worker y)" using y(1) by (simp add: wfYaml_def)
  then have "int (mx_paidSem (NewMux (projectFromYAML y) (WithMetrics (grpcClient st) False))) =
      yw_MaxConcurrentRequests (y_Worker y)"
    by (simp add: NewMux_def projectFromYAML_def New_def Let_def)
  ultimately show ?thesis using Started y by (auto simp: startedOk_def projectCapability_def)
next
  case (Exited c)
  then show ?thesis using run_exits [of en w c] by auto
qed (simp add: run_no_panic)

theorem run_outcome_witness: "\<exists>m. fst (run sampleEnv workerWorld) = Started m \<and> muxOk m"
proof -
  obtain m w1 where "run sampleEnv workerWorld = (Started m, w1)" using run_sample by blast
  then show ?thesis using run_outcome [of sampleEnv workerWorld] by auto
qed

text \<open>C12 The exit code of the process is the documented one: 2 exactly for a wrong command line, 0 only when
  the worker served and was stopped by a signal and a graceful shutdown that succeeded, and 1 for
  everything else: it did not come to serve, the server or the metrics listener failed, or the
  shutdown ran into its deadline.\<close>

theorem exit_code:
  assumes "mainExit en prom w evs = Some c"
  shows "(c = 2 \<longleftrightarrow> usageError en) \<and>
    (c = 0 \<longrightarrow> (\<exists>m. fst (run en w) = Started m) \<and> Signal \<in> set evs \<and> ShutdownReturns None \<in> set evs) \<and>
    (c \<notin> {0, 2} \<longrightarrow> c = 1 \<and> ((\<forall>m. fst (run en w) \<noteq> Started m) \<or> serverFailed evs \<or> metricsFailed evs \<or> shutdownFailed evs))"
proof (cases "fst (run en w)")
  case (Exited k)
  then have "c = k" using assms by (simp add: mainExit_def)
  with run_exits [OF Exited] Exited show ?thesis by auto
next
  case (Started m)
  have "\<not> usageError en" using run_usage [of en w] Started by auto
  then show ?thesis using mainExit_started [OF assms Started] Started by (auto simp: exitCause_def)
qed (simp add: run_no_panic)

theorem exit_code_witness:
  "mainExit sampleEnv noopHandler workerWorld
     [Signal, TakeSignal, ServerReturns errServerClosed, ShutdownReturns None, ServerSends, DrainServer] = Some 0 \<and>
   \<not> usageError sampleEnv"
proof -
  let ?evs = "[Signal, TakeSignal, ServerReturns errServerClosed, ShutdownReturns None, ServerSends, DrainServer]"
  obtain m w1 where "run sampleEnv workerWorld = (Started m, w1)" using run_sample by blast
  then have c: "mainExit sampleEnv noopHandler workerWorld ?evs = Some 0"
    by (simp add: mainExit_def sampleEnv_def metrics_disabled lcInit_def lc_step_defs exited_def errServerClosed_def errorsIs_def)
  from exit_code [OF c] c show ?thesis by simp
qed

text \<open>C11 Fail closed: when the file asks for the check, a worker serves only if the daemon it dialled
  answered, at start, exactly the worker's catalog.\<close>

theorem catalog_checked:
  assumes "run en w0 = (Started m, w1)" and "VerifyDaemonConsistencyOnStart (Worker (mx_cfg m))"
  shows "\<exists>st. Dial (rt_quote (en_runtime en)) (en_newClient en) (PaymentDaemonSocket (Worker (mx_cfg m))) = Inr st \<and> mx_payee m = WithMetrics (grpcClient st) False \<and>
    fst (grpcListCapabilities st (w_daemon w0)) = Inr \<lparr>lc_Capabilities = map daemonView (Ordered (Capabilities (mx_cfg m)))\<rparr>"
proof -
  obtain y st where y: "Dial (rt_quote (en_runtime en)) (en_newClient en) (yw_PaymentDaemonSocket (y_Worker y)) = Inr st"
    "startedOk en (projectFromYAML y) (WithMetrics (grpcClient st) False) m"
    "yw_VerifyDaemonConsistencyOnStart (y_Worker y) \<longrightarrow>
       (\<exists>catalog. fst (grpcListCapabilities st (w_daemon w0)) = Inr catalog \<and> VerifyDaemonCatalog (Some (projectFromYAML y)) catalog = None)"
    using run_started [OF assms(1)] by blast
  have cfg: "mx_cfg m = projectFromYAML y" "mx_payee m = WithMetrics (grpcClient st) False" using y(2) by (simp_all add: startedOk_def)
  have "PaymentDaemonSocket (Worker (projectFromYAML y)) = yw_PaymentDaemonSocket (y_Worker y)"
    "VerifyDaemonConsistencyOnStart (Worker (projectFromYAML y)) = yw_VerifyDaemonConsistencyOnStart (y_Worker y)"
    by (simp_all add: projectFromYAML_def New_def Let_def)
  then show ?thesis using assms(2) y(1,3) cfg by (auto simp: VerifyDaemonCatalog_ok)
qed

theorem catalog_checked_witness:
  "\<exists>m w1 st. run sampleEnv workerWorld = (Started m, w1) \<and>
     fst (grpcListCapabilities st ()) = Inr \<lparr>lc_Capabilities = map daemonView (Ordered (Capabilities (mx_cfg m)))\<rparr>"
proof -
  obtain m w1 where m: "run sampleEnv workerWorld = (Started m, w1)" "mx_cfg m = projectFromYAML sampleYaml" using run_sample by blast
  have "VerifyDaemonConsistencyOnStart (Worker (mx_cfg m))"
    by (simp add: m(2) projectFromYAML_def New_def sampleYaml_def Let_def)
  from catalog_checked [OF m(1) this] m(1) show ?thesis by auto
qed

section \<open>The lint and the running worker\<close>

lemma visit_registerCall:
  assumes "list_all plainChar path"
  shows "visit (registerCall meth path) \<noteq> [] \<longleftrightarrow> hasPrefix ''/v1/'' path \<and> path \<notin> set allowedUnpaidV1Paths"
  using assms by (simp add: visit_def registerCall_def)

lemma lint_unpaid:
  assumes "(meth, path) \<in> set unpaidRoutes"
  shows "visit (registerCall meth path) = []"
proof -
  have "list_all (\<lambda>(_, p). list_all plainChar p \<and> \<not> (hasPrefix ''/v1/'' p \<and> p \<notin> set allowedUnpaidV1Paths)) unpaidRoutes"
    by code_simp
  then show ?thesis using assms visit_registerCall [of path meth] by (auto simp: list_all_iff)
qed

lemma lint_paid:
  assumes "path \<in> {chatHTTPPath, embHTTPPath, genHTTPPath, speechHTTPPath, editHTTPPath, transHTTPPath}"
  shows "visit (registerCall meth path) \<noteq> []"
proof -
  have "list_all (\<lambda>p. list_all plainChar p \<and> hasPrefix ''/v1/'' p \<and> p \<notin> set allowedUnpaidV1Paths)
      [chatHTTPPath, embHTTPPath, genHTTPPath, speechHTTPPath, editHTTPPath, transHTTPPath]"
    by code_simp
  then have "list_all plainChar path \<and> hasPrefix ''/v1/'' path \<and> path \<notin> set allowedUnpaidV1Paths"
    using assms by (auto simp: list_all_iff)
  then show ?thesis using visit_registerCall by blast
qed

text \<open>C15 The lint and the running worker agree: a route of a started worker takes payment exactly when the
  lint would refuse the call that registers its path as an unpaid one. The unpaid ones include
  \<open>/v1/payment/ticket-params\<close>, which the lint lets pass only by an exemption its documentation does
  not have.\<close>

theorem lint_agrees:
  assumes "run en w0 = (Started m, w1)" and "((meth, path), h) \<in> set (mx_routes m)"
  shows "is_paid h \<longleftrightarrow> visit (registerCall meth path) \<noteq> []"
proof -
  obtain y st where ok: "startedOk en (projectFromYAML y) (WithMetrics (grpcClient st) False) m"
    using run_started [OF assms(1)] by blast
  then have route: "routeOk (set (mx_paidCapabilities m)) ((meth, path), h)"
    using assms(2) by (auto simp: startedOk_def muxOk_def list_all_iff)
  show ?thesis
  proof (cases h)
    case (UnpaidRoute f)
    then show ?thesis using route lint_unpaid [of meth path] by (simp add: routeOk_def)
  next
    case (PaidRoute md)
    then have "PaidRoute md \<in> snd ` set (mx_routes m)" using assms(2) by force
    then have "m_HTTPPath md \<in> {chatHTTPPath, embHTTPPath, genHTTPPath, speechHTTPPath, editHTTPPath, transHTTPPath}"
      using ok moduleFor_paths unfolding startedOk_def by blast
    moreover have "path = m_HTTPPath md" using route PaidRoute by (simp add: routeOk_def)
    ultimately show ?thesis using PaidRoute lint_paid by simp
  qed
qed

theorem lint_agrees_witness:
  "\<exists>m w1 h. run sampleEnv workerWorld = (Started m, w1) \<and> ((''POST'', chatHTTPPath), h) \<in> set (mx_routes m) \<and> is_paid h"
proof -
  obtain m w1 where m: "run sampleEnv workerWorld = (Started m, w1)"
    "map_of (mx_routes m) (''POST'', chatHTTPPath) = Some (PaidRoute sampleModule)" using run_sample by blast
  have h: "((''POST'', chatHTTPPath), PaidRoute sampleModule) \<in> set (mx_routes m)" using m(2) by (rule map_of_SomeD)
  show ?thesis using m h lint_agrees [OF m(1) h] lint_paid [of chatHTTPPath "''POST''"] by blast
qed

end
